theory Spec2Isabelle
  imports Main "HOL-Library.Word" "HOL-Library.Sublist"
begin

section \<open>Data model\<close>

text \<open>
  The emitter of \<^verbatim>\<open>src/emitter.c\<close> walks a typed syntax tree and appends to an
  intermediate representation made of basic blocks. The C \<^verbatim>\<open>int\<close> is a 32-bit word
  whose arithmetic wraps and whose comparisons are signed. A pointer to a block is a
  natural number, \<open>0\<close> being the null pointer; a pointer to a type is an opaque handle.
\<close>

type_synonym int32 = "32 word"
type_synonym typeRef = nat
type_synonym irBlock = nat

text \<open>
  Symbols (\<^verbatim>\<open>inc/sym.h\<close> is not among the sources; the fields are the ones the
  emitter reads and writes). The tags the emitter tests are constructors of their own,
  every other tag is \<open>symOtherTag\<close>. The children vector is a list, a null label is
  \<open>None\<close>.
\<close>

datatype symTag = symScope | symId | symParam | symOtherTag nat

datatype sym =
  Sym (sym_tag: symTag) (sym_dt: typeRef) (sym_children: "sym list")
      (sym_offset: int32) (sym_label: "string option")

text \<open>
  Syntax tree nodes (\<^verbatim>\<open>inc/ast.h\<close> is not among the sources). The tags
  \<^verbatim>\<open>emitter.c\<close> names are constructors; \<open>astModule\<close> is the tag of the root, which
  the emitter never tests; every other tag is \<open>astOtherTag\<close>. The chain
  \<^verbatim>\<open>firstChild\<close>/\<^verbatim>\<open>nextSibling\<close> is the list of children; the pointers
  \<^verbatim>\<open>l\<close>, \<^verbatim>\<open>r\<close> and \<^verbatim>\<open>symbol\<close> may be null.
\<close>

datatype astTag =
  astModule | astUsing | astFnImpl | astDecl | astEmpty
  | astCode | astBranch | astLoop | astIter | astReturn | astBreak | astContinue
  | astOtherTag nat

datatype ast =
  Ast (ast_tag: astTag) (ast_children: "ast list") (ast_l: "ast option")
      (ast_r: "ast option") (ast_symbol: "sym option") (ast_dt: typeRef)

definition firstChild :: "ast \<Rightarrow> ast option" where
  "firstChild Node = (case ast_children Node of [] \<Rightarrow> None | c # _ \<Rightarrow> Some c)"

record architecture =
  wordsize :: int32

text \<open>
  Registers and operands (\<^verbatim>\<open>inc/reg.h\<close>, \<^verbatim>\<open>inc/operand.h\<close> are not among the
  sources). A \<^verbatim>\<open>reg*\<close> points into the table \<^verbatim>\<open>regs\<close> or is null. An operand is a
  register, a memory reference (base, offset, size), or any other form the value
  lowerer yields, of which only the base register is read.
\<close>

datatype regIndex = regRAX | regRBP | regOtherIndex nat

type_synonym reg = "regIndex option"

datatype operand =
  OperandReg reg
  | OperandMem reg int32 int32
  | OperandOther nat reg

fun operand_base :: "operand \<Rightarrow> reg" where
  "operand_base (OperandReg b) = b"
| "operand_base (OperandMem b _ _) = b"
| "operand_base (OperandOther _ b) = b"

definition operandCreateReg :: "reg \<Rightarrow> operand" where
  "operandCreateReg r = OperandReg r"

definition operandCreateMem :: "reg \<Rightarrow> int32 \<Rightarrow> int32 \<Rightarrow> operand" where
  "operandCreateMem b off sz = OperandMem b off sz"

definition regGet :: "regIndex \<Rightarrow> reg" where
  "regGet r = Some r"

datatype request = requestVoid | requestValue

text \<open>
  What the emitter does to the world outside it, in the order it does it: the calls
  into the IR layer, the assembler, the register allocator and the value and
  declaration lowerers (\<open>effect\<close>), and the lines written to the debug sink
  (\<open>debugEvent\<close>).
\<close>

datatype effect =
  IrInit string
  | IrEmit
  | IrJump irBlock irBlock
  | IrFnPrologue irBlock "string option" int32
  | IrFnEpilogue irBlock
  | EmitterBranchOnValue irBlock "ast option" irBlock irBlock
  | EmitterValue "irBlock option" "ast option" request
  | EmitterDecl "irBlock option" ast
  | AsmMove operand operand
  | RegAlloc int32
  | RegRequest regIndex int32
  | RegFree reg
  | OperandFree operand

datatype debugEvent =
  DebugEnter string
  | DebugLeave
  | DebugMsg string
  | DebugError string string
  | DebugErrorUnhandled string string string
  | ReportSymbol sym

text \<open>
  The emitter context. \<open>returnTo\<close>, \<open>breakTo\<close>, \<open>continueTo\<close> and \<open>arch\<close> are the
  fields of the C struct; \<open>blocks\<close> (how many blocks exist) and \<open>ops\<close> stand for the
  IR context \<^verbatim>\<open>ctx->ir\<close> and the assembler behind it; \<open>debug\<close> is the debug sink.
\<close>

record emitterCtx =
  arch :: architecture
  returnTo :: irBlock
  breakTo :: irBlock
  continueTo :: irBlock
  blocks :: nat
  ops :: "effect list"
  debug :: "debugEvent list"

text \<open>
  The functions of the repository that \<^verbatim>\<open>emitter.c\<close> calls and that are not among
  the sources are parameters. What a lowerer or the register allocator answers may
  depend on everything done so far, so each takes the context: \<open>declLowering\<close> and
  \<open>valueLowering\<close> give the number of blocks the lowerer creates, the block it
  leaves in its in/out parameter and (for a value) the operand; \<open>branchLowering\<close>
  gives the number of blocks created; \<open>regAllocated\<close> and \<open>regRequested\<close> give the
  register pointer returned.
\<close>

record extern =
  typeGetSize :: "architecture \<Rightarrow> typeRef \<Rightarrow> int32"
  typeGetReturn :: "typeRef \<Rightarrow> typeRef"
  symbolMangler :: "sym \<Rightarrow> string"
  astIsValueTag :: "astTag \<Rightarrow> bool"
  astTagGetStr :: "astTag \<Rightarrow> string"
  declLowering :: "emitterCtx \<Rightarrow> irBlock option \<Rightarrow> ast \<Rightarrow> nat \<times> irBlock"
  valueLowering :: "emitterCtx \<Rightarrow> irBlock option \<Rightarrow> ast option \<Rightarrow> request \<Rightarrow> nat \<times> irBlock \<times> operand"
  branchLowering :: "emitterCtx \<Rightarrow> irBlock \<Rightarrow> ast option \<Rightarrow> irBlock \<Rightarrow> irBlock \<Rightarrow> nat"
  regAllocated :: "emitterCtx \<Rightarrow> int32 \<Rightarrow> reg"
  regRequested :: "emitterCtx \<Rightarrow> regIndex \<Rightarrow> int32 \<Rightarrow> bool"

text \<open>
  A null pointer dereference and the read of a local that was never assigned are
  undefined behaviour in C: the model stops there, with the context as it was.
\<close>

datatype fault = NullDereference | UninitialisedRead

type_synonym 'a result = "(fault \<times> emitterCtx) + 'a"

section \<open>Collaborators\<close>

text \<open>Modelled from the spec: the debug sink of \<^verbatim>\<open>inc/debug.h\<close>, which only records.\<close>

definition debugEnter :: "emitterCtx \<Rightarrow> string \<Rightarrow> emitterCtx" where
  "debugEnter ctx s = ctx\<lparr>debug := debug ctx @ [DebugEnter s]\<rparr>"

definition debugLeave :: "emitterCtx \<Rightarrow> emitterCtx" where
  "debugLeave ctx = ctx\<lparr>debug := debug ctx @ [DebugLeave]\<rparr>"

definition debugMsg :: "emitterCtx \<Rightarrow> string \<Rightarrow> emitterCtx" where
  "debugMsg ctx s = ctx\<lparr>debug := debug ctx @ [DebugMsg s]\<rparr>"

definition debugError :: "emitterCtx \<Rightarrow> string \<Rightarrow> string \<Rightarrow> emitterCtx" where
  "debugError ctx f s = ctx\<lparr>debug := debug ctx @ [DebugError f s]\<rparr>"

definition debugErrorUnhandled :: "emitterCtx \<Rightarrow> string \<Rightarrow> string \<Rightarrow> string \<Rightarrow> emitterCtx" where
  "debugErrorUnhandled ctx f what s = ctx\<lparr>debug := debug ctx @ [DebugErrorUnhandled f what s]\<rparr>"

text \<open>
  Modelled from the spec: \<^verbatim>\<open>block_create\<close> of the IR layer returns a reference to a
  fresh block, distinct from null and from every block created before.
\<close>

definition irBlockCreate :: "emitterCtx \<Rightarrow> irBlock \<times> emitterCtx" where
  "irBlockCreate ctx = (Suc (blocks ctx), ctx\<lparr>blocks := Suc (blocks ctx)\<rparr>)"

text \<open>
  Modelled from the spec: \<^verbatim>\<open>jump\<close> appends an unconditional terminator to a block;
  \<^verbatim>\<open>fn_prologue\<close>, \<^verbatim>\<open>fn_epilogue\<close> and the final \<^verbatim>\<open>ir_emit\<close> likewise only
  append.
\<close>

definition irJump :: "emitterCtx \<Rightarrow> irBlock \<Rightarrow> irBlock \<Rightarrow> emitterCtx" where
  "irJump ctx block target = ctx\<lparr>ops := ops ctx @ [IrJump block target]\<rparr>"

definition irFnPrologue :: "emitterCtx \<Rightarrow> irBlock \<Rightarrow> string option \<Rightarrow> int32 \<Rightarrow> emitterCtx" where
  "irFnPrologue ctx block lbl stacksize = ctx\<lparr>ops := ops ctx @ [IrFnPrologue block lbl stacksize]\<rparr>"

definition irFnEpilogue :: "emitterCtx \<Rightarrow> irBlock \<Rightarrow> emitterCtx" where
  "irFnEpilogue ctx block = ctx\<lparr>ops := ops ctx @ [IrFnEpilogue block]\<rparr>"

definition irEmit :: "emitterCtx \<Rightarrow> emitterCtx" where
  "irEmit ctx = ctx\<lparr>ops := ops ctx @ [IrEmit]\<rparr>"

text \<open>
  Modelled from the spec: \<^verbatim>\<open>emit_branch_on_value\<close> emits a conditional terminator
  into the block; \<^verbatim>\<open>emit_value\<close> and \<^verbatim>\<open>emit_decl\<close> may split blocks, leave the
  new current block in their in/out parameter, and \<^verbatim>\<open>emit_value\<close> returns an
  operand. None of them touches the three jump targets. The source calls both
  lowerers with and without the block parameter; without it the block is \<open>None\<close>.
\<close>

definition emitterBranchOnValue ::
  "extern \<Rightarrow> emitterCtx \<Rightarrow> irBlock \<Rightarrow> ast option \<Rightarrow> irBlock \<Rightarrow> irBlock \<Rightarrow> emitterCtx" where
  "emitterBranchOnValue X ctx block cond ifTrue ifFalse =
     ctx\<lparr>blocks := blocks ctx + branchLowering X ctx block cond ifTrue ifFalse,
         ops := ops ctx @ [EmitterBranchOnValue block cond ifTrue ifFalse]\<rparr>"

definition emitterValue ::
  "extern \<Rightarrow> emitterCtx \<Rightarrow> irBlock option \<Rightarrow> ast option \<Rightarrow> request
     \<Rightarrow> operand \<times> irBlock \<times> emitterCtx" where
  "emitterValue X ctx block Node req =
     (case valueLowering X ctx block Node req of (n, block', Ret) \<Rightarrow>
        (Ret, block', ctx\<lparr>blocks := blocks ctx + n,
                          ops := ops ctx @ [EmitterValue block Node req]\<rparr>))"

definition emitterDecl ::
  "extern \<Rightarrow> emitterCtx \<Rightarrow> irBlock option \<Rightarrow> ast \<Rightarrow> irBlock \<times> emitterCtx" where
  "emitterDecl X ctx block Node =
     (case declLowering X ctx block Node of (n, block') \<Rightarrow>
        (block', ctx\<lparr>blocks := blocks ctx + n,
                     ops := ops ctx @ [EmitterDecl block Node]\<rparr>))"

text \<open>
  Modelled from the spec: the register allocator (\<^verbatim>\<open>alloc\<close>, \<^verbatim>\<open>request\<close>,
  \<^verbatim>\<open>free\<close>), the release of an operand and the assembler's move. A request yields
  the canonical register or null.
\<close>

definition regAlloc :: "extern \<Rightarrow> emitterCtx \<Rightarrow> int32 \<Rightarrow> reg \<times> emitterCtx" where
  "regAlloc X ctx sz = (regAllocated X ctx sz, ctx\<lparr>ops := ops ctx @ [RegAlloc sz]\<rparr>)"

definition regRequest :: "extern \<Rightarrow> emitterCtx \<Rightarrow> regIndex \<Rightarrow> int32 \<Rightarrow> reg \<times> emitterCtx" where
  "regRequest X ctx r sz =
     (if regRequested X ctx r sz then Some r else None, ctx\<lparr>ops := ops ctx @ [RegRequest r sz]\<rparr>)"

definition regFree :: "emitterCtx \<Rightarrow> reg \<Rightarrow> emitterCtx" where
  "regFree ctx r = ctx\<lparr>ops := ops ctx @ [RegFree r]\<rparr>"

definition operandFree :: "emitterCtx \<Rightarrow> operand \<Rightarrow> emitterCtx" where
  "operandFree ctx Op = ctx\<lparr>ops := ops ctx @ [OperandFree Op]\<rparr>"

definition asmMove :: "emitterCtx \<Rightarrow> operand \<Rightarrow> operand \<Rightarrow> emitterCtx" where
  "asmMove ctx Dest Src = ctx\<lparr>ops := ops ctx @ [AsmMove Dest Src]\<rparr>"

section \<open>The emitter\<close>

subsection \<open>emitterInit\<close>

definition emitterInit :: "string \<Rightarrow> architecture \<Rightarrow> emitterCtx" where
  "emitterInit output a =
     \<lparr>arch = a, returnTo = 0, breakTo = 0, continueTo = 0,
      blocks = 0, ops = [IrInit output], debug = []\<rparr>"

subsection \<open>emitterScopeAssignOffsets\<close>

text \<open>
  The symbol tree is passed by value: the function returns the scope with the offsets
  written, the running offset, and the debug sink after the calls of
  \<^verbatim>\<open>reportSymbol\<close>. The loop over the children vector is
  \<open>emitterScopeAssignOffsets_loop\<close>.
\<close>

definition sym_set_offset :: "sym \<Rightarrow> int32 \<Rightarrow> sym" where
  "sym_set_offset s v = Sym (sym_tag s) (sym_dt s) (sym_children s) v (sym_label s)"

definition sym_set_children :: "sym \<Rightarrow> sym list \<Rightarrow> sym" where
  "sym_set_children s cs = Sym (sym_tag s) (sym_dt s) cs (sym_offset s) (sym_label s)"

definition sym_set_label :: "sym \<Rightarrow> string option \<Rightarrow> sym" where
  "sym_set_label s lbl = Sym (sym_tag s) (sym_dt s) (sym_children s) (sym_offset s) lbl"

fun emitterScopeAssignOffsets ::
    "extern \<Rightarrow> architecture \<Rightarrow> sym \<Rightarrow> int32 \<Rightarrow> debugEvent list \<Rightarrow> sym \<times> int32 \<times> debugEvent list"
  and emitterScopeAssignOffsets_loop ::
    "extern \<Rightarrow> architecture \<Rightarrow> sym list \<Rightarrow> int32 \<Rightarrow> debugEvent list
       \<Rightarrow> sym list \<times> int32 \<times> debugEvent list" where
  "emitterScopeAssignOffsets X a (Sym t d cs off lbl) offset dbg =
     (case emitterScopeAssignOffsets_loop X a cs offset dbg of
        (cs', offset', dbg') \<Rightarrow> (Sym t d cs' off lbl, offset', dbg'))"
| "emitterScopeAssignOffsets_loop X a [] offset dbg = ([], offset, dbg)"
| "emitterScopeAssignOffsets_loop X a (Symbol # rest) offset dbg =
     (if sym_tag Symbol = symScope then
        (case emitterScopeAssignOffsets X a Symbol offset dbg of
           (Symbol', offset', dbg') \<Rightarrow>
             (case emitterScopeAssignOffsets_loop X a rest offset' dbg' of
                (rest', offset'', dbg'') \<Rightarrow> (Symbol' # rest', offset'', dbg'')))
      else if sym_tag Symbol = symId then
        (let offset' = offset - typeGetSize X a (sym_dt Symbol);
             Symbol' = sym_set_offset Symbol offset';
             dbg' = dbg @ [ReportSymbol Symbol']
         in case emitterScopeAssignOffsets_loop X a rest offset' dbg' of
              (rest', offset'', dbg'') \<Rightarrow> (Symbol' # rest', offset'', dbg''))
      else
        (case emitterScopeAssignOffsets_loop X a rest offset dbg of
           (rest', offset'', dbg'') \<Rightarrow> (Symbol # rest', offset'', dbg'')))"

subsection \<open>emitterReturn\<close>

definition emitterReturn :: "extern \<Rightarrow> emitterCtx \<Rightarrow> irBlock \<Rightarrow> ast \<Rightarrow> emitterCtx" where
  "emitterReturn X ctx0 block Node =
     (let ctx =
        (case ast_r Node of
           None \<Rightarrow> ctx0
         | Some rn \<Rightarrow>
            (let (Ret0, _, ctx1) = emitterValue X ctx0 None (Some rn) requestValue;
                 retSize = typeGetSize X (arch ctx1) (ast_dt rn);
                 retInTemp = (wordsize (arch ctx1) <s retSize);
                 (Ret, ctx5) =
                   (if retInTemp then
                      (let (r, ctx2) = regAlloc X ctx1 (wordsize (arch ctx1));
                           tempRef = operandCreateReg r;
                           ctx3 = asmMove ctx2 tempRef
                                    (operandCreateMem (Some regRBP) (2 * wordsize (arch ctx2))
                                       (wordsize (arch ctx2)));
                           ctx4 = asmMove ctx3 (operandCreateMem (operand_base tempRef) 0 retSize)
                                    Ret0
                       in (tempRef, operandFree ctx4 Ret0))
                    else (Ret0, ctx1));
                 (rax, ctx6) =
                   regRequest X ctx5 regRAX (if retInTemp then wordsize (arch ctx5) else retSize);
                 ctx7 =
                   (if rax \<noteq> None then
                      regFree (asmMove ctx6 (operandCreateReg rax) Ret) rax
                    else if operand_base Ret \<noteq> regGet regRAX then
                      debugError ctx6 ''emitterLine'' ''unable to allocate RAX for return''
                    else ctx6)
             in operandFree ctx7 Ret))
      in irJump ctx block (returnTo ctx))"

subsection \<open>emitterSetBreakTo, emitterSetContinueTo\<close>

definition emitterSetBreakTo :: "emitterCtx \<Rightarrow> irBlock \<Rightarrow> irBlock \<times> emitterCtx" where
  "emitterSetBreakTo ctx block = (breakTo ctx, ctx\<lparr>breakTo := block\<rparr>)"

definition emitterSetContinueTo :: "emitterCtx \<Rightarrow> irBlock \<Rightarrow> irBlock \<times> emitterCtx" where
  "emitterSetContinueTo ctx block = (continueTo ctx, ctx\<lparr>continueTo := block\<rparr>)"

subsection \<open>emitterCode, emitterLine, emitterBranch, emitterLoop, emitterIter\<close>

text \<open>
  The statement lowerers call each other; \<open>emitterCode_loop\<close> is the loop of
  \<^verbatim>\<open>emitterCode\<close> over the children, threading the current block. A lowerer that
  returns a block returns it with the context. \<^verbatim>\<open>emitterCode\<close> receives a pointer
  that its callers do not check, so its node is an \<open>ast option\<close>.
\<close>

lemma size_ast_l: "ast_l Node = Some x \<Longrightarrow> size x < size Node"
  by (cases Node) simp

lemma size_ast_r: "ast_r Node = Some x \<Longrightarrow> size x < size Node"
  by (cases Node) simp

lemma size_ast_children: "size_list size (ast_children Node) < size Node"
  by (cases Node) simp

function emitterCode ::
    "extern \<Rightarrow> emitterCtx \<Rightarrow> irBlock \<Rightarrow> ast option \<Rightarrow> irBlock \<Rightarrow> emitterCtx result"
  and emitterCode_loop ::
    "extern \<Rightarrow> emitterCtx \<Rightarrow> irBlock \<Rightarrow> ast list \<Rightarrow> (irBlock \<times> emitterCtx) result"
  and emitterLine ::
    "extern \<Rightarrow> emitterCtx \<Rightarrow> irBlock \<Rightarrow> ast \<Rightarrow> (irBlock \<times> emitterCtx) result"
  and emitterBranch ::
    "extern \<Rightarrow> emitterCtx \<Rightarrow> irBlock \<Rightarrow> ast \<Rightarrow> (irBlock \<times> emitterCtx) result"
  and emitterLoop ::
    "extern \<Rightarrow> emitterCtx \<Rightarrow> irBlock \<Rightarrow> ast \<Rightarrow> (irBlock \<times> emitterCtx) result"
  and emitterIter ::
    "extern \<Rightarrow> emitterCtx \<Rightarrow> irBlock \<Rightarrow> ast \<Rightarrow> (irBlock \<times> emitterCtx) result" where
  "emitterCode X ctx block None continuation = Inl (NullDereference, ctx)"
| "emitterCode X ctx block (Some Node) continuation =
     (case emitterCode_loop X ctx block (ast_children Node) of
        Inl e \<Rightarrow> Inl e
      | Inr (block', ctx') \<Rightarrow> Inr (irJump ctx' block' continuation))"
| "emitterCode_loop X ctx block [] = Inr (block, ctx)"
| "emitterCode_loop X ctx block (Current # rest) =
     (case emitterLine X ctx block Current of
        Inl e \<Rightarrow> Inl e
      | Inr (block', ctx') \<Rightarrow> emitterCode_loop X ctx' block' rest)"
| "emitterLine X ctx0 block Node =
     (let ctx = debugEnter ctx0 (astTagGetStr X (ast_tag Node)) in
      if ast_tag Node = astBranch then
        (case emitterBranch X ctx block Node of
           Inl e \<Rightarrow> Inl e
         | Inr (continuation, ctx') \<Rightarrow> Inr (continuation, debugLeave ctx'))
      else if ast_tag Node = astLoop then
        (case emitterLoop X ctx block Node of
           Inl e \<Rightarrow> Inl e
         | Inr (continuation, ctx') \<Rightarrow> Inr (continuation, debugLeave ctx'))
      else if ast_tag Node = astIter then
        (case emitterIter X ctx block Node of
           Inl e \<Rightarrow> Inl e
         | Inr (continuation, ctx') \<Rightarrow> Inr (continuation, debugLeave ctx'))
      else if ast_tag Node = astCode then
        (case irBlockCreate ctx of (continuation, ctx1) \<Rightarrow>
           (case emitterCode X ctx1 block (Some Node) continuation of
              Inl e \<Rightarrow> Inl e
            | Inr ctx' \<Rightarrow> Inr (continuation, debugLeave ctx')))
      else if ast_tag Node = astReturn then
        (case irBlockCreate (emitterReturn X ctx block Node) of
           (continuation, ctx') \<Rightarrow> Inr (continuation, debugLeave ctx'))
      else if ast_tag Node = astBreak then
        (case irBlockCreate (irJump ctx block (breakTo ctx)) of
           (continuation, ctx') \<Rightarrow> Inr (continuation, debugLeave ctx'))
      else if ast_tag Node = astContinue then
        (case irBlockCreate (irJump ctx block (continueTo ctx)) of
           (continuation, ctx') \<Rightarrow> Inr (continuation, debugLeave ctx'))
      else if ast_tag Node = astDecl then
        (case emitterDecl X ctx (Some block) Node of
           (block', ctx') \<Rightarrow> Inr (block', debugLeave ctx'))
      else if astIsValueTag X (ast_tag Node) then
        (case emitterValue X ctx (Some block) (Some Node) requestVoid of
           (_, block', ctx') \<Rightarrow> Inr (block', debugLeave ctx'))
      else if ast_tag Node = astEmpty then
        Inr (block, debugLeave ctx)
      else
        Inl (UninitialisedRead,
             debugLeave (debugErrorUnhandled ctx ''emitterLine'' ''AST tag''
                           (astTagGetStr X (ast_tag Node)))))"
| "emitterBranch X ctx0 block Node =
     (let (continuation, ctx1) = irBlockCreate ctx0;
          (ifTrue, ctx2) = irBlockCreate ctx1;
          (ifFalse, ctx3) = irBlockCreate ctx2;
          ctx4 = emitterBranchOnValue X ctx3 block (firstChild Node) ifTrue ifFalse
      in (case emitterCode X ctx4 ifTrue (ast_l Node) continuation of
            Inl e \<Rightarrow> Inl e
          | Inr ctx5 \<Rightarrow>
             (case emitterCode X ctx5 ifFalse (ast_r Node) continuation of
                Inl e \<Rightarrow> Inl e
              | Inr ctx6 \<Rightarrow> Inr (continuation, ctx6))))"
| "emitterLoop X ctx0 block Node =
     (let (continuation, ctx1) = irBlockCreate ctx0;
          (body, ctx2) = irBlockCreate ctx1;
          (loopCheck, ctx3) = irBlockCreate ctx2
      in (case ast_l Node of
            None \<Rightarrow> Inl (NullDereference, ctx3)
          | Some lnode \<Rightarrow>
             (let isDo = (ast_tag lnode = astCode);
                  cond = (if isDo then ast_r Node else ast_l Node);
                  code = (if isDo then ast_l Node else ast_r Node);
                  ctx4 = (if isDo then irJump ctx3 block body
                          else emitterBranchOnValue X ctx3 block cond body continuation);
                  (oldBreakTo, ctx5) = emitterSetBreakTo ctx4 continuation;
                  (oldContinueTo, ctx6) = emitterSetContinueTo ctx5 loopCheck
              in (case emitterCode X ctx6 body code loopCheck of
                    Inl e \<Rightarrow> Inl e
                  | Inr ctx7 \<Rightarrow>
                     (let ctx8 = ctx7\<lparr>breakTo := oldBreakTo\<rparr>;
                          ctx9 = ctx8\<lparr>continueTo := oldContinueTo\<rparr>;
                          ctx10 = emitterBranchOnValue X ctx9 loopCheck cond body continuation
                      in Inr (continuation, ctx10))))))"
| "emitterIter X ctx0 block0 Node =
     (let (continuation, ctx1) = irBlockCreate ctx0;
          (body, ctx2) = irBlockCreate ctx1;
          (iterate, ctx3) = irBlockCreate ctx2
      in (case ast_children Node of
            [] \<Rightarrow> Inl (NullDereference, ctx3)
          | [init] \<Rightarrow> Inl (NullDereference, ctx3)
          | init # cond # after \<Rightarrow>
             (let iter = (case after of [] \<Rightarrow> None | i # _ \<Rightarrow> Some i);
                  code = ast_l Node;
                  (block, ctx4) =
                    (if ast_tag init = astDecl then emitterDecl X ctx3 (Some block0) init
                     else snd (emitterValue X ctx3 (Some block0) (Some init) requestVoid));
                  ctx5 = emitterBranchOnValue X ctx4 block (Some cond) body continuation;
                  (oldBreakTo, ctx6) = emitterSetBreakTo ctx5 continuation;
                  (oldContinueTo, ctx7) = emitterSetContinueTo ctx6 iterate
              in (case emitterCode X ctx7 body code iterate of
                    Inl e \<Rightarrow> Inl e
                  | Inr ctx8 \<Rightarrow>
                     (let ctx9 = ctx8\<lparr>breakTo := oldBreakTo\<rparr>;
                          ctx10 = ctx9\<lparr>continueTo := oldContinueTo\<rparr>;
                          (iterate', ctx11) =
                            snd (emitterValue X ctx10 (Some iterate) iter requestVoid)
                      in Inr (continuation,
                              emitterBranchOnValue X ctx11 iterate' (Some cond) body
                                continuation))))))"
  by pat_completeness auto

termination emitterCode
proof (relation "measure (\<lambda>x. case x of
      Inl (Inl (X, ctx, b, Node, k)) \<Rightarrow> (case Node of None \<Rightarrow> 0 | Some n \<Rightarrow> 4 * size n + 1)
    | Inl (Inr (Inl (X, ctx, b, cs))) \<Rightarrow> 4 * size_list size cs
    | Inl (Inr (Inr (X, ctx, b, Node))) \<Rightarrow> 4 * size Node + 3
    | Inr (Inl (X, ctx, b, Node)) \<Rightarrow> 4 * size Node + 2
    | Inr (Inr (Inl (X, ctx, b, Node))) \<Rightarrow> 4 * size Node + 2
    | Inr (Inr (Inr (X, ctx, b, Node))) \<Rightarrow> 4 * size Node + 2)", goal_cases)
  case (2 X ctx block Node continuation)
  have "size_list size (ast_children Node) < size Node"
    by (rule size_ast_children)
  then show ?case by simp
qed (auto dest: size_ast_l size_ast_r split: option.splits)

subsection \<open>emitterFnImpl\<close>

text \<open>
  \<open>emitterFnImpl_params\<close> is the loop that assigns the parameters their offsets; it
  stops at the first child that is not a parameter. The function returns the function
  symbol as the source leaves it (label, parameter and local offsets written) with the
  context.
\<close>

fun emitterFnImpl_params ::
  "extern \<Rightarrow> architecture \<Rightarrow> sym list \<Rightarrow> int32 \<Rightarrow> debugEvent list
     \<Rightarrow> sym list \<times> int32 \<times> debugEvent list" where
  "emitterFnImpl_params X a [] lastOffset dbg = ([], lastOffset, dbg)"
| "emitterFnImpl_params X a (Symbol # rest) lastOffset dbg =
     (if sym_tag Symbol \<noteq> symParam then (Symbol # rest, lastOffset, dbg)
      else
        (let Symbol' = sym_set_offset Symbol lastOffset;
             lastOffset' = lastOffset + typeGetSize X a (sym_dt Symbol);
             dbg' = dbg @ [ReportSymbol Symbol']
         in case emitterFnImpl_params X a rest lastOffset' dbg' of
              (rest', lastOffset'', dbg'') \<Rightarrow> (Symbol' # rest', lastOffset'', dbg'')))"

definition emitterFnImpl :: "extern \<Rightarrow> emitterCtx \<Rightarrow> ast \<Rightarrow> (sym \<times> emitterCtx) result" where
  "emitterFnImpl X ctx0 Node =
     (let ctx1 = debugEnter ctx0 ''FnImpl'' in
      (case ast_symbol Node of
         None \<Rightarrow> Inl (NullDereference, ctx1)
       | Some fn0 \<Rightarrow>
          (let fn1 = (if sym_label fn0 = None
                      then sym_set_label fn0 (Some (symbolMangler X fn0)) else fn0);
               a = arch ctx1;
               lastOffset0 = 2 * wordsize a;
               lastOffset1 = (if wordsize a <s typeGetSize X a (typeGetReturn X (sym_dt fn1))
                              then lastOffset0 + wordsize a else lastOffset0);
               (params, lastOffset2, dbg1) =
                 emitterFnImpl_params X a (sym_children fn1) lastOffset1 (debug ctx1);
               (fn2, offset, dbg2) =
                 emitterScopeAssignOffsets X a (sym_set_children fn1 params) 0 dbg1;
               stacksize = - offset;
               ctx2 = ctx1\<lparr>debug := dbg2\<rparr>;
               (block, ctx3) = irBlockCreate ctx2;
               (epilogue, ctx4) = irBlockCreate ctx3;
               ctx5 = ctx4\<lparr>returnTo := epilogue\<rparr>;
               ctx6 = irFnPrologue ctx5 block (sym_label fn2) stacksize
           in (case emitterCode X ctx6 block (ast_r Node) epilogue of
                 Inl e \<Rightarrow> Inl e
               | Inr ctx7 \<Rightarrow> Inr (fn2, debugLeave (irFnEpilogue ctx7 epilogue))))))"

subsection \<open>emitterModule, emitter\<close>

function emitterModule :: "extern \<Rightarrow> emitterCtx \<Rightarrow> ast \<Rightarrow> emitterCtx result"
  and emitterModule_loop :: "extern \<Rightarrow> emitterCtx \<Rightarrow> ast list \<Rightarrow> emitterCtx result" where
  "emitterModule X ctx Node =
     (case emitterModule_loop X (debugEnter ctx ''Module'') (ast_children Node) of
        Inl e \<Rightarrow> Inl e
      | Inr ctx' \<Rightarrow> Inr (debugLeave ctx'))"
| "emitterModule_loop X ctx [] = Inr ctx"
| "emitterModule_loop X ctx (Current # rest) =
     (if ast_tag Current = astUsing then
        (case ast_r Current of
           None \<Rightarrow> emitterModule_loop X ctx rest
         | Some included \<Rightarrow>
            (case emitterModule X ctx included of
               Inl e \<Rightarrow> Inl e
             | Inr ctx' \<Rightarrow> emitterModule_loop X ctx' rest))
      else if ast_tag Current = astFnImpl then
        (case emitterFnImpl X ctx Current of
           Inl e \<Rightarrow> Inl e
         | Inr (_, ctx') \<Rightarrow> emitterModule_loop X ctx' rest)
      else if ast_tag Current = astDecl then
        emitterModule_loop X (snd (emitterDecl X ctx None Current)) rest
      else if ast_tag Current = astEmpty then
        emitterModule_loop X (debugMsg ctx ''Empty'') rest
      else
        emitterModule_loop X
          (debugErrorUnhandled ctx ''emitterModule'' ''AST tag'' (astTagGetStr X (ast_tag Current)))
          rest)"
  by pat_completeness auto

termination emitterModule
proof (relation "measure (\<lambda>x. case x of
      Inl (X, ctx, Node) \<Rightarrow> 2 * size Node + 1
    | Inr (X, ctx, cs) \<Rightarrow> 2 * size_list size cs)", goal_cases)
  case (2 X ctx Node)
  have "size_list size (ast_children Node) < size Node"
    by (rule size_ast_children)
  then show ?case by simp
qed (auto dest: size_ast_r)

text \<open>
  \<^verbatim>\<open>emitter\<close> is the entry point. \<^verbatim>\<open>emitterEnd\<close> only frees the context, so the
  model returns the context as it is after \<^verbatim>\<open>irEmit\<close>.
\<close>

definition emitter :: "extern \<Rightarrow> ast \<Rightarrow> string \<Rightarrow> architecture \<Rightarrow> emitterCtx result" where
  "emitter X Tree output a =
     (case emitterModule X (emitterInit output a) Tree of
        Inl e \<Rightarrow> Inl e
      | Inr ctx \<Rightarrow> Inr (irEmit ctx))"

section \<open>Derived notions\<close>

text \<open>
  Names for what the control-flow lowerers compute on the way: the three fresh blocks
  of a lowerer are \<open>Suc (blocks ctx)\<close>, \<open>Suc (Suc (blocks ctx))\<close> and
  \<open>Suc (Suc (Suc (blocks ctx)))\<close> in the order of creation; \<open>branch_entry\<close>, \<open>loop_entry\<close> and \<open>iter_entry\<close> are the
  contexts after the entry edge has been emitted; \<open>restoreTargets\<close> writes the saved
  \<open>breakTo\<close> and \<open>continueTo\<close> back. \<open>ctx_extends\<close> says that a later context
  only adds to an earlier one and has the same three jump targets.
\<close>

definition targets_kept :: "emitterCtx \<Rightarrow> emitterCtx \<Rightarrow> bool" where
  "targets_kept ctx ctx' \<longleftrightarrow>
     returnTo ctx' = returnTo ctx \<and> breakTo ctx' = breakTo ctx \<and> continueTo ctx' = continueTo ctx"

definition ctx_grows :: "emitterCtx \<Rightarrow> emitterCtx \<Rightarrow> bool" where
  "ctx_grows ctx ctx' \<longleftrightarrow>
     arch ctx' = arch ctx \<and> returnTo ctx' = returnTo ctx \<and> blocks ctx \<le> blocks ctx' \<and>
     prefix (ops ctx) (ops ctx') \<and> prefix (debug ctx) (debug ctx')"

definition ctx_extends :: "emitterCtx \<Rightarrow> emitterCtx \<Rightarrow> bool" where
  "ctx_extends ctx ctx' \<longleftrightarrow> ctx_grows ctx ctx' \<and> targets_kept ctx ctx'"

definition statementTag :: "astTag \<Rightarrow> bool" where
  "statementTag t \<longleftrightarrow>
     t \<in> {astBranch, astLoop, astIter, astCode, astReturn, astBreak, astContinue, astDecl}"

definition loop_isDo :: "ast \<Rightarrow> bool" where
  "loop_isDo Node = (case ast_l Node of None \<Rightarrow> False | Some lnode \<Rightarrow> ast_tag lnode = astCode)"

definition loop_cond :: "ast \<Rightarrow> ast option" where
  "loop_cond Node = (if loop_isDo Node then ast_r Node else ast_l Node)"

definition loop_code :: "ast \<Rightarrow> ast option" where
  "loop_code Node = (if loop_isDo Node then ast_l Node else ast_r Node)"

definition loop_entry :: "extern \<Rightarrow> emitterCtx \<Rightarrow> irBlock \<Rightarrow> ast \<Rightarrow> emitterCtx" where
  "loop_entry X ctx block Node =
     (let continuation = Suc (blocks ctx); body = Suc (Suc (blocks ctx));
          ctx3 = ctx\<lparr>blocks := Suc (Suc (Suc (blocks ctx)))\<rparr>
      in if loop_isDo Node then irJump ctx3 block body
         else emitterBranchOnValue X ctx3 block (loop_cond Node) body continuation)"

definition branch_entry :: "extern \<Rightarrow> emitterCtx \<Rightarrow> irBlock \<Rightarrow> ast \<Rightarrow> emitterCtx" where
  "branch_entry X ctx block Node =
     emitterBranchOnValue X (ctx\<lparr>blocks := Suc (Suc (Suc (blocks ctx)))\<rparr>) block (firstChild Node)
       (Suc (Suc (blocks ctx))) (Suc (Suc (Suc (blocks ctx))))"

definition iter_init :: "extern \<Rightarrow> emitterCtx \<Rightarrow> irBlock \<Rightarrow> ast \<Rightarrow> irBlock \<times> emitterCtx" where
  "iter_init X ctx block init =
     (let ctx3 = ctx\<lparr>blocks := Suc (Suc (Suc (blocks ctx)))\<rparr>
      in if ast_tag init = astDecl then emitterDecl X ctx3 (Some block) init
         else snd (emitterValue X ctx3 (Some block) (Some init) requestVoid))"

definition iter_entry :: "extern \<Rightarrow> emitterCtx \<Rightarrow> irBlock \<Rightarrow> ast \<Rightarrow> ast \<Rightarrow> emitterCtx" where
  "iter_entry X ctx block init cond =
     emitterBranchOnValue X (snd (iter_init X ctx block init)) (fst (iter_init X ctx block init))
       (Some cond) (Suc (Suc (blocks ctx))) (Suc (blocks ctx))"

definition iter_step :: "ast list \<Rightarrow> ast option" where
  "iter_step after = (case after of [] \<Rightarrow> None | i # _ \<Rightarrow> Some i)"

definition restoreTargets :: "emitterCtx \<Rightarrow> emitterCtx \<Rightarrow> emitterCtx" where
  "restoreTargets old ctx = ctx\<lparr>breakTo := breakTo old, continueTo := continueTo old\<rparr>"

definition loop_exit :: "extern \<Rightarrow> emitterCtx \<Rightarrow> emitterCtx \<Rightarrow> ast \<Rightarrow> emitterCtx" where
  "loop_exit X ctx ctx7 Node =
     emitterBranchOnValue X (restoreTargets ctx ctx7) (Suc (Suc (Suc (blocks ctx)))) (loop_cond Node)
       (Suc (Suc (blocks ctx))) (Suc (blocks ctx))"

definition iter_exit ::
  "extern \<Rightarrow> emitterCtx \<Rightarrow> emitterCtx \<Rightarrow> ast \<Rightarrow> ast list \<Rightarrow> emitterCtx" where
  "iter_exit X ctx ctx8 cond after =
     (let r = emitterValue X (restoreTargets ctx ctx8) (Some (Suc (Suc (Suc (blocks ctx)))))
                (iter_step after) requestVoid
      in emitterBranchOnValue X (snd (snd r)) (fst (snd r)) (Some cond)
           (Suc (Suc (blocks ctx))) (Suc (blocks ctx)))"

text \<open>
  \<open>fn_layout\<close> is what the function lowerer does to the function symbol before any
  block is created (label, parameter offsets, local offsets) and \<open>fn_body_ctx\<close> the
  context in which it lowers the body. \<open>stmtsOfCode inner\<close> lists the statements the
  statement lowerer is called on while a code node is lowered: those in nested code
  blocks and branch arms, and with \<open>inner\<close> also those in the bodies of nested loops
  and iters. \<open>return_lowering\<close> spells out, in the words of the specification, what
  the return lowerer emits for a returned expression and what it reports.
  \<open>opsSince ctx ctx'\<close> are the effects added between two contexts.
\<close>

definition fn_layout ::
  "extern \<Rightarrow> architecture \<Rightarrow> sym \<Rightarrow> debugEvent list \<Rightarrow> sym \<times> int32 \<times> int32 \<times> debugEvent list" where
  "fn_layout X a fn0 dbg0 =
     (let fn1 = (if sym_label fn0 = None
                 then sym_set_label fn0 (Some (symbolMangler X fn0)) else fn0);
          lastOffset0 = 2 * wordsize a;
          lastOffset1 = (if wordsize a <s typeGetSize X a (typeGetReturn X (sym_dt fn1))
                         then lastOffset0 + wordsize a else lastOffset0);
          (params, lastOffset2, dbg1) =
            emitterFnImpl_params X a (sym_children fn1) lastOffset1 dbg0;
          (fn2, offset, dbg2) =
            emitterScopeAssignOffsets X a (sym_set_children fn1 params) 0 dbg1
      in (fn2, lastOffset2, offset, dbg2))"

definition fn_body_ctx :: "extern \<Rightarrow> emitterCtx \<Rightarrow> sym \<Rightarrow> emitterCtx" where
  "fn_body_ctx X ctx fn0 =
     (case fn_layout X (arch ctx) fn0 (debug ctx @ [DebugEnter ''FnImpl'']) of
        (fn2, lastOffset2, offset, dbg2) \<Rightarrow>
          irFnPrologue
            (ctx\<lparr>debug := dbg2, blocks := Suc (Suc (blocks ctx)),
                 returnTo := Suc (Suc (blocks ctx))\<rparr>)
            (Suc (blocks ctx)) (sym_label fn2) (- offset))"

lemma size_ast_child:
  assumes "x \<in> set (ast_children Node)"
  shows "size x < size Node"
proof -
  from assms have "size x \<le> size_list size (ast_children Node)"
    by (rule size_list_estimation') simp
  also have "\<dots> < size Node" by (rule size_ast_children)
  finally show ?thesis .
qed

lemma size_loop_code: "loop_code Node = Some x \<Longrightarrow> size x < size Node"
  by (auto simp: loop_code_def dest: size_ast_l size_ast_r split: if_splits)

function stmtsOfLine :: "bool \<Rightarrow> ast \<Rightarrow> ast list"
  and stmtsOfCode :: "bool \<Rightarrow> ast option \<Rightarrow> ast list" where
  "stmtsOfLine inner Node =
     Node #
     (if ast_tag Node = astBranch then
        stmtsOfCode inner (ast_l Node) @ stmtsOfCode inner (ast_r Node)
      else if ast_tag Node = astCode then stmtsOfCode inner (Some Node)
      else if inner \<and> ast_tag Node = astLoop then stmtsOfCode inner (loop_code Node)
      else if inner \<and> ast_tag Node = astIter then stmtsOfCode inner (ast_l Node)
      else [])"
| "stmtsOfCode inner None = []"
| "stmtsOfCode inner (Some Node) = concat (map (stmtsOfLine inner) (ast_children Node))"
  by pat_completeness auto

termination stmtsOfLine
  by (relation "measure (\<lambda>x. case x of
        Inl (inner, Node) \<Rightarrow> 2 * size Node + 2
      | Inr (inner, None) \<Rightarrow> 0
      | Inr (inner, Some Node) \<Rightarrow> 2 * size Node + 1)")
    (auto dest: size_ast_l size_ast_r size_loop_code size_ast_child split: option.splits)

definition return_lowering :: "extern \<Rightarrow> emitterCtx \<Rightarrow> ast \<Rightarrow> effect list \<times> debugEvent list" where
  "return_lowering X ctx rn =
     (let ws = wordsize (arch ctx);
          valued = emitterValue X ctx None (Some rn) requestValue;
          value = fst valued;
          ctx1 = snd (snd valued);
          ret_size = typeGetSize X (arch ctx) (ast_dt rn);
          hidden_pointer = (ws <s ret_size);
          temp_ref = OperandReg (regAllocated X ctx1 ws);
          through_pointer =
            (if hidden_pointer then
               [RegAlloc ws,
                AsmMove temp_ref (OperandMem (Some regRBP) (2 * ws) ws),
                AsmMove (OperandMem (regAllocated X ctx1 ws) 0 ret_size) value,
                OperandFree value]
             else []);
          returned = (if hidden_pointer then temp_ref else value);
          request_size = (if hidden_pointer then ws else ret_size);
          granted = regRequested X (ctx1\<lparr>ops := ops ctx1 @ through_pointer\<rparr>) regRAX request_size;
          into_return_register =
            (if granted then [AsmMove (OperandReg (Some regRAX)) returned, RegFree (Some regRAX)]
             else [])
      in ([EmitterValue None (Some rn) requestValue] @ through_pointer @
          [RegRequest regRAX request_size] @ into_return_register @ [OperandFree returned],
          if \<not> granted \<and> operand_base returned \<noteq> Some regRAX
          then [DebugError ''emitterLine'' ''unable to allocate RAX for return''] else []))"

definition return_effects :: "extern \<Rightarrow> emitterCtx \<Rightarrow> ast \<Rightarrow> effect list" where
  "return_effects X ctx rn = fst (return_lowering X ctx rn)"

definition return_reports :: "extern \<Rightarrow> emitterCtx \<Rightarrow> ast \<Rightarrow> debugEvent list" where
  "return_reports X ctx rn = snd (return_lowering X ctx rn)"

definition opsSince :: "emitterCtx \<Rightarrow> emitterCtx \<Rightarrow> effect list" where
  "opsSince ctx ctx' = drop (length (ops ctx)) (ops ctx')"

definition jumpsTo :: "emitterCtx \<Rightarrow> emitterCtx \<Rightarrow> irBlock \<Rightarrow> bool" where
  "jumpsTo ctx ctx' target \<longleftrightarrow> (\<exists>b. IrJump b target \<in> set (opsSince ctx ctx'))"

definition jumpKind :: "bool \<Rightarrow> astTag \<Rightarrow> (emitterCtx \<Rightarrow> irBlock) \<Rightarrow> bool" where
  "jumpKind inner t target \<longleftrightarrow>
     (inner \<and> t = astReturn \<and> target = returnTo) \<or>
     (\<not> inner \<and> t = astBreak \<and> target = breakTo) \<or>
     (\<not> inner \<and> t = astContinue \<and> target = continueTo)"

function lineNested :: "bool \<Rightarrow> ast \<Rightarrow> bool"
  and codeNested :: "bool \<Rightarrow> ast option \<Rightarrow> bool" where
  "lineNested inLoop Node =
     (if ast_tag Node = astBreak \<or> ast_tag Node = astContinue then inLoop
      else if ast_tag Node = astBranch then
        codeNested inLoop (ast_l Node) \<and> codeNested inLoop (ast_r Node)
      else if ast_tag Node = astLoop then codeNested True (loop_code Node)
      else if ast_tag Node = astIter then codeNested True (ast_l Node)
      else if ast_tag Node = astCode then codeNested inLoop (Some Node)
      else True)"
| "codeNested inLoop None = True"
| "codeNested inLoop (Some Node) = list_all (lineNested inLoop) (ast_children Node)"
  by pat_completeness auto

termination lineNested
  by (relation "measure (\<lambda>x. case x of
        Inl (inLoop, Node) \<Rightarrow> 2 * size Node + 2
      | Inr (inLoop, None) \<Rightarrow> 0
      | Inr (inLoop, Some Node) \<Rightarrow> 2 * size Node + 1)")
    (auto dest: size_ast_l size_ast_r size_loop_code size_ast_child split: option.splits)

definition isNullJump :: "effect \<Rightarrow> bool" where
  "isNullJump e = (case e of IrJump b t \<Rightarrow> t = 0 | _ \<Rightarrow> False)"

definition noNullJump :: "effect list \<Rightarrow> bool" where
  "noNullJump es = list_all (\<lambda>e. \<not> isNullJump e) es"

definition targetsOK :: "bool \<Rightarrow> emitterCtx \<Rightarrow> bool" where
  "targetsOK inLoop ctx \<longleftrightarrow>
     returnTo ctx \<noteq> 0 \<and> (if inLoop then breakTo ctx \<noteq> 0 \<and> continueTo ctx \<noteq> 0 else True)"

text \<open>
  \<open>localsSize\<close> adds up the type sizes of the \<^emph>\<open>id\<close> symbols of a scope, those of nested
  scopes included; \<open>paramStart\<close> is the offset of the first parameter and
  \<open>leadingParams\<close> are the children of a function symbol up to the first one that is
  not a parameter.
\<close>

fun localsSize :: "extern \<Rightarrow> architecture \<Rightarrow> sym \<Rightarrow> int32"
  and localsSize_list :: "extern \<Rightarrow> architecture \<Rightarrow> sym list \<Rightarrow> int32" where
  "localsSize X a (Sym t d cs off lbl) = localsSize_list X a cs"
| "localsSize_list X a [] = 0"
| "localsSize_list X a (Symbol # rest) =
     (if sym_tag Symbol = symScope then localsSize X a Symbol
      else if sym_tag Symbol = symId then typeGetSize X a (sym_dt Symbol)
      else 0) + localsSize_list X a rest"

definition paramStart :: "extern \<Rightarrow> architecture \<Rightarrow> sym \<Rightarrow> int32" where
  "paramStart X a fn =
     2 * wordsize a +
     (if wordsize a <s typeGetSize X a (typeGetReturn X (sym_dt fn)) then wordsize a else 0)"

definition leadingParams :: "sym list \<Rightarrow> sym list" where
  "leadingParams cs = takeWhile (\<lambda>s. sym_tag s = symParam) cs"

definition paramSizes :: "extern \<Rightarrow> architecture \<Rightarrow> sym list \<Rightarrow> int32" where
  "paramSizes X a ps = sum_list (map (\<lambda>s. typeGetSize X a (sym_dt s)) ps)"

text \<open>
  \<open>scopeAssigned\<close> is a scope after the walk that starts at a given offset, and
  \<open>scopeReports\<close> the symbols reported during the walk.
\<close>

fun scopeAssigned :: "extern \<Rightarrow> architecture \<Rightarrow> sym \<Rightarrow> int32 \<Rightarrow> sym"
  and scopeAssigned_list :: "extern \<Rightarrow> architecture \<Rightarrow> sym list \<Rightarrow> int32 \<Rightarrow> sym list" where
  "scopeAssigned X a (Sym t d cs off lbl) offset = Sym t d (scopeAssigned_list X a cs offset) off lbl"
| "scopeAssigned_list X a [] offset = []"
| "scopeAssigned_list X a (Symbol # rest) offset =
     (if sym_tag Symbol = symScope then
        scopeAssigned X a Symbol offset #
        scopeAssigned_list X a rest (offset - localsSize X a Symbol)
      else if sym_tag Symbol = symId then
        sym_set_offset Symbol (offset - typeGetSize X a (sym_dt Symbol)) #
        scopeAssigned_list X a rest (offset - typeGetSize X a (sym_dt Symbol))
      else Symbol # scopeAssigned_list X a rest offset)"

fun scopeReports :: "extern \<Rightarrow> architecture \<Rightarrow> sym \<Rightarrow> int32 \<Rightarrow> debugEvent list"
  and scopeReports_list :: "extern \<Rightarrow> architecture \<Rightarrow> sym list \<Rightarrow> int32 \<Rightarrow> debugEvent list" where
  "scopeReports X a (Sym t d cs off lbl) offset = scopeReports_list X a cs offset"
| "scopeReports_list X a [] offset = []"
| "scopeReports_list X a (Symbol # rest) offset =
     (if sym_tag Symbol = symScope then
        scopeReports X a Symbol offset @
        scopeReports_list X a rest (offset - localsSize X a Symbol)
      else if sym_tag Symbol = symId then
        ReportSymbol (sym_set_offset Symbol (offset - typeGetSize X a (sym_dt Symbol))) #
        scopeReports_list X a rest (offset - typeGetSize X a (sym_dt Symbol))
      else scopeReports_list X a rest offset)"

text \<open>
  With type sizes that are not negative and a frame that fits the 32-bit offset, the
  subtraction never wraps: \<open>localsSizeInt\<close> is the sum of the sizes as integers,
  \<open>sizesNonneg\<close> says that no \<^emph>\<open>id\<close> symbol has a negative size, and \<open>idOffsets\<close> lists
  the offsets of the \<^emph>\<open>id\<close> symbols of a scope, nested scopes included.
\<close>

fun localsSizeInt :: "extern \<Rightarrow> architecture \<Rightarrow> sym \<Rightarrow> int"
  and localsSizeInt_list :: "extern \<Rightarrow> architecture \<Rightarrow> sym list \<Rightarrow> int" where
  "localsSizeInt X a (Sym t d cs off lbl) = localsSizeInt_list X a cs"
| "localsSizeInt_list X a [] = 0"
| "localsSizeInt_list X a (Symbol # rest) =
     (if sym_tag Symbol = symScope then localsSizeInt X a Symbol
      else if sym_tag Symbol = symId then sint (typeGetSize X a (sym_dt Symbol))
      else 0) + localsSizeInt_list X a rest"

fun sizesNonneg :: "extern \<Rightarrow> architecture \<Rightarrow> sym \<Rightarrow> bool"
  and sizesNonneg_list :: "extern \<Rightarrow> architecture \<Rightarrow> sym list \<Rightarrow> bool" where
  "sizesNonneg X a (Sym t d cs off lbl) = sizesNonneg_list X a cs"
| "sizesNonneg_list X a [] = True"
| "sizesNonneg_list X a (Symbol # rest) =
     ((if sym_tag Symbol = symScope then sizesNonneg X a Symbol
       else if sym_tag Symbol = symId then 0 \<le>s typeGetSize X a (sym_dt Symbol)
       else True) \<and> sizesNonneg_list X a rest)"

fun idOffsets :: "sym \<Rightarrow> int32 list"
  and idOffsets_list :: "sym list \<Rightarrow> int32 list" where
  "idOffsets (Sym t d cs off lbl) = idOffsets_list cs"
| "idOffsets_list [] = []"
| "idOffsets_list (Symbol # rest) =
     (if sym_tag Symbol = symScope then idOffsets Symbol
      else if sym_tag Symbol = symId then [sym_offset Symbol]
      else []) @ idOffsets_list rest"

definition fn_labelled :: "extern \<Rightarrow> sym \<Rightarrow> sym" where
  "fn_labelled X fn0 =
     (if sym_label fn0 = None then sym_set_label fn0 (Some (symbolMangler X fn0)) else fn0)"

text \<open>
  \<open>codeCalls X inner ctx block Node\<close> lists the calls of the statement lowerer that are
  made while \<open>emitterCode\<close> lowers \<open>Node\<close> from \<open>ctx\<close> and \<open>block\<close>, in the order in
  which they are made, each with the context, the block and the statement it is called
  with: \<open>emitterCode\<close> calls \<open>emitterLine\<close> on each child with the context and block
  the previous child has left; \<open>emitterLine\<close> enters the debug sink and calls the
  lowerer of the statement, which calls \<open>emitterCode\<close> on a nested code block, on the
  two arms of a branch, and, followed only with \<open>inner\<close>, on the body of a loop or an
  iter. The list ends where a lowerer stops.
\<close>

function lineCalls :: "extern \<Rightarrow> bool \<Rightarrow> emitterCtx \<Rightarrow> irBlock \<Rightarrow> ast
      \<Rightarrow> (emitterCtx \<times> irBlock \<times> ast) list"
  and codeCalls :: "extern \<Rightarrow> bool \<Rightarrow> emitterCtx \<Rightarrow> irBlock \<Rightarrow> ast option
      \<Rightarrow> (emitterCtx \<times> irBlock \<times> ast) list"
  and codeCalls_loop :: "extern \<Rightarrow> bool \<Rightarrow> emitterCtx \<Rightarrow> irBlock \<Rightarrow> ast list
      \<Rightarrow> (emitterCtx \<times> irBlock \<times> ast) list" where
  "lineCalls X inner ctx0 block Node =
     (ctx0, block, Node) #
     (let ctx = debugEnter ctx0 (astTagGetStr X (ast_tag Node)) in
      if ast_tag Node = astBranch then
        codeCalls X inner (branch_entry X ctx block Node) (Suc (Suc (blocks ctx))) (ast_l Node) @
        (case emitterCode X (branch_entry X ctx block Node) (Suc (Suc (blocks ctx))) (ast_l Node)
                (Suc (blocks ctx)) of
           Inl e \<Rightarrow> []
         | Inr ctx5 \<Rightarrow> codeCalls X inner ctx5 (Suc (Suc (Suc (blocks ctx)))) (ast_r Node))
      else if ast_tag Node = astCode then
        codeCalls X inner (snd (irBlockCreate ctx)) block (Some Node)
      else if inner \<and> ast_tag Node = astLoop then
        (if ast_l Node = None then []
         else codeCalls X inner
                ((loop_entry X ctx block Node)\<lparr>breakTo := Suc (blocks ctx),
                                                continueTo := Suc (Suc (Suc (blocks ctx)))\<rparr>)
                (Suc (Suc (blocks ctx))) (loop_code Node))
      else if inner \<and> ast_tag Node = astIter then
        (case ast_children Node of
           init # cond # after \<Rightarrow>
             codeCalls X inner
               ((iter_entry X ctx block init cond)\<lparr>breakTo := Suc (blocks ctx),
                                                     continueTo := Suc (Suc (Suc (blocks ctx)))\<rparr>)
               (Suc (Suc (blocks ctx))) (ast_l Node)
         | _ \<Rightarrow> [])
      else [])"
| "codeCalls X inner ctx block None = []"
| "codeCalls X inner ctx block (Some Node) = codeCalls_loop X inner ctx block (ast_children Node)"
| "codeCalls_loop X inner ctx block [] = []"
| "codeCalls_loop X inner ctx block (Current # rest) =
     lineCalls X inner ctx block Current @
     (case emitterLine X ctx block Current of
        Inl e \<Rightarrow> []
      | Inr (block', ctx') \<Rightarrow> codeCalls_loop X inner ctx' block' rest)"
  by pat_completeness auto

termination lineCalls
proof (relation "measure (\<lambda>x. case x of
        Inl (X, inner, ctx, block, Node) \<Rightarrow> 3 * size Node + 2
      | Inr (Inl (X, inner, ctx, block, None)) \<Rightarrow> 0
      | Inr (Inl (X, inner, ctx, block, Some Node)) \<Rightarrow> 3 * size Node + 1
      | Inr (Inr (X, inner, ctx, block, cs)) \<Rightarrow> 3 * size_list size cs)", goal_cases)
  case (7 X inner ctx block Node)
  have "size_list size (ast_children Node) < size Node" by (rule size_ast_children)
  then show ?case by simp
qed (auto dest: size_ast_l size_ast_r size_loop_code split: option.splits)

definition callOK ::
  "extern \<Rightarrow> bool \<Rightarrow> emitterCtx \<Rightarrow> emitterCtx \<Rightarrow> emitterCtx \<times> irBlock \<times> ast \<Rightarrow> bool" where
  "callOK X inner ctx ctx' q \<longleftrightarrow>
     returnTo (fst q) = returnTo ctx \<and>
     (\<not> inner \<longrightarrow> breakTo (fst q) = breakTo ctx \<and> continueTo (fst q) = continueTo ctx) \<and>
     prefix (ops ctx) (ops (fst q)) \<and>
     (\<exists>k2 c2. emitterLine X (fst q) (fst (snd q)) (snd (snd q)) = Inr (k2, c2) \<and>
              prefix (ops c2) (ops ctx'))"

definition callsOK ::
  "extern \<Rightarrow> bool \<Rightarrow> emitterCtx \<Rightarrow> emitterCtx \<Rightarrow> (emitterCtx \<times> irBlock \<times> ast) list \<Rightarrow> bool" where
  "callsOK X inner ctx ctx' qs \<longleftrightarrow> (\<forall>q \<in> set qs. callOK X inner ctx ctx' q)"

definition targets_after :: "emitterCtx \<Rightarrow> emitterCtx \<Rightarrow> bool" where
  "targets_after ctx ctx' \<longleftrightarrow>
     breakTo ctx' = breakTo ctx \<and> continueTo ctx' = continueTo ctx \<and>
     (returnTo ctx' = returnTo ctx \<or> returnTo ctx' \<noteq> 0)"

section \<open>Example inputs\<close>

text \<open>
  A concrete architecture (word size 8) and concrete collaborators: the size of the
  type with handle \<open>t\<close> is \<open>t\<close>, a function type \<open>t\<close> returns the type \<open>t div 1000\<close>,
  the tags \<open>astOtherTag n\<close> with \<open>n < 100\<close> are the value tags, no lowerer splits a
  block, values live in a register that is not the return register, and every
  register request is granted.
\<close>

definition ex_arch :: architecture where
  "ex_arch = \<lparr>wordsize = 8\<rparr>"

fun ex_tagStr :: "astTag \<Rightarrow> string" where
  "ex_tagStr astModule = ''Module''"
| "ex_tagStr astUsing = ''Using''"
| "ex_tagStr astFnImpl = ''FnImpl''"
| "ex_tagStr astDecl = ''Decl''"
| "ex_tagStr astEmpty = ''Empty''"
| "ex_tagStr astCode = ''Code''"
| "ex_tagStr astBranch = ''Branch''"
| "ex_tagStr astLoop = ''Loop''"
| "ex_tagStr astIter = ''Iter''"
| "ex_tagStr astReturn = ''Return''"
| "ex_tagStr astBreak = ''Break''"
| "ex_tagStr astContinue = ''Continue''"
| "ex_tagStr (astOtherTag n) = (if n < 100 then ''Value'' else ''Invalid'')"

definition ex_isValueTag :: "astTag \<Rightarrow> bool" where
  "ex_isValueTag t = (case t of astOtherTag n \<Rightarrow> n < 100 | _ \<Rightarrow> False)"

definition ex_block :: "irBlock option \<Rightarrow> irBlock" where
  "ex_block b = (case b of None \<Rightarrow> 0 | Some x \<Rightarrow> x)"

definition ex_extern :: extern where
  "ex_extern =
     \<lparr>typeGetSize = (\<lambda>a t. of_nat t),
      typeGetReturn = (\<lambda>t. t div 1000),
      symbolMangler = (\<lambda>s. ''_f''),
      astIsValueTag = ex_isValueTag,
      astTagGetStr = ex_tagStr,
      declLowering = (\<lambda>ctx b n. (0, ex_block b)),
      valueLowering = (\<lambda>ctx b n r. (0, ex_block b, OperandReg (Some (regOtherIndex 1)))),
      branchLowering = (\<lambda>ctx b n t f. 0),
      regAllocated = (\<lambda>ctx sz. Some (regOtherIndex 2)),
      regRequested = (\<lambda>ctx r sz. True)\<rparr>"

text \<open>The same collaborators with a register allocator that refuses every request.\<close>

definition ex_extern_busy :: extern where
  "ex_extern_busy = ex_extern\<lparr>regRequested := (\<lambda>ctx r sz. False)\<rparr>"

text \<open>
  A context in the middle of a function body: ten blocks exist, the function's
  epilogue is block 2, and an enclosing loop has set \<open>breakTo\<close> and \<open>continueTo\<close>.
\<close>

definition ex_ctx :: emitterCtx where
  "ex_ctx = \<lparr>arch = ex_arch, returnTo = 2, breakTo = 7, continueTo = 9,
             blocks = 10, ops = [], debug = []\<rparr>"

text \<open>
  Nodes: an expression of type 4, \<^verbatim>\<open>break;\<close>, \<^verbatim>\<open>continue;\<close>, the body
  \<^verbatim>\<open>{ break; }\<close>, \<^verbatim>\<open>while (e) { break; }\<close>, \<^verbatim>\<open>do { break; } while (e);\<close> and
  \<^verbatim>\<open>for (e; e; e) { break; }\<close>.
\<close>

definition ex_value :: ast where
  "ex_value = Ast (astOtherTag 1) [] None None None 4"

definition ex_break :: ast where
  "ex_break = Ast astBreak [] None None None 0"

definition ex_continue :: ast where
  "ex_continue = Ast astContinue [] None None None 0"

definition ex_body :: ast where
  "ex_body = Ast astCode [ex_break] None None None 0"

definition ex_while :: ast where
  "ex_while = Ast astLoop [] (Some ex_value) (Some ex_body) None 0"

definition ex_dowhile :: ast where
  "ex_dowhile = Ast astLoop [] (Some ex_body) (Some ex_value) None 0"

definition ex_for :: ast where
  "ex_for = Ast astIter [ex_value, ex_value, ex_value] (Some ex_body) None None 0"

text \<open>
  \<^verbatim>\<open>return e;\<close>, \<^verbatim>\<open>return;\<close>, the body \<^verbatim>\<open>{ break; continue; }\<close> and a
  \<^verbatim>\<open>while\<close> and a \<^verbatim>\<open>for\<close> around it.
\<close>

definition ex_return :: ast where
  "ex_return = Ast astReturn [] None (Some ex_value) None 0"

definition ex_return_void :: ast where
  "ex_return_void = Ast astReturn [] None None None 0"

definition ex_body2 :: ast where
  "ex_body2 = Ast astCode [ex_break, ex_continue] None None None 0"

definition ex_while2 :: ast where
  "ex_while2 = Ast astLoop [] (Some ex_value) (Some ex_body2) None 0"

definition ex_for2 :: ast where
  "ex_for2 = Ast astIter [ex_value, ex_value, ex_value] (Some ex_body2) None None 0"

text \<open>What the loop and the iter lowerer leave behind on these inputs.\<close>

definition ex_while_out :: emitterCtx where
  "ex_while_out =
     \<lparr>arch = ex_arch, returnTo = 2, breakTo = 7, continueTo = 9, blocks = 14,
      ops = [EmitterBranchOnValue 1 (Some ex_value) 12 11, IrJump 12 11, IrJump 14 13,
             EmitterBranchOnValue 13 (Some ex_value) 12 11],
      debug = [DebugEnter ''Break'', DebugLeave]\<rparr>"

definition ex_for_out :: emitterCtx where
  "ex_for_out =
     \<lparr>arch = ex_arch, returnTo = 2, breakTo = 7, continueTo = 9, blocks = 14,
      ops = [EmitterValue (Some 1) (Some ex_value) requestVoid,
             EmitterBranchOnValue 1 (Some ex_value) 12 11, IrJump 12 11, IrJump 14 13,
             EmitterValue (Some 13) (Some ex_value) requestVoid,
             EmitterBranchOnValue 13 (Some ex_value) 12 11],
      debug = [DebugEnter ''Break'', DebugLeave]\<rparr>"

definition ex_break_out :: emitterCtx where
  "ex_break_out = ex_ctx\<lparr>blocks := 11, ops := [IrJump 1 7],
                         debug := [DebugEnter ''Break'', DebugLeave]\<rparr>"

definition ex_continue_out :: emitterCtx where
  "ex_continue_out = ex_ctx\<lparr>blocks := 11, ops := [IrJump 1 9],
                            debug := [DebugEnter ''Continue'', DebugLeave]\<rparr>"

definition ex_return_out :: emitterCtx where
  "ex_return_out =
     ex_ctx\<lparr>blocks := 11,
            ops := [EmitterValue None (Some ex_value) requestValue, RegRequest regRAX 4,
                    AsmMove (OperandReg (Some regRAX)) (OperandReg (Some (regOtherIndex 1))),
                    RegFree (Some regRAX), OperandFree (OperandReg (Some (regOtherIndex 1))),
                    IrJump 1 2],
            debug := [DebugEnter ''Return'', DebugLeave]\<rparr>"

definition ex_while2_out :: emitterCtx where
  "ex_while2_out =
     ex_ctx\<lparr>blocks := 15,
            ops := [EmitterBranchOnValue 1 (Some ex_value) 12 11, IrJump 12 11, IrJump 14 13,
                    IrJump 15 13, EmitterBranchOnValue 13 (Some ex_value) 12 11],
            debug := [DebugEnter ''Break'', DebugLeave, DebugEnter ''Continue'', DebugLeave]\<rparr>"

definition ex_for2_out :: emitterCtx where
  "ex_for2_out =
     ex_ctx\<lparr>blocks := 15,
            ops := [EmitterValue (Some 1) (Some ex_value) requestVoid,
                    EmitterBranchOnValue 1 (Some ex_value) 12 11, IrJump 12 11, IrJump 14 13,
                    IrJump 15 13, EmitterValue (Some 13) (Some ex_value) requestVoid,
                    EmitterBranchOnValue 13 (Some ex_value) 12 11],
            debug := [DebugEnter ''Break'', DebugLeave, DebugEnter ''Continue'', DebugLeave]\<rparr>"

definition ex_locals :: sym where
  "ex_locals =
     Sym symScope 0
       [Sym symId 4 [] 0 None,
        Sym symScope 0 [Sym symId 8 [] 0 None] 0 None,
        Sym symScope 0 [Sym symId 16 [] 0 None] 0 None,
        Sym (symOtherTag 7) 4 [] 0 None,
        Sym symId 2 [] 0 None] 0 None"

definition ex_fn_sym :: sym where
  "ex_fn_sym =
     Sym (symOtherTag 0) 16000
       [Sym symParam 4 [] 0 None, Sym symParam 8 [] 0 None, ex_locals,
        Sym symParam 4 [] 0 None] 0 None"

definition ex_fn_body :: ast where
  "ex_fn_body = Ast astCode [ex_return] None None None 0"

definition ex_fn :: ast where
  "ex_fn = Ast astFnImpl [] None (Some ex_fn_body) (Some ex_fn_sym) 0"

text \<open>The function symbol and the context after the function lowerer has run on \<open>ex_fn\<close>.\<close>

definition ex_fn_sym_out :: sym where
  "ex_fn_sym_out =
     Sym (symOtherTag 0) 16000
       [Sym symParam 4 [] 24 None, Sym symParam 8 [] 28 None,
        Sym symScope 0
          [Sym symId 4 [] (- 4) None,
           Sym symScope 0 [Sym symId 8 [] (- 12) None] 0 None,
           Sym symScope 0 [Sym symId 16 [] (- 28) None] 0 None,
           Sym (symOtherTag 7) 4 [] 0 None,
           Sym symId 2 [] (- 30) None] 0 None,
        Sym symParam 4 [] 0 None] 0 (Some ''_f'')"

definition ex_fn_out :: emitterCtx where
  "ex_fn_out =
     \<lparr>arch = ex_arch, returnTo = 2, breakTo = 0, continueTo = 0, blocks = 3,
      ops = [IrInit ''out.s'', IrFnPrologue 1 (Some ''_f'') 30,
             EmitterValue None (Some ex_value) requestValue, RegRequest regRAX 4,
             AsmMove (OperandReg (Some regRAX)) (OperandReg (Some (regOtherIndex 1))),
             RegFree (Some regRAX), OperandFree (OperandReg (Some (regOtherIndex 1))),
             IrJump 1 2, IrJump 3 2, IrFnEpilogue 2],
      debug = [DebugEnter ''FnImpl'', ReportSymbol (Sym symParam 4 [] 24 None),
               ReportSymbol (Sym symParam 8 [] 28 None),
               ReportSymbol (Sym symId 4 [] (- 4) None),
               ReportSymbol (Sym symId 8 [] (- 12) None),
               ReportSymbol (Sym symId 16 [] (- 28) None),
               ReportSymbol (Sym symId 2 [] (- 30) None),
               DebugEnter ''Return'', DebugLeave, DebugLeave]\<rparr>"

definition ex_fn_bad :: ast where
  "ex_fn_bad = Ast astFnImpl [] None (Some ex_body2) (Some ex_fn_sym) 0"

definition ex_fn_loop :: ast where
  "ex_fn_loop =
     Ast astFnImpl [] None (Some (Ast astCode [ex_while2] None None None 0)) (Some ex_fn_sym) 0"

definition ex_fn_bad_out :: emitterCtx where
  "ex_fn_bad_out =
     ex_fn_out\<lparr>blocks := 4,
                ops := [IrInit ''out.s'', IrFnPrologue 1 (Some ''_f'') 30, IrJump 1 0,
                        IrJump 3 0, IrJump 4 2, IrFnEpilogue 2],
                debug := take 7 (debug ex_fn_out) @
                         [DebugEnter ''Break'', DebugLeave, DebugEnter ''Continue'',
                          DebugLeave, DebugLeave]\<rparr>"

definition ex_fn_loop_out :: emitterCtx where
  "ex_fn_loop_out =
     ex_fn_out\<lparr>blocks := 7,
                ops := [IrInit ''out.s'', IrFnPrologue 1 (Some ''_f'') 30,
                        EmitterBranchOnValue 1 (Some ex_value) 4 3,
                        IrJump 4 3, IrJump 6 5, IrJump 7 5,
                        EmitterBranchOnValue 5 (Some ex_value) 4 3,
                        IrJump 3 2, IrFnEpilogue 2],
                debug := take 7 (debug ex_fn_out) @
                         [DebugEnter ''Loop'', DebugEnter ''Break'', DebugLeave,
                          DebugEnter ''Continue'', DebugLeave, DebugLeave, DebugLeave]\<rparr>"

definition ex_dowhile_out :: emitterCtx where
  "ex_dowhile_out =
     ex_ctx\<lparr>blocks := 14,
            ops := [IrJump 1 12, IrJump 12 11, IrJump 14 13,
                    EmitterBranchOnValue 13 (Some ex_value) 12 11],
            debug := [DebugEnter ''Break'', DebugLeave]\<rparr>"

definition ex_loop_null :: ast where
  "ex_loop_null = Ast astLoop [] None None None 0"

definition ex_while_body_out :: emitterCtx where
  "ex_while_body_out =
     ex_ctx\<lparr>breakTo := 11, continueTo := 13, blocks := 14,
            ops := [EmitterBranchOnValue 1 (Some ex_value) 12 11, IrJump 12 11, IrJump 14 13],
            debug := [DebugEnter ''Break'', DebugLeave]\<rparr>"





definition ex_unhandled :: ast where
  "ex_unhandled = Ast (astOtherTag 100) [] None None None 0"

definition ex_unhandled_out :: emitterCtx where
  "ex_unhandled_out =
     ex_ctx\<lparr>debug := [DebugEnter ''Invalid'',
                       DebugErrorUnhandled ''emitterLine'' ''AST tag'' ''Invalid'', DebugLeave]\<rparr>"

definition ex_module_out :: emitterCtx where
  "ex_module_out =
     ex_ctx\<lparr>debug := [DebugErrorUnhandled ''emitterModule'' ''AST tag'' ''Invalid'',
                       DebugMsg ''Empty'']\<rparr>"

definition ex_extern_rax :: extern where
  "ex_extern_rax =
     ex_extern\<lparr>valueLowering := (\<lambda>ctx b n r. (0, ex_block b, OperandReg (Some regRAX))),
               regRequested := (\<lambda>ctx r sz. False)\<rparr>"

definition ex_value_big :: ast where
  "ex_value_big = Ast (astOtherTag 1) [] None None None 16"

definition ex_return_big :: ast where
  "ex_return_big = Ast astReturn [] None (Some ex_value_big) None 0"

definition ex_locals_out :: sym where
  "ex_locals_out =
     Sym symScope 0
       [Sym symId 4 [] (- 4) None,
        Sym symScope 0 [Sym symId 8 [] (- 12) None] 0 None,
        Sym symScope 0 [Sym symId 16 [] (- 28) None] 0 None,
        Sym (symOtherTag 7) 4 [] 0 None,
        Sym symId 2 [] (- 30) None] 0 None"

definition ex_while2_at_break :: emitterCtx where
  "ex_while2_at_break =
     ex_ctx\<lparr>breakTo := 11, continueTo := 13, blocks := 13,
            ops := [EmitterBranchOnValue 1 (Some ex_value) 12 11]\<rparr>"

definition ex_while2_at_continue :: emitterCtx where
  "ex_while2_at_continue =
     ex_ctx\<lparr>breakTo := 11, continueTo := 13, blocks := 14,
            ops := [EmitterBranchOnValue 1 (Some ex_value) 12 11, IrJump 12 11],
            debug := [DebugEnter ''Break'', DebugLeave]\<rparr>"

definition ex_for2_at_break :: emitterCtx where
  "ex_for2_at_break =
     ex_ctx\<lparr>breakTo := 11, continueTo := 13, blocks := 13,
            ops := [EmitterValue (Some 1) (Some ex_value) requestVoid,
                    EmitterBranchOnValue 1 (Some ex_value) 12 11]\<rparr>"

definition ex_for2_at_continue :: emitterCtx where
  "ex_for2_at_continue =
     ex_ctx\<lparr>breakTo := 11, continueTo := 13, blocks := 14,
            ops := [EmitterValue (Some 1) (Some ex_value) requestVoid,
                    EmitterBranchOnValue 1 (Some ex_value) 12 11, IrJump 12 11],
            debug := [DebugEnter ''Break'', DebugLeave]\<rparr>"




section \<open>Properties of the statement lowerers\<close>

declare emitterCode.simps [simp del] emitterCode_loop.simps [simp del] emitterLine.simps [simp del]
  emitterBranch.simps [simp del] emitterLoop.simps [simp del] emitterIter.simps [simp del]

lemma ctx_extends_refl: "ctx_extends ctx ctx"
  by (simp add: ctx_extends_def ctx_grows_def targets_kept_def)

lemma ctx_extends_trans: "ctx_extends a b \<Longrightarrow> ctx_extends b c \<Longrightarrow> ctx_extends a c"
  by (auto simp: ctx_extends_def ctx_grows_def targets_kept_def)

lemma ctx_extends_debugEnter: "ctx_extends ctx (debugEnter ctx s)"
  by (simp add: ctx_extends_def ctx_grows_def targets_kept_def debugEnter_def)

lemma ctx_extends_debugLeave: "ctx_extends ctx (debugLeave ctx)"
  by (simp add: ctx_extends_def ctx_grows_def targets_kept_def debugLeave_def)

lemma ctx_extends_irJump: "ctx_extends ctx (irJump ctx b t)"
  by (simp add: ctx_extends_def ctx_grows_def targets_kept_def irJump_def)

lemma ctx_extends_irBlockCreate: "ctx_extends ctx (snd (irBlockCreate ctx))"
  by (simp add: ctx_extends_def ctx_grows_def targets_kept_def irBlockCreate_def)

lemma ctx_extends_emitterBranchOnValue: "ctx_extends ctx (emitterBranchOnValue X ctx b c t f)"
  by (simp add: ctx_extends_def ctx_grows_def targets_kept_def emitterBranchOnValue_def)

lemma ctx_extends_emitterValue: "ctx_extends ctx (snd (snd (emitterValue X ctx b n r)))"
  by (simp add: ctx_extends_def ctx_grows_def targets_kept_def emitterValue_def case_prod_beta)

lemma ctx_extends_emitterDecl: "ctx_extends ctx (snd (emitterDecl X ctx b n))"
  by (simp add: ctx_extends_def ctx_grows_def targets_kept_def emitterDecl_def case_prod_beta)

lemma ctx_extends_emitterReturn: "ctx_extends ctx (emitterReturn X ctx b n)"
  by (simp add: ctx_extends_def ctx_grows_def targets_kept_def emitterReturn_def emitterValue_def
      regAlloc_def regRequest_def asmMove_def operandFree_def regFree_def debugError_def
      irJump_def Let_def case_prod_beta split: option.split)

lemma ctx_extends_restore:
  assumes "ctx_extends (ctx\<lparr>breakTo := k, continueTo := c\<rparr>) ctx'"
  shows "ctx_extends ctx (ctx'\<lparr>breakTo := breakTo ctx, continueTo := continueTo ctx\<rparr>)"
  using assms by (simp add: ctx_extends_def ctx_grows_def targets_kept_def)

lemma ctx_extends_front:
  "ctx_extends (debugEnter a s) c \<Longrightarrow> ctx_extends a c"
  "ctx_extends (irJump a b t) c \<Longrightarrow> ctx_extends a c"
  "ctx_extends (emitterBranchOnValue X a b n t f) c \<Longrightarrow> ctx_extends a c"
  "ctx_extends (emitterReturn X a b N) c \<Longrightarrow> ctx_extends a c"
  "ctx_extends (snd (irBlockCreate a)) c \<Longrightarrow> ctx_extends a c"
  "ctx_extends (snd (emitterDecl X a bo N)) c \<Longrightarrow> ctx_extends a c"
  "ctx_extends (snd (snd (emitterValue X a bo no r))) c \<Longrightarrow> ctx_extends a c"
  by (erule ctx_extends_trans [rotated], 
      rule ctx_extends_debugEnter ctx_extends_irJump ctx_extends_emitterBranchOnValue
        ctx_extends_emitterReturn ctx_extends_irBlockCreate ctx_extends_emitterDecl
        ctx_extends_emitterValue)+

lemma ctx_extends_back:
  "ctx_extends a c \<Longrightarrow> ctx_extends a (debugLeave c)"
  "ctx_extends a c \<Longrightarrow> ctx_extends a (irJump c b t)"
  "ctx_extends a c \<Longrightarrow> ctx_extends a (emitterBranchOnValue X c b n t f)"
  "ctx_extends a c \<Longrightarrow> ctx_extends a (emitterReturn X c b N)"
  "ctx_extends a c \<Longrightarrow> ctx_extends a (snd (irBlockCreate c))"
  "ctx_extends a c \<Longrightarrow> ctx_extends a (snd (emitterDecl X c bo N))"
  "ctx_extends a c \<Longrightarrow> ctx_extends a (snd (snd (emitterValue X c bo no r)))"
  by (erule ctx_extends_trans,
      rule ctx_extends_debugLeave ctx_extends_irJump ctx_extends_emitterBranchOnValue
        ctx_extends_emitterReturn ctx_extends_irBlockCreate ctx_extends_emitterDecl
        ctx_extends_emitterValue)+

lemma emitterLine_Branch:
  "ast_tag Node = astBranch \<Longrightarrow> emitterLine X ctx block Node =
     (case emitterBranch X (debugEnter ctx (astTagGetStr X (ast_tag Node))) block Node of
        Inl e \<Rightarrow> Inl e | Inr (k, ctx') \<Rightarrow> Inr (k, debugLeave ctx'))"
  by (simp add: emitterLine.simps)

lemma emitterLine_Loop:
  "ast_tag Node = astLoop \<Longrightarrow> emitterLine X ctx block Node =
     (case emitterLoop X (debugEnter ctx (astTagGetStr X (ast_tag Node))) block Node of
        Inl e \<Rightarrow> Inl e | Inr (k, ctx') \<Rightarrow> Inr (k, debugLeave ctx'))"
  by (simp add: emitterLine.simps)

lemma emitterLine_Iter:
  "ast_tag Node = astIter \<Longrightarrow> emitterLine X ctx block Node =
     (case emitterIter X (debugEnter ctx (astTagGetStr X (ast_tag Node))) block Node of
        Inl e \<Rightarrow> Inl e | Inr (k, ctx') \<Rightarrow> Inr (k, debugLeave ctx'))"
  by (simp add: emitterLine.simps)

lemma emitterLine_Code:
  "ast_tag Node = astCode \<Longrightarrow> emitterLine X ctx block Node =
     (let c = debugEnter ctx (astTagGetStr X (ast_tag Node)) in
      case emitterCode X (snd (irBlockCreate c)) block (Some Node) (fst (irBlockCreate c)) of
        Inl e \<Rightarrow> Inl e | Inr ctx' \<Rightarrow> Inr (fst (irBlockCreate c), debugLeave ctx'))"
  by (simp add: emitterLine.simps Let_def case_prod_beta)

lemma emitterLine_Return:
  "ast_tag Node = astReturn \<Longrightarrow> emitterLine X ctx block Node =
     (let c = emitterReturn X (debugEnter ctx (astTagGetStr X (ast_tag Node))) block Node in
      Inr (fst (irBlockCreate c), debugLeave (snd (irBlockCreate c))))"
  by (simp add: emitterLine.simps Let_def case_prod_beta)

lemma emitterLine_Break:
  "ast_tag Node = astBreak \<Longrightarrow> emitterLine X ctx block Node =
     (let c = irJump (debugEnter ctx (astTagGetStr X (ast_tag Node))) block (breakTo ctx) in
      Inr (fst (irBlockCreate c), debugLeave (snd (irBlockCreate c))))"
  by (simp add: emitterLine.simps Let_def case_prod_beta debugEnter_def)

lemma emitterLine_Continue:
  "ast_tag Node = astContinue \<Longrightarrow> emitterLine X ctx block Node =
     (let c = irJump (debugEnter ctx (astTagGetStr X (ast_tag Node))) block (continueTo ctx) in
      Inr (fst (irBlockCreate c), debugLeave (snd (irBlockCreate c))))"
  by (simp add: emitterLine.simps Let_def case_prod_beta debugEnter_def)

lemma emitterLine_Decl:
  "ast_tag Node = astDecl \<Longrightarrow> emitterLine X ctx block Node =
     (let r = emitterDecl X (debugEnter ctx (astTagGetStr X (ast_tag Node))) (Some block) Node in
      Inr (fst r, debugLeave (snd r)))"
  by (simp add: emitterLine.simps Let_def case_prod_beta)

lemma emitterLine_Value:
  "\<not> statementTag (ast_tag Node) \<Longrightarrow> astIsValueTag X (ast_tag Node) \<Longrightarrow>
   emitterLine X ctx block Node =
     (let r = emitterValue X (debugEnter ctx (astTagGetStr X (ast_tag Node))) (Some block)
                (Some Node) requestVoid in
      Inr (fst (snd r), debugLeave (snd (snd r))))"
  by (simp add: emitterLine.simps Let_def case_prod_beta statementTag_def)

lemma emitterLine_Empty:
  "ast_tag Node = astEmpty \<Longrightarrow> \<not> astIsValueTag X astEmpty \<Longrightarrow>
   emitterLine X ctx block Node =
     Inr (block, debugLeave (debugEnter ctx (astTagGetStr X (ast_tag Node))))"
  by (simp add: emitterLine.simps)

lemma emitterLine_unhandled:
  "\<not> statementTag (ast_tag Node) \<Longrightarrow> \<not> astIsValueTag X (ast_tag Node) \<Longrightarrow>
   ast_tag Node \<noteq> astEmpty \<Longrightarrow>
   emitterLine X ctx block Node =
     Inl (UninitialisedRead,
          debugLeave (debugErrorUnhandled (debugEnter ctx (astTagGetStr X (ast_tag Node)))
            ''emitterLine'' ''AST tag'' (astTagGetStr X (ast_tag Node))))"
  by (simp add: emitterLine.simps statementTag_def)

lemma emitterBranch_unfold:
  "emitterBranch X ctx block Node =
     (case emitterCode X (branch_entry X ctx block Node) (Suc (Suc (blocks ctx))) (ast_l Node)
             (Suc (blocks ctx)) of
        Inl e \<Rightarrow> Inl e
      | Inr ctx5 \<Rightarrow>
         (case emitterCode X ctx5 (Suc (Suc (Suc (blocks ctx)))) (ast_r Node) (Suc (blocks ctx)) of
            Inl e \<Rightarrow> Inl e
          | Inr ctx6 \<Rightarrow> Inr (Suc (blocks ctx), ctx6)))"
  by (simp add: emitterBranch.simps irBlockCreate_def branch_entry_def Let_def
      numeral_2_eq_2 numeral_3_eq_3 cong: sum.case_cong)

lemma emitterLoop_unfold:
  "emitterLoop X ctx block Node =
     (if ast_l Node = None then Inl (NullDereference, ctx\<lparr>blocks := Suc (Suc (Suc (blocks ctx)))\<rparr>)
      else
       (case emitterCode X
               ((loop_entry X ctx block Node)\<lparr>breakTo := Suc (blocks ctx),
                                               continueTo := Suc (Suc (Suc (blocks ctx)))\<rparr>)
               (Suc (Suc (blocks ctx))) (loop_code Node) (Suc (Suc (Suc (blocks ctx)))) of
          Inl e \<Rightarrow> Inl e
        | Inr ctx7 \<Rightarrow> Inr (Suc (blocks ctx), loop_exit X ctx ctx7 Node)))"
  by (simp add: emitterLoop.simps irBlockCreate_def loop_entry_def loop_isDo_def loop_exit_def
      loop_cond_def loop_code_def restoreTargets_def emitterSetBreakTo_def
      emitterSetContinueTo_def Let_def irJump_def emitterBranchOnValue_def
      numeral_2_eq_2 numeral_3_eq_3 split: option.split cong: sum.case_cong)

lemma emitterIter_unfold:
  "emitterIter X ctx block Node =
     (case ast_children Node of
        [] \<Rightarrow> Inl (NullDereference, ctx\<lparr>blocks := Suc (Suc (Suc (blocks ctx)))\<rparr>)
      | [init] \<Rightarrow> Inl (NullDereference, ctx\<lparr>blocks := Suc (Suc (Suc (blocks ctx)))\<rparr>)
      | init # cond # after \<Rightarrow>
         (case emitterCode X
                 ((iter_entry X ctx block init cond)\<lparr>breakTo := Suc (blocks ctx),
                                                       continueTo := Suc (Suc (Suc (blocks ctx)))\<rparr>)
                 (Suc (Suc (blocks ctx))) (ast_l Node) (Suc (Suc (Suc (blocks ctx)))) of
            Inl e \<Rightarrow> Inl e
          | Inr ctx8 \<Rightarrow> Inr (Suc (blocks ctx), iter_exit X ctx ctx8 cond after)))"
  by (simp add: emitterIter.simps irBlockCreate_def iter_entry_def iter_init_def iter_exit_def
      iter_step_def restoreTargets_def emitterSetBreakTo_def
      emitterSetContinueTo_def Let_def case_prod_beta emitterBranchOnValue_def
      emitterDecl_def emitterValue_def numeral_2_eq_2 numeral_3_eq_3
      split: list.split cong: sum.case_cong)

lemma emitter_induct [case_names codeNone codeSome loopNil loopCons line branch loop iter]:
  fixes P1 :: "extern \<Rightarrow> emitterCtx \<Rightarrow> irBlock \<Rightarrow> ast option \<Rightarrow> irBlock \<Rightarrow> bool"
    and P2 :: "extern \<Rightarrow> emitterCtx \<Rightarrow> irBlock \<Rightarrow> ast list \<Rightarrow> bool"
    and P3 P4 P5 P6 :: "extern \<Rightarrow> emitterCtx \<Rightarrow> irBlock \<Rightarrow> ast \<Rightarrow> bool"
  assumes codeNone: "\<And>X ctx block k. P1 X ctx block None k"
    and codeSome: "\<And>X ctx block Node k.
          P2 X ctx block (ast_children Node) \<Longrightarrow> P1 X ctx block (Some Node) k"
    and loopNil: "\<And>X ctx block. P2 X ctx block []"
    and loopCons: "\<And>X ctx block Current rest.
          P3 X ctx block Current \<Longrightarrow>
          (\<And>b c. emitterLine X ctx block Current = Inr (b, c) \<Longrightarrow> P2 X c b rest) \<Longrightarrow>
          P2 X ctx block (Current # rest)"
    and line: "\<And>X ctx block Node.
          (ast_tag Node = astBranch \<Longrightarrow>
             P4 X (debugEnter ctx (astTagGetStr X (ast_tag Node))) block Node) \<Longrightarrow>
          (ast_tag Node = astLoop \<Longrightarrow>
             P5 X (debugEnter ctx (astTagGetStr X (ast_tag Node))) block Node) \<Longrightarrow>
          (ast_tag Node = astIter \<Longrightarrow>
             P6 X (debugEnter ctx (astTagGetStr X (ast_tag Node))) block Node) \<Longrightarrow>
          (ast_tag Node = astCode \<Longrightarrow>
             P1 X (snd (irBlockCreate (debugEnter ctx (astTagGetStr X (ast_tag Node))))) block
               (Some Node) (fst (irBlockCreate (debugEnter ctx (astTagGetStr X (ast_tag Node)))))) \<Longrightarrow>
          P3 X ctx block Node"
    and branch: "\<And>X ctx block Node.
          P1 X (branch_entry X ctx block Node) (Suc (Suc (blocks ctx))) (ast_l Node) (Suc (blocks ctx)) \<Longrightarrow>
          (\<And>ctx5. emitterCode X (branch_entry X ctx block Node) (Suc (Suc (blocks ctx))) (ast_l Node)
                     (Suc (blocks ctx)) = Inr ctx5 \<Longrightarrow>
                  P1 X ctx5 (Suc (Suc (Suc (blocks ctx)))) (ast_r Node) (Suc (blocks ctx))) \<Longrightarrow>
          P4 X ctx block Node"
    and loop: "\<And>X ctx block Node.
          (ast_l Node \<noteq> None \<Longrightarrow>
             P1 X ((loop_entry X ctx block Node)\<lparr>breakTo := Suc (blocks ctx),
                                                  continueTo := Suc (Suc (Suc (blocks ctx)))\<rparr>)
               (Suc (Suc (blocks ctx))) (loop_code Node) (Suc (Suc (Suc (blocks ctx))))) \<Longrightarrow>
          P5 X ctx block Node"
    and iter: "\<And>X ctx block Node.
          (\<And>init cond after. ast_children Node = init # cond # after \<Longrightarrow>
             P1 X ((iter_entry X ctx block init cond)\<lparr>breakTo := Suc (blocks ctx),
                                                        continueTo := Suc (Suc (Suc (blocks ctx)))\<rparr>)
               (Suc (Suc (blocks ctx))) (ast_l Node) (Suc (Suc (Suc (blocks ctx))))) \<Longrightarrow>
          P6 X ctx block Node"
  shows "P1 X1 ctx1 block1 No k" and "P2 X2 ctx2 block2 cs" and "P3 X3 ctx3 block3 N3"
    and "P4 X4 ctx4 block4 N4" and "P5 X5 ctx5 block5 N5" and "P6 X6 ctx6 block6 N6"
proof (induct X1 ctx1 block1 No k and X2 ctx2 block2 cs and X3 ctx3 block3 N3
    and X4 ctx4 block4 N4 and X5 ctx5 block5 N5 and X6 ctx6 block6 N6
    rule: emitterCode_emitterCode_loop_emitterLine_emitterBranch_emitterLoop_emitterIter.induct)
  case (1 X ctx block continuation)
  show ?case by (rule codeNone)
next
  case (2 X ctx block Node continuation)
  then show ?case by (rule codeSome)
next
  case (3 X ctx block)
  show ?case by (rule loopNil)
next
  case (4 X ctx block Current rest)
  show ?case
    by (rule loopCons) (rule 4(1), rule 4(2), assumption, rule refl)
next
  case (5 X ctx0 block Node)
  show ?case
  proof (rule line)
    assume t: "ast_tag Node = astBranch"
    show "P4 X (debugEnter ctx0 (astTagGetStr X (ast_tag Node))) block Node"
      by (rule 5(1) [OF refl t])
  next
    assume t: "ast_tag Node = astLoop"
    then have n: "ast_tag Node \<noteq> astBranch" by simp
    show "P5 X (debugEnter ctx0 (astTagGetStr X (ast_tag Node))) block Node"
      by (rule 5(2) [OF refl n t])
  next
    assume t: "ast_tag Node = astIter"
    then have n: "ast_tag Node \<noteq> astBranch" "ast_tag Node \<noteq> astLoop" by simp_all
    show "P6 X (debugEnter ctx0 (astTagGetStr X (ast_tag Node))) block Node"
      by (rule 5(3) [OF refl n t])
  next
    assume t: "ast_tag Node = astCode"
    then have n: "ast_tag Node \<noteq> astBranch" "ast_tag Node \<noteq> astLoop" "ast_tag Node \<noteq> astIter"
      by simp_all
    show "P1 X (snd (irBlockCreate (debugEnter ctx0 (astTagGetStr X (ast_tag Node))))) block
               (Some Node) (fst (irBlockCreate (debugEnter ctx0 (astTagGetStr X (ast_tag Node)))))"
      by (rule 5(4) [OF refl n t prod.collapse])
  qed
next
  case (6 X ctx0 block Node)
  note c = prod.collapse
  show ?case
  proof (rule branch)
    show "P1 X (branch_entry X ctx0 block Node) (Suc (Suc (blocks ctx0))) (ast_l Node) (Suc (blocks ctx0))"
      using 6(1) [OF refl c refl c refl c refl]
      by (simp add: branch_entry_def irBlockCreate_def numeral_2_eq_2 numeral_3_eq_3)
  next
    fix ctx5
    assume "emitterCode X (branch_entry X ctx0 block Node) (Suc (Suc (blocks ctx0))) (ast_l Node)
              (Suc (blocks ctx0)) = Inr ctx5"
    then show "P1 X ctx5 (Suc (Suc (Suc (blocks ctx0)))) (ast_r Node) (Suc (blocks ctx0))"
      using 6(2) [OF refl c refl c refl c refl, of ctx5]
      by (simp add: branch_entry_def irBlockCreate_def numeral_2_eq_2 numeral_3_eq_3)
  qed
next
  case (7 X ctx0 block Node)
  note c = prod.collapse
  show ?case
  proof (rule loop)
    assume "ast_l Node \<noteq> None"
    then obtain lnode where l: "ast_l Node = Some lnode" by auto
    show "P1 X ((loop_entry X ctx0 block Node)\<lparr>breakTo := Suc (blocks ctx0),
                  continueTo := Suc (Suc (Suc (blocks ctx0)))\<rparr>)
            (Suc (Suc (blocks ctx0))) (loop_code Node) (Suc (Suc (Suc (blocks ctx0))))"
      using 7 [OF refl c refl c refl c l refl refl refl refl refl c refl c] l
      by (simp add: loop_entry_def loop_code_def loop_cond_def loop_isDo_def irBlockCreate_def
          emitterSetBreakTo_def emitterSetContinueTo_def numeral_2_eq_2 numeral_3_eq_3
          irJump_def emitterBranchOnValue_def Let_def split: if_splits)
  qed
next
  case (8 X ctx0 block0 Node)
  note c = prod.collapse
  show ?case
  proof (rule iter)
    fix init cond after
    assume ch: "ast_children Node = init # cond # after"
    show "P1 X ((iter_entry X ctx0 block0 init cond)\<lparr>breakTo := Suc (blocks ctx0),
                  continueTo := Suc (Suc (Suc (blocks ctx0)))\<rparr>)
            (Suc (Suc (blocks ctx0))) (ast_l Node) (Suc (Suc (Suc (blocks ctx0))))"
      using 8 [OF refl c refl c refl c ch refl refl refl refl c refl refl c refl c]
      by (simp add: iter_entry_def iter_init_def irBlockCreate_def
          emitterSetBreakTo_def emitterSetContinueTo_def numeral_2_eq_2 numeral_3_eq_3
          emitterBranchOnValue_def emitterDecl_def emitterValue_def Let_def case_prod_beta
          split: if_splits)
  qed
qed

lemma emitterLine_Inr_cases [consumes 1, case_names branch loop iter code return break continue
    decl val empty]:
  assumes "emitterLine X ctx block Node = Inr (b', ctx')"
  obtains
    c where "ast_tag Node = astBranch"
      "emitterBranch X (debugEnter ctx (astTagGetStr X (ast_tag Node))) block Node = Inr (b', c)"
      "ctx' = debugLeave c"
  | c where "ast_tag Node = astLoop"
      "emitterLoop X (debugEnter ctx (astTagGetStr X (ast_tag Node))) block Node = Inr (b', c)"
      "ctx' = debugLeave c"
  | c where "ast_tag Node = astIter"
      "emitterIter X (debugEnter ctx (astTagGetStr X (ast_tag Node))) block Node = Inr (b', c)"
      "ctx' = debugLeave c"
  | c where "ast_tag Node = astCode"
      "emitterCode X (snd (irBlockCreate (debugEnter ctx (astTagGetStr X (ast_tag Node))))) block
         (Some Node) (fst (irBlockCreate (debugEnter ctx (astTagGetStr X (ast_tag Node))))) = Inr c"
      "b' = fst (irBlockCreate (debugEnter ctx (astTagGetStr X (ast_tag Node))))"
      "ctx' = debugLeave c"
  | "ast_tag Node = astReturn"
      "b' = fst (irBlockCreate (emitterReturn X (debugEnter ctx (astTagGetStr X (ast_tag Node))) block Node))"
      "ctx' = debugLeave (snd (irBlockCreate
                (emitterReturn X (debugEnter ctx (astTagGetStr X (ast_tag Node))) block Node)))"
  | "ast_tag Node = astBreak"
      "b' = fst (irBlockCreate (irJump (debugEnter ctx (astTagGetStr X (ast_tag Node))) block (breakTo ctx)))"
      "ctx' = debugLeave (snd (irBlockCreate
                (irJump (debugEnter ctx (astTagGetStr X (ast_tag Node))) block (breakTo ctx))))"
  | "ast_tag Node = astContinue"
      "b' = fst (irBlockCreate (irJump (debugEnter ctx (astTagGetStr X (ast_tag Node))) block (continueTo ctx)))"
      "ctx' = debugLeave (snd (irBlockCreate
                (irJump (debugEnter ctx (astTagGetStr X (ast_tag Node))) block (continueTo ctx))))"
  | "ast_tag Node = astDecl"
      "b' = fst (emitterDecl X (debugEnter ctx (astTagGetStr X (ast_tag Node))) (Some block) Node)"
      "ctx' = debugLeave (snd (emitterDecl X (debugEnter ctx (astTagGetStr X (ast_tag Node)))
                                 (Some block) Node))"
  | "\<not> statementTag (ast_tag Node)" "astIsValueTag X (ast_tag Node)"
      "b' = fst (snd (emitterValue X (debugEnter ctx (astTagGetStr X (ast_tag Node))) (Some block)
                        (Some Node) requestVoid))"
      "ctx' = debugLeave (snd (snd (emitterValue X (debugEnter ctx (astTagGetStr X (ast_tag Node)))
                                      (Some block) (Some Node) requestVoid)))"
  | "ast_tag Node = astEmpty" "\<not> astIsValueTag X (ast_tag Node)" "b' = block"
      "ctx' = debugLeave (debugEnter ctx (astTagGetStr X (ast_tag Node)))"
proof -
  consider (branch) "ast_tag Node = astBranch" | (loop) "ast_tag Node = astLoop"
    | (iter) "ast_tag Node = astIter" | (code) "ast_tag Node = astCode"
    | (return) "ast_tag Node = astReturn" | (break) "ast_tag Node = astBreak"
    | (continue) "ast_tag Node = astContinue" | (decl) "ast_tag Node = astDecl"
    | (val) "\<not> statementTag (ast_tag Node)" "astIsValueTag X (ast_tag Node)"
    | (other) "\<not> statementTag (ast_tag Node)" "\<not> astIsValueTag X (ast_tag Node)"
    by (auto simp: statementTag_def)
  then show thesis
  proof cases
    case branch
    with assms that(1) show ?thesis
      by (simp add: emitterLine_Branch split: sum.splits prod.splits)
  next
    case loop
    with assms that(2) show ?thesis
      by (simp add: emitterLine_Loop split: sum.splits prod.splits)
  next
    case iter
    with assms that(3) show ?thesis
      by (simp add: emitterLine_Iter split: sum.splits prod.splits)
  next
    case code
    with assms that(4) show ?thesis
      by (simp add: emitterLine_Code Let_def split: sum.splits prod.splits)
  next
    case return
    with assms that(5) show ?thesis
      by (simp add: emitterLine_Return Let_def)
  next
    case break
    with assms that(6) show ?thesis
      by (simp add: emitterLine_Break Let_def)
  next
    case continue
    with assms that(7) show ?thesis
      by (simp add: emitterLine_Continue Let_def)
  next
    case decl
    with assms that(8) show ?thesis
      by (simp add: emitterLine_Decl Let_def)
  next
    case val
    with assms that(9) show ?thesis
      by (simp add: emitterLine_Value Let_def)
  next
    case other
    with assms have t: "ast_tag Node = astEmpty"
      by - (rule ccontr, simp add: emitterLine_unhandled)
    with other assms that(10) show ?thesis
      by (simp add: emitterLine_Empty)
  qed
qed

lemma ctx_extends_branch_entry: "ctx_extends ctx (branch_entry X ctx block Node)"
  by (simp add: branch_entry_def ctx_extends_def ctx_grows_def targets_kept_def
      emitterBranchOnValue_def)

lemma ctx_extends_loop_entry: "ctx_extends ctx (loop_entry X ctx block Node)"
  by (simp add: loop_entry_def ctx_extends_def ctx_grows_def targets_kept_def
      emitterBranchOnValue_def irJump_def Let_def)

lemma ctx_extends_iter_entry: "ctx_extends ctx (iter_entry X ctx block init cond)"
  by (simp add: iter_entry_def iter_init_def ctx_extends_def ctx_grows_def targets_kept_def
      emitterBranchOnValue_def emitterDecl_def emitterValue_def Let_def case_prod_beta)

lemma ctx_extends_restoreTargets:
  assumes "ctx_extends ctx e" and "ctx_extends (e\<lparr>breakTo := k, continueTo := c\<rparr>) ctx'"
  shows "ctx_extends ctx (restoreTargets ctx ctx')"
  using assms
  by (auto simp add: ctx_extends_def ctx_grows_def targets_kept_def restoreTargets_def)

lemma emitterCode_frame:
  "emitterCode X ctx block Node k = Inr ctx' \<Longrightarrow> ctx_extends ctx ctx'"
  "emitterCode_loop X ctx block cs = Inr (b', ctx') \<Longrightarrow> ctx_extends ctx ctx'"
  "emitterLine X ctx block N = Inr (b', ctx') \<Longrightarrow> ctx_extends ctx ctx'"
  "emitterBranch X ctx block N = Inr (b', ctx') \<Longrightarrow> ctx_extends ctx ctx'"
  "emitterLoop X ctx block N = Inr (b', ctx') \<Longrightarrow> ctx_extends ctx ctx'"
  "emitterIter X ctx block N = Inr (b', ctx') \<Longrightarrow> ctx_extends ctx ctx'"
proof (induct X ctx block Node k and X ctx block cs and X ctx block N and X ctx block N
    and X ctx block N and X ctx block N
    arbitrary: ctx' and b' ctx' and b' ctx' and b' ctx' and b' ctx' and b' ctx'
    rule: emitter_induct)
  case (codeNone X ctx block k)
  then show ?case by (simp add: emitterCode.simps)
next
  case (codeSome X ctx block Node k)
  then show ?case 
    by (auto simp: emitterCode.simps split: sum.splits intro: ctx_extends_back)
next
  case (loopNil X ctx block)
  then show ?case by (simp add: emitterCode_loop.simps ctx_extends_refl)
next
  case (loopCons X ctx block Current rest)
  then show ?case 
    by (auto simp: emitterCode_loop.simps split: sum.splits intro: ctx_extends_trans)
next
  case (line X ctx block Node)
  note enter = ctx_extends_debugEnter [of ctx "astTagGetStr X (ast_tag Node)"]
  from line.prems show ?case
  proof (cases rule: emitterLine_Inr_cases)
    case (branch c)
    from line.hyps(1) [OF branch(1,2)] show ?thesis
      unfolding branch(3) by (intro ctx_extends_back ctx_extends_trans [OF enter])
  next
    case (loop c)
    from line.hyps(2) [OF loop(1,2)] show ?thesis
      unfolding loop(3) by (intro ctx_extends_back ctx_extends_trans [OF enter])
  next
    case (iter c)
    from line.hyps(3) [OF iter(1,2)] show ?thesis
      unfolding iter(3) by (intro ctx_extends_back ctx_extends_trans [OF enter])
  next
    case (code c)
    from line.hyps(4) [OF code(1,2)] have "ctx_extends (debugEnter ctx (astTagGetStr X (ast_tag Node))) c"
      by (rule ctx_extends_front)
    then show ?thesis
      unfolding code(4) by (intro ctx_extends_back ctx_extends_trans [OF enter])
  qed (simp_all only:, (intro ctx_extends_back ctx_extends_debugEnter)+)
next
  case (branch X ctx block Node)
  from branch.prems obtain c5
    where a: "emitterCode X (branch_entry X ctx block Node) (Suc (Suc (blocks ctx))) (ast_l Node)
                (Suc (blocks ctx)) = Inr c5"
      and b: "emitterCode X c5 (Suc (Suc (Suc (blocks ctx)))) (ast_r Node) (Suc (blocks ctx)) = Inr ctx'"
    by (auto simp: emitterBranch_unfold split: sum.splits)
  from ctx_extends_branch_entry branch.hyps(1) [OF a] branch.hyps(2) [OF a b]
  show ?case by (blast intro: ctx_extends_trans)
next
  case (loop X ctx block Node)
  from loop.prems have l: "ast_l Node \<noteq> None"
    by (auto simp: emitterLoop_unfold split: if_splits)
  with loop.prems obtain c7
    where a: "emitterCode X ((loop_entry X ctx block Node)\<lparr>breakTo := Suc (blocks ctx),
                  continueTo := Suc (Suc (Suc (blocks ctx)))\<rparr>)
                (Suc (Suc (blocks ctx))) (loop_code Node) (Suc (Suc (Suc (blocks ctx)))) = Inr c7"
      and e: "ctx' = loop_exit X ctx c7 Node"
    by (auto simp: emitterLoop_unfold split: sum.splits if_splits)
  from ctx_extends_loop_entry loop.hyps [OF l a]
  have "ctx_extends ctx (restoreTargets ctx c7)" by (rule ctx_extends_restoreTargets)
  then show ?case unfolding e loop_exit_def by (rule ctx_extends_back)
next
  case (iter X ctx block Node)
  from iter.prems obtain init cond after c8
    where ch: "ast_children Node = init # cond # after"
      and a: "emitterCode X ((iter_entry X ctx block init cond)\<lparr>breakTo := Suc (blocks ctx),
                  continueTo := Suc (Suc (Suc (blocks ctx)))\<rparr>)
                (Suc (Suc (blocks ctx))) (ast_l Node) (Suc (Suc (Suc (blocks ctx)))) = Inr c8"
      and e: "ctx' = iter_exit X ctx c8 cond after"
    by (auto simp: emitterIter_unfold split: sum.splits list.splits)
  from ctx_extends_iter_entry iter.hyps [OF ch a]
  have "ctx_extends ctx (restoreTargets ctx c8)" by (rule ctx_extends_restoreTargets)
  then show ?case unfolding e iter_exit_def Let_def by (intro ctx_extends_back)
qed

lemma emitterBranch_Inr [consumes 1]:
  assumes "emitterBranch X ctx block Node = Inr (k, ctx')"
  obtains ctx5 where
    "emitterCode X (branch_entry X ctx block Node) (Suc (Suc (blocks ctx))) (ast_l Node)
       (Suc (blocks ctx)) = Inr ctx5"
    "emitterCode X ctx5 (Suc (Suc (Suc (blocks ctx)))) (ast_r Node) (Suc (blocks ctx)) = Inr ctx'"
    "k = Suc (blocks ctx)"
proof (cases "emitterCode X (branch_entry X ctx block Node) (Suc (Suc (blocks ctx))) (ast_l Node)
       (Suc (blocks ctx))")
  case (Inl e)
  with assms show ?thesis by (simp add: emitterBranch_unfold)
next
  case (Inr ctx5)
  note first = this
  show ?thesis
  proof (cases "emitterCode X ctx5 (Suc (Suc (Suc (blocks ctx)))) (ast_r Node) (Suc (blocks ctx))")
    case (Inl e)
    with first assms show ?thesis by (simp add: emitterBranch_unfold)
  next
    case (Inr ctx6)
    with first assms have "k = Suc (blocks ctx)" "ctx6 = ctx'"
      by (simp_all add: emitterBranch_unfold)
    with first Inr that show ?thesis by simp
  qed
qed

lemma emitterLoop_Inr [consumes 1]:
  assumes "emitterLoop X ctx block Node = Inr (k, ctx')"
  obtains ctx7 where
    "ast_l Node \<noteq> None"
    "emitterCode X ((loop_entry X ctx block Node)\<lparr>breakTo := Suc (blocks ctx),
         continueTo := Suc (Suc (Suc (blocks ctx)))\<rparr>)
       (Suc (Suc (blocks ctx))) (loop_code Node) (Suc (Suc (Suc (blocks ctx)))) = Inr ctx7"
    "k = Suc (blocks ctx)"
    "ctx' = loop_exit X ctx ctx7 Node"
proof (cases "ast_l Node")
  case None
  with assms show ?thesis by (simp add: emitterLoop_unfold)
next
  case (Some lnode)
  note l = this
  show ?thesis
  proof (cases "emitterCode X ((loop_entry X ctx block Node)\<lparr>breakTo := Suc (blocks ctx),
         continueTo := Suc (Suc (Suc (blocks ctx)))\<rparr>)
       (Suc (Suc (blocks ctx))) (loop_code Node) (Suc (Suc (Suc (blocks ctx))))")
    case (Inl e)
    with l assms show ?thesis by (simp add: emitterLoop_unfold)
  next
    case (Inr ctx7)
    with l assms have "k = Suc (blocks ctx)" "ctx' = loop_exit X ctx ctx7 Node"
      by (simp_all add: emitterLoop_unfold)
    with l Inr that show ?thesis by simp
  qed
qed

lemma emitterIter_Inr [consumes 1]:
  assumes "emitterIter X ctx block Node = Inr (k, ctx')"
  obtains init cond after ctx8 where
    "ast_children Node = init # cond # after"
    "emitterCode X ((iter_entry X ctx block init cond)\<lparr>breakTo := Suc (blocks ctx),
         continueTo := Suc (Suc (Suc (blocks ctx)))\<rparr>)
       (Suc (Suc (blocks ctx))) (ast_l Node) (Suc (Suc (Suc (blocks ctx)))) = Inr ctx8"
    "k = Suc (blocks ctx)"
    "ctx' = iter_exit X ctx ctx8 cond after"
proof (cases "ast_children Node")
  case Nil
  with assms show ?thesis by (simp add: emitterIter_unfold)
next
  case (Cons init rest)
  note c1 = this
  show ?thesis
  proof (cases rest)
    case Nil
    with c1 assms show ?thesis by (simp add: emitterIter_unfold)
  next
    case (Cons cond after)
    with c1 have ch: "ast_children Node = init # cond # after" by simp
    show ?thesis
    proof (cases "emitterCode X ((iter_entry X ctx block init cond)\<lparr>breakTo := Suc (blocks ctx),
         continueTo := Suc (Suc (Suc (blocks ctx)))\<rparr>)
       (Suc (Suc (blocks ctx))) (ast_l Node) (Suc (Suc (Suc (blocks ctx))))")
      case (Inl e)
      with ch assms show ?thesis by (simp add: emitterIter_unfold)
    next
      case (Inr ctx8)
      with ch assms have "k = Suc (blocks ctx)" "ctx' = iter_exit X ctx ctx8 cond after"
        by (simp_all add: emitterIter_unfold)
      with ch Inr that show ?thesis by simp
    qed
  qed
qed

lemma emitterFnImpl_unfold:
  "emitterFnImpl X ctx Node =
     (case ast_symbol Node of
        None \<Rightarrow> Inl (NullDereference, debugEnter ctx ''FnImpl'')
      | Some fn0 \<Rightarrow>
         (case emitterCode X (fn_body_ctx X ctx fn0) (Suc (blocks ctx)) (ast_r Node)
                 (Suc (Suc (blocks ctx))) of
            Inl e \<Rightarrow> Inl e
          | Inr ctx7 \<Rightarrow>
              Inr (fst (fn_layout X (arch ctx) fn0 (debug ctx @ [DebugEnter ''FnImpl''])),
                   debugLeave (irFnEpilogue ctx7 (Suc (Suc (blocks ctx)))))))"
  by (simp add: emitterFnImpl_def fn_body_ctx_def fn_layout_def Let_def case_prod_beta
      irBlockCreate_def debugEnter_def irFnPrologue_def
      split: option.split cong: sum.case_cong)

lemma emitterFnImpl_Inr [consumes 1]:
  assumes "emitterFnImpl X ctx Node = Inr (fn', ctx')"
  obtains fn0 ctx7 where
    "ast_symbol Node = Some fn0"
    "emitterCode X (fn_body_ctx X ctx fn0) (Suc (blocks ctx)) (ast_r Node)
       (Suc (Suc (blocks ctx))) = Inr ctx7"
    "fn' = fst (fn_layout X (arch ctx) fn0 (debug ctx @ [DebugEnter ''FnImpl'']))"
    "ctx' = debugLeave (irFnEpilogue ctx7 (Suc (Suc (blocks ctx))))"
proof (cases "ast_symbol Node")
  case None
  with assms show ?thesis by (simp add: emitterFnImpl_unfold)
next
  case (Some fn0)
  note s = this
  show ?thesis
  proof (cases "emitterCode X (fn_body_ctx X ctx fn0) (Suc (blocks ctx)) (ast_r Node)
       (Suc (Suc (blocks ctx)))")
    case (Inl e)
    with s assms show ?thesis by (simp add: emitterFnImpl_unfold)
  next
    case (Inr ctx7)
    with s assms
    have "fn' = fst (fn_layout X (arch ctx) fn0 (debug ctx @ [DebugEnter ''FnImpl'']))"
      "ctx' = debugLeave (irFnEpilogue ctx7 (Suc (Suc (blocks ctx))))"
      by (simp_all add: emitterFnImpl_unfold)
    with s Inr that show ?thesis by simp
  qed
qed

lemma emitterReturn_ops:
  "ops (emitterReturn X ctx block Node) =
     ops ctx @ (case ast_r Node of None \<Rightarrow> [] | Some rn \<Rightarrow> return_effects X ctx rn) @
     [IrJump block (returnTo ctx)]"
  by (simp add: emitterReturn_def return_effects_def return_lowering_def emitterValue_def
      regAlloc_def regRequest_def
      asmMove_def operandFree_def regFree_def debugError_def irJump_def Let_def case_prod_beta
      operandCreateReg_def operandCreateMem_def
      split: option.split)

lemma emitterReturn_debug:
  "debug (emitterReturn X ctx block Node) =
     debug ctx @ (case ast_r Node of None \<Rightarrow> [] | Some rn \<Rightarrow> return_reports X ctx rn)"
  by (simp add: emitterReturn_def return_reports_def return_lowering_def emitterValue_def
      regAlloc_def regRequest_def regGet_def
      asmMove_def operandFree_def regFree_def debugError_def irJump_def Let_def case_prod_beta
      operandCreateReg_def operandCreateMem_def
      split: option.split)

lemma emitterReturn_fields:
  "arch (emitterReturn X ctx block Node) = arch ctx"
  "returnTo (emitterReturn X ctx block Node) = returnTo ctx"
  "breakTo (emitterReturn X ctx block Node) = breakTo ctx"
  "continueTo (emitterReturn X ctx block Node) = continueTo ctx"
  "blocks (emitterReturn X ctx block Node) =
     (case ast_r Node of None \<Rightarrow> blocks ctx
      | Some rn \<Rightarrow> blocks (snd (snd (emitterValue X ctx None (Some rn) requestValue))))"
  by (simp_all add: emitterReturn_def emitterValue_def
      regAlloc_def regRequest_def
      asmMove_def operandFree_def regFree_def debugError_def irJump_def Let_def case_prod_beta
      split: option.split)

lemma ctx_extends_ops: "ctx_extends a b \<Longrightarrow> prefix (ops a) (ops b)"
  by (simp add: ctx_extends_def ctx_grows_def)

lemma ctx_extends_targets:
  "ctx_extends a b \<Longrightarrow> returnTo b = returnTo a"
  "ctx_extends a b \<Longrightarrow> breakTo b = breakTo a"
  "ctx_extends a b \<Longrightarrow> continueTo b = continueTo a"
  by (simp_all add: ctx_extends_def targets_kept_def)

lemma opsSince_widen:
  assumes "prefix (ops a) (ops a')" "prefix (ops a') (ops c')" "prefix (ops c') (ops c)"
  shows "set (opsSince a' c') \<subseteq> set (opsSince a c)"
proof -
  from assms obtain d1 d2 d3 where "ops a' = ops a @ d1" "ops c' = ops a' @ d2" "ops c = ops c' @ d3"
    by (auto simp: prefix_def)
  then show ?thesis by (auto simp: opsSince_def)
qed

lemma jumpsTo_widen:
  assumes "jumpsTo a' c' target"
    and "prefix (ops a) (ops a')" "prefix (ops a') (ops c')" "prefix (ops c') (ops c)"
  shows "jumpsTo a c target"
  using assms(1) opsSince_widen [OF assms(2-4)] by (auto simp: jumpsTo_def)

lemma jumpsTo_last:
  assumes "ops c = ops a @ d @ [IrJump b target]"
  shows "jumpsTo a c target"
  using assms by (auto simp: jumpsTo_def opsSince_def)

lemma jumpKind_kept: "jumpKind inner t target \<Longrightarrow> ctx_extends a b \<Longrightarrow> target b = target a"
  by (auto simp: jumpKind_def ctx_extends_targets)

lemma jumpKind_tag: "jumpKind inner t target \<Longrightarrow> t \<in> {astReturn, astBreak, astContinue}"
  by (auto simp: jumpKind_def)

lemma prefix_ops_simps:
  "prefix (ops a) (ops (debugEnter a s))"
  "prefix (ops a) (ops (debugLeave a))"
  "prefix (ops a) (ops (snd (irBlockCreate a)))"
  "prefix (ops a) (ops (irJump a b t))"
  "prefix (ops a) (ops (branch_entry X a b N))"
  "prefix (ops a) (ops (loop_entry X a b N))"
  "prefix (ops a) (ops (iter_entry X a b i c))"
  "prefix (ops c7) (ops (loop_exit X a c7 N))"
  "prefix (ops c8) (ops (iter_exit X a c8 co af))"
  "prefix (ops a) (ops (emitterReturn X a b N))"
  by (simp_all add: debugEnter_def debugLeave_def irBlockCreate_def irJump_def
      ctx_extends_ops [OF ctx_extends_branch_entry] ctx_extends_ops [OF ctx_extends_loop_entry]
      ctx_extends_ops [OF ctx_extends_iter_entry] loop_exit_def iter_exit_def restoreTargets_def
      emitterBranchOnValue_def emitterValue_def Let_def case_prod_beta
      ctx_extends_ops [OF ctx_extends_emitterReturn])

declare stmtsOfLine.simps [simp del] stmtsOfCode.simps [simp del]

lemma emitterCode_Some_Inr [consumes 1]:
  assumes "emitterCode X ctx block (Some Node) k = Inr ctx'"
  obtains b1 c1 where "emitterCode_loop X ctx block (ast_children Node) = Inr (b1, c1)"
    "ctx' = irJump c1 b1 k"
  using assms by (auto simp: emitterCode.simps split: sum.splits)

lemma emitterCode_loop_Cons_Inr [consumes 1]:
  assumes "emitterCode_loop X ctx block (Current # rest) = Inr (b', ctx')"
  obtains b1 c1 where "emitterLine X ctx block Current = Inr (b1, c1)"
    "emitterCode_loop X c1 b1 rest = Inr (b', ctx')"
  using assms by (auto simp: emitterCode_loop.simps split: sum.splits)

lemma debug_fields:
  "ops (debugEnter c s) = ops c" "ops (debugLeave c) = ops c"
  "blocks (debugEnter c s) = blocks c" "blocks (debugLeave c) = blocks c"
  "arch (debugEnter c s) = arch c" "arch (debugLeave c) = arch c"
  "returnTo (debugEnter c s) = returnTo c" "returnTo (debugLeave c) = returnTo c"
  "breakTo (debugEnter c s) = breakTo c" "breakTo (debugLeave c) = breakTo c"
  "continueTo (debugEnter c s) = continueTo c" "continueTo (debugLeave c) = continueTo c"
  by (simp_all add: debugEnter_def debugLeave_def)

lemma stmt_jump:
  assumes K: "jumpKind inner t target"
  shows "emitterCode X ctx block Node k = Inr ctx' \<Longrightarrow> s \<in> set (stmtsOfCode inner Node) \<Longrightarrow>
      ast_tag s = t \<Longrightarrow> jumpsTo ctx ctx' (target ctx)"
    and "emitterCode_loop X ctx block cs = Inr (b', ctx') \<Longrightarrow>
      s \<in> set (concat (map (stmtsOfLine inner) cs)) \<Longrightarrow>
      ast_tag s = t \<Longrightarrow> jumpsTo ctx ctx' (target ctx)"
    and "emitterLine X ctx block N = Inr (b', ctx') \<Longrightarrow> s \<in> set (stmtsOfLine inner N) \<Longrightarrow>
      ast_tag s = t \<Longrightarrow> jumpsTo ctx ctx' (target ctx)"
    and "emitterBranch X ctx block N = Inr (b', ctx') \<Longrightarrow>
      s \<in> set (stmtsOfCode inner (ast_l N) @ stmtsOfCode inner (ast_r N)) \<Longrightarrow>
      ast_tag s = t \<Longrightarrow> jumpsTo ctx ctx' (target ctx)"
    and "emitterLoop X ctx block N = Inr (b', ctx') \<Longrightarrow> inner \<Longrightarrow>
      s \<in> set (stmtsOfCode inner (loop_code N)) \<Longrightarrow>
      ast_tag s = t \<Longrightarrow> jumpsTo ctx ctx' (target ctx)"
    and "emitterIter X ctx block N = Inr (b', ctx') \<Longrightarrow> inner \<Longrightarrow>
      s \<in> set (stmtsOfCode inner (ast_l N)) \<Longrightarrow>
      ast_tag s = t \<Longrightarrow> jumpsTo ctx ctx' (target ctx)"
proof (induct X ctx block Node k and X ctx block cs and X ctx block N and X ctx block N
    and X ctx block N and X ctx block N
    arbitrary: ctx' s and b' ctx' s and b' ctx' s and b' ctx' s and b' ctx' s and b' ctx' s
    rule: emitter_induct)
  case (codeNone X ctx block k)
  then show ?case by (simp add: stmtsOfCode.simps)
next
  case (codeSome X ctx block Node k)
  from codeSome.prems(1) obtain b1 c1
    where a: "emitterCode_loop X ctx block (ast_children Node) = Inr (b1, c1)"
      and e: "ctx' = irJump c1 b1 k"
    by (rule emitterCode_Some_Inr)
  from codeSome.prems(2) have "s \<in> set (concat (map (stmtsOfLine inner) (ast_children Node)))"
    by (simp add: stmtsOfCode.simps)
  from codeSome.hyps [OF a this codeSome.prems(3)] have "jumpsTo ctx c1 (target ctx)" .
  then show ?case unfolding e
    by (rule jumpsTo_widen) (simp_all add: prefix_ops_simps ctx_extends_ops [OF emitterCode_frame(2) [OF a]])
next
  case (loopNil X ctx block)
  then show ?case by simp
next
  case (loopCons X ctx block Current rest)
  from loopCons.prems(1) obtain b1 c1
    where a: "emitterLine X ctx block Current = Inr (b1, c1)"
      and b: "emitterCode_loop X c1 b1 rest = Inr (b', ctx')"
    by (rule emitterCode_loop_Cons_Inr)
  note fa = emitterCode_frame(3) [OF a] and fb = emitterCode_frame(2) [OF b]
  from loopCons.prems(2) consider (head) "s \<in> set (stmtsOfLine inner Current)"
    | (tail) "s \<in> set (concat (map (stmtsOfLine inner) rest))"
    by auto
  then show ?case
  proof cases
    case head
    from loopCons.hyps(1) [OF a head loopCons.prems(3)] show ?thesis
      by (rule jumpsTo_widen) (simp_all add: ctx_extends_ops [OF fa] ctx_extends_ops [OF fb])
  next
    case tail
    from loopCons.hyps(2) [OF a b tail loopCons.prems(3)]
    have "jumpsTo c1 ctx' (target ctx)" by (simp add: jumpKind_kept [OF K fa])
    then show ?thesis
      by (rule jumpsTo_widen) (simp_all add: ctx_extends_ops [OF fa] ctx_extends_ops [OF fb])
  qed
next
  case (line X ctx block Node)
  let ?c = "debugEnter ctx (astTagGetStr X (ast_tag Node))"
  have tc: "target ?c = target ctx"
    by (rule jumpKind_kept [OF K ctx_extends_debugEnter])
  note t3 = jumpKind_tag [OF K]
  note unf = stmtsOfLine.simps [of inner Node]
  from line.prems(1) show ?case
  proof (cases rule: emitterLine_Inr_cases)
    case (branch c)
    with line.prems(2,3) t3
    have "s \<in> set (stmtsOfCode inner (ast_l Node) @ stmtsOfCode inner (ast_r Node))"
      by (auto simp: unf)
    from line.hyps(1) [OF branch(1,2) this line.prems(3)]
    have "jumpsTo ?c c (target ctx)" by (simp add: tc)
    then show ?thesis unfolding branch(3)
      by (rule jumpsTo_widen)
        (simp_all add: prefix_ops_simps ctx_extends_ops [OF emitterCode_frame(4) [OF branch(2)]])
  next
    case (loop c)
    with line.prems(2,3) t3
    have "inner" "s \<in> set (stmtsOfCode inner (loop_code Node))"
      by (auto simp: unf split: if_splits)
    from line.hyps(2) [OF loop(1,2) this line.prems(3)]
    have "jumpsTo ?c c (target ctx)" by (simp add: tc)
    then show ?thesis unfolding loop(3)
      by (rule jumpsTo_widen)
        (simp_all add: prefix_ops_simps ctx_extends_ops [OF emitterCode_frame(5) [OF loop(2)]])
  next
    case (iter c)
    with line.prems(2,3) t3
    have "inner" "s \<in> set (stmtsOfCode inner (ast_l Node))"
      by (auto simp: unf split: if_splits)
    from line.hyps(3) [OF iter(1,2) this line.prems(3)]
    have "jumpsTo ?c c (target ctx)" by (simp add: tc)
    then show ?thesis unfolding iter(3)
      by (rule jumpsTo_widen)
        (simp_all add: prefix_ops_simps ctx_extends_ops [OF emitterCode_frame(6) [OF iter(2)]])
  next
    case (code c)
    with line.prems(2,3) t3
    have "s \<in> set (stmtsOfCode inner (Some Node))"
      by (auto simp: unf)
    from line.hyps(4) [OF code(1,2) this line.prems(3)]
    have j: "jumpsTo (snd (irBlockCreate ?c)) c (target ctx)"
      by (simp add: jumpKind_kept [OF K ctx_extends_irBlockCreate] tc)
    have p: "prefix (ops ctx) (ops c)"
      using ctx_extends_ops [OF emitterCode_frame(1) [OF code(2)]]
      by (simp add: irBlockCreate_def debugEnter_def)
    show ?thesis unfolding code(4)
      by (rule jumpsTo_widen [OF j])
        (simp_all add: p prefix_ops_simps irBlockCreate_def debugEnter_def)
  next
    case return
    with line.prems(2,3) K have tr: "target = returnTo"
      by (auto simp: jumpKind_def unf)
    have "ops ctx' = ops ctx @
            (case ast_r Node of None \<Rightarrow> [] | Some rn \<Rightarrow> return_effects X ?c rn) @
            [IrJump block (returnTo ctx)]"
      by (simp add: return(3) emitterReturn_ops irBlockCreate_def debug_fields)
    then show ?thesis unfolding tr by (rule jumpsTo_last)
  next
    case break
    with line.prems(2,3) K have tr: "target = breakTo"
      by (auto simp: jumpKind_def unf)
    have "ops ctx' = ops ctx @ [] @ [IrJump block (breakTo ctx)]"
      by (simp add: break(3) debugLeave_def irBlockCreate_def debugEnter_def irJump_def)
    then show ?thesis unfolding tr by (rule jumpsTo_last)
  next
    case continue
    with line.prems(2,3) K have tr: "target = continueTo"
      by (auto simp: jumpKind_def unf)
    have "ops ctx' = ops ctx @ [] @ [IrJump block (continueTo ctx)]"
      by (simp add: continue(3) debugLeave_def irBlockCreate_def debugEnter_def irJump_def)
    then show ?thesis unfolding tr by (rule jumpsTo_last)
  next
    case decl
    with line.prems(2,3) t3 show ?thesis by (auto simp: unf)
  next
    case val
    with line.prems(2,3) t3 show ?thesis by (auto simp: statementTag_def unf)
  next
    case empty
    with line.prems(2,3) t3 show ?thesis by (auto simp: unf)
  qed
next
  case (branch X ctx block Node)
  from branch.prems(1) obtain c5
    where a: "emitterCode X (branch_entry X ctx block Node) (Suc (Suc (blocks ctx))) (ast_l Node)
                (Suc (blocks ctx)) = Inr c5"
      and b: "emitterCode X c5 (Suc (Suc (Suc (blocks ctx)))) (ast_r Node) (Suc (blocks ctx)) = Inr ctx'"
    by (rule emitterBranch_Inr)
  note fa = emitterCode_frame(1) [OF a] and fb = emitterCode_frame(1) [OF b]
  from branch.prems(2) consider (left) "s \<in> set (stmtsOfCode inner (ast_l Node))"
    | (right) "s \<in> set (stmtsOfCode inner (ast_r Node))"
    by auto
  then show ?case
  proof cases
    case left
    from branch.hyps(1) [OF a left branch.prems(3)]
    have "jumpsTo (branch_entry X ctx block Node) c5 (target ctx)"
      by (simp add: jumpKind_kept [OF K ctx_extends_branch_entry])
    then show ?thesis
      by (rule jumpsTo_widen)
        (simp_all add: prefix_ops_simps ctx_extends_ops [OF fa] ctx_extends_ops [OF fb])
  next
    case right
    from branch.hyps(2) [OF a b right branch.prems(3)]
    have "jumpsTo c5 ctx' (target ctx)"
      by (simp add: jumpKind_kept [OF K fa] jumpKind_kept [OF K ctx_extends_branch_entry])
    then show ?thesis
      by (rule jumpsTo_widen)
        (simp_all add: prefix_order.trans [OF prefix_ops_simps(5) ctx_extends_ops [OF fa]]
          ctx_extends_ops [OF fb])
  qed
next
  case (loop X ctx block Node)
  let ?c6 = "(loop_entry X ctx block Node)\<lparr>breakTo := Suc (blocks ctx),
               continueTo := Suc (Suc (Suc (blocks ctx)))\<rparr>"
  from loop.prems(1) obtain c7
    where l: "ast_l Node \<noteq> None"
      and a: "emitterCode X ?c6 (Suc (Suc (blocks ctx))) (loop_code Node)
                (Suc (Suc (Suc (blocks ctx)))) = Inr c7"
      and e: "ctx' = loop_exit X ctx c7 Node"
    by (rule emitterLoop_Inr)
  from loop.prems(2) K have tr: "target = returnTo"
    by (auto simp: jumpKind_def)
  have "returnTo ?c6 = returnTo ctx"
    using ctx_extends_targets(1) [OF ctx_extends_loop_entry] by simp
  with loop.hyps [OF l a loop.prems(3,4)] have "jumpsTo ?c6 c7 (returnTo ctx)"
    by (simp add: tr)
  then show ?case unfolding e tr
    by (rule jumpsTo_widen)
      (simp_all add: prefix_ops_simps ctx_extends_ops [OF emitterCode_frame(1) [OF a], simplified])
next
  case (iter X ctx block Node)
  from iter.prems(1) obtain init cond after c8
    where ch: "ast_children Node = init # cond # after"
      and a: "emitterCode X ((iter_entry X ctx block init cond)\<lparr>breakTo := Suc (blocks ctx),
                  continueTo := Suc (Suc (Suc (blocks ctx)))\<rparr>)
                (Suc (Suc (blocks ctx))) (ast_l Node) (Suc (Suc (Suc (blocks ctx)))) = Inr c8"
      and e: "ctx' = iter_exit X ctx c8 cond after"
    by (rule emitterIter_Inr)
  let ?c7 = "(iter_entry X ctx block init cond)\<lparr>breakTo := Suc (blocks ctx),
                  continueTo := Suc (Suc (Suc (blocks ctx)))\<rparr>"
  from iter.prems(2) K have tr: "target = returnTo"
    by (auto simp: jumpKind_def)
  have "returnTo ?c7 = returnTo ctx"
    using ctx_extends_targets(1) [OF ctx_extends_iter_entry] by simp
  with iter.hyps [OF ch a iter.prems(3,4)] have "jumpsTo ?c7 c8 (returnTo ctx)"
    by (simp add: tr)
  then show ?case unfolding e tr
    by (rule jumpsTo_widen)
      (simp_all add: prefix_ops_simps ctx_extends_ops [OF emitterCode_frame(1) [OF a], simplified])
qed

lemma jumpKind_simps:
  "jumpKind True astReturn returnTo" "jumpKind False astBreak breakTo"
  "jumpKind False astContinue continueTo"
  by (simp_all add: jumpKind_def)

lemma loop_body_jumps:
  assumes "emitterLoop X ctx block Node = Inr (k, ctx')"
    and "s \<in> set (stmtsOfCode False (loop_code Node))"
  shows "ast_tag s = astBreak \<Longrightarrow> jumpsTo ctx ctx' k"
    and "ast_tag s = astContinue \<Longrightarrow> jumpsTo ctx ctx' (Suc (Suc (Suc (blocks ctx))))"
proof -
  let ?c6 = "(loop_entry X ctx block Node)\<lparr>breakTo := Suc (blocks ctx),
               continueTo := Suc (Suc (Suc (blocks ctx)))\<rparr>"
  from assms(1) obtain c7
    where a: "emitterCode X ?c6 (Suc (Suc (blocks ctx))) (loop_code Node)
                (Suc (Suc (Suc (blocks ctx)))) = Inr c7"
      and k: "k = Suc (blocks ctx)"
      and e: "ctx' = loop_exit X ctx c7 Node"
    by (rule emitterLoop_Inr)
  have p: "prefix (ops ctx) (ops ?c6)" "prefix (ops ?c6) (ops c7)" "prefix (ops c7) (ops ctx')"
    using ctx_extends_ops [OF emitterCode_frame(1) [OF a]]
    by (simp_all add: prefix_ops_simps e)
  {
    assume "ast_tag s = astBreak"
    from stmt_jump(1) [OF jumpKind_simps(2) a assms(2) this]
    have "jumpsTo ?c6 c7 k" by (simp add: k)
    then show "jumpsTo ctx ctx' k" using p by (rule jumpsTo_widen)
  }
  {
    assume "ast_tag s = astContinue"
    from stmt_jump(1) [OF jumpKind_simps(3) a assms(2) this]
    have "jumpsTo ?c6 c7 (Suc (Suc (Suc (blocks ctx))))" by simp
    then show "jumpsTo ctx ctx' (Suc (Suc (Suc (blocks ctx))))" using p by (rule jumpsTo_widen)
  }
qed

lemma iter_body_jumps:
  assumes "emitterIter X ctx block Node = Inr (k, ctx')"
    and "s \<in> set (stmtsOfCode False (ast_l Node))"
  shows "ast_tag s = astBreak \<Longrightarrow> jumpsTo ctx ctx' k"
    and "ast_tag s = astContinue \<Longrightarrow> jumpsTo ctx ctx' (Suc (Suc (Suc (blocks ctx))))"
proof -
  from assms(1) obtain init cond after c8
    where ch: "ast_children Node = init # cond # after"
      and a: "emitterCode X ((iter_entry X ctx block init cond)\<lparr>breakTo := Suc (blocks ctx),
                  continueTo := Suc (Suc (Suc (blocks ctx)))\<rparr>)
                (Suc (Suc (blocks ctx))) (ast_l Node) (Suc (Suc (Suc (blocks ctx)))) = Inr c8"
      and k: "k = Suc (blocks ctx)"
      and e: "ctx' = iter_exit X ctx c8 cond after"
    by (rule emitterIter_Inr)
  let ?c7 = "(iter_entry X ctx block init cond)\<lparr>breakTo := Suc (blocks ctx),
                  continueTo := Suc (Suc (Suc (blocks ctx)))\<rparr>"
  have p: "prefix (ops ctx) (ops ?c7)" "prefix (ops ?c7) (ops c8)" "prefix (ops c8) (ops ctx')"
    using ctx_extends_ops [OF emitterCode_frame(1) [OF a]]
    by (simp_all add: prefix_ops_simps e)
  {
    assume "ast_tag s = astBreak"
    from stmt_jump(1) [OF jumpKind_simps(2) a assms(2) this]
    have "jumpsTo ?c7 c8 k" by (simp add: k)
    then show "jumpsTo ctx ctx' k" using p by (rule jumpsTo_widen)
  }
  {
    assume "ast_tag s = astContinue"
    from stmt_jump(1) [OF jumpKind_simps(3) a assms(2) this]
    have "jumpsTo ?c7 c8 (Suc (Suc (Suc (blocks ctx))))" by simp
    then show "jumpsTo ctx ctx' (Suc (Suc (Suc (blocks ctx))))" using p by (rule jumpsTo_widen)
  }
qed

lemma loop_exit_ops:
  "ops (loop_exit X ctx c7 Node) =
     ops c7 @ [EmitterBranchOnValue (Suc (Suc (Suc (blocks ctx)))) (loop_cond Node)
                 (Suc (Suc (blocks ctx))) (Suc (blocks ctx))]"
  by (simp add: loop_exit_def emitterBranchOnValue_def restoreTargets_def)

lemma iter_exit_ops:
  "ops (iter_exit X ctx c8 cond after) =
     ops c8 @ [EmitterValue (Some (Suc (Suc (Suc (blocks ctx))))) (iter_step after) requestVoid,
               EmitterBranchOnValue
                 (fst (snd (emitterValue X (restoreTargets ctx c8)
                              (Some (Suc (Suc (Suc (blocks ctx))))) (iter_step after) requestVoid)))
                 (Some cond) (Suc (Suc (blocks ctx))) (Suc (blocks ctx))]"
  by (simp add: iter_exit_def emitterBranchOnValue_def emitterValue_def restoreTargets_def
      Let_def case_prod_beta)

lemma fn_body_ctx_fields:
  "returnTo (fn_body_ctx X ctx fn0) = Suc (Suc (blocks ctx))"
  "breakTo (fn_body_ctx X ctx fn0) = breakTo ctx"
  "continueTo (fn_body_ctx X ctx fn0) = continueTo ctx"
  "arch (fn_body_ctx X ctx fn0) = arch ctx"
  "blocks (fn_body_ctx X ctx fn0) = Suc (Suc (blocks ctx))"
  "ops (fn_body_ctx X ctx fn0) =
     ops ctx @ [IrFnPrologue (Suc (blocks ctx))
                  (sym_label (fst (fn_layout X (arch ctx) fn0 (debug ctx @ [DebugEnter ''FnImpl'']))))
                  (- fst (snd (snd (fn_layout X (arch ctx) fn0
                                      (debug ctx @ [DebugEnter ''FnImpl''])))))]"
  by (simp_all add: fn_body_ctx_def irFnPrologue_def case_prod_beta)

declare lineNested.simps [simp del] codeNested.simps [simp del]

lemma noNullJump_simps:
  "noNullJump []" "noNullJump (xs @ ys) \<longleftrightarrow> noNullJump xs \<and> noNullJump ys"
  "noNullJump (IrJump b t # xs) \<longleftrightarrow> t \<noteq> 0 \<and> noNullJump xs"
  "noNullJump (EmitterBranchOnValue b c t f # xs) \<longleftrightarrow> noNullJump xs"
  "noNullJump (EmitterValue bo no r # xs) \<longleftrightarrow> noNullJump xs"
  "noNullJump (EmitterDecl bo N # xs) \<longleftrightarrow> noNullJump xs"
  "noNullJump (IrFnPrologue b l sz # xs) \<longleftrightarrow> noNullJump xs"
  "noNullJump (IrFnEpilogue b # xs) \<longleftrightarrow> noNullJump xs"
  "noNullJump (AsmMove o1 o2 # xs) \<longleftrightarrow> noNullJump xs"
  "noNullJump (RegAlloc sz # xs) \<longleftrightarrow> noNullJump xs"
  "noNullJump (RegRequest ri sz # xs) \<longleftrightarrow> noNullJump xs"
  "noNullJump (RegFree rg # xs) \<longleftrightarrow> noNullJump xs"
  "noNullJump (OperandFree o1 # xs) \<longleftrightarrow> noNullJump xs"
  by (simp_all add: noNullJump_def isNullJump_def)

lemma opsSince_append:
  assumes "prefix (ops a) (ops b)" "prefix (ops b) (ops c)"
  shows "opsSince a c = opsSince a b @ opsSince b c"
proof -
  from assms obtain d1 d2 where "ops b = ops a @ d1" "ops c = ops b @ d2"
    by (auto simp: prefix_def)
  then show ?thesis by (simp add: opsSince_def)
qed

lemma opsSince_self: "opsSince a a = []"
  by (simp add: opsSince_def)

lemma opsSince_app: "ops c = ops a @ d \<Longrightarrow> opsSince a c = d"
  by (simp add: opsSince_def)

lemma noNullJump_return_effects: "noNullJump (return_effects X ctx rn)"
  by (simp add: return_effects_def return_lowering_def Let_def noNullJump_simps)

lemma noNullJump_chain:
  assumes "prefix (ops a) (ops b)" "prefix (ops b) (ops c)"
    and "noNullJump (opsSince a b)" "noNullJump (opsSince b c)"
  shows "noNullJump (opsSince a c)"
  using assms(3,4) by (simp add: opsSince_append [OF assms(1,2)] noNullJump_simps)

lemma targetsOK_extends: "ctx_extends a b \<Longrightarrow> targetsOK inLoop a \<Longrightarrow> targetsOK inLoop b"
  by (simp add: targetsOK_def ctx_extends_targets)

lemma targetsOK_body:
  "targetsOK inLoop ctx \<Longrightarrow> ctx_extends ctx e \<Longrightarrow>
   targetsOK True (e\<lparr>breakTo := Suc (blocks ctx), continueTo := Suc (Suc (Suc (blocks ctx)))\<rparr>)"
  by (simp add: targetsOK_def ctx_extends_targets)

lemma branch_entry_ops:
  "ops (branch_entry X ctx block Node) =
     ops ctx @ [EmitterBranchOnValue block (firstChild Node) (Suc (Suc (blocks ctx)))
                  (Suc (Suc (Suc (blocks ctx))))]"
  by (simp add: branch_entry_def emitterBranchOnValue_def)

lemma loop_entry_ops:
  "ops (loop_entry X ctx block Node) =
     ops ctx @ [if loop_isDo Node then IrJump block (Suc (Suc (blocks ctx)))
                else EmitterBranchOnValue block (loop_cond Node) (Suc (Suc (blocks ctx)))
                       (Suc (blocks ctx))]"
  by (simp add: loop_entry_def emitterBranchOnValue_def irJump_def Let_def)

lemma iter_entry_ops:
  "ops (iter_entry X ctx block init cond) =
     ops ctx @ [if ast_tag init = astDecl then EmitterDecl (Some block) init
                else EmitterValue (Some block) (Some init) requestVoid,
                EmitterBranchOnValue (fst (iter_init X ctx block init)) (Some cond)
                  (Suc (Suc (blocks ctx))) (Suc (blocks ctx))]"
  by (simp add: iter_entry_def iter_init_def emitterBranchOnValue_def emitterDecl_def
      emitterValue_def Let_def case_prod_beta)

lemma noNull_between:
  assumes "ops b = ops a @ pre" "prefix (ops b) (ops c)" "ops d = ops c @ post"
    and "noNullJump pre" "noNullJump (opsSince b c)" "noNullJump post"
  shows "noNullJump (opsSince a d)"
proof -
  from assms(2) obtain m where "ops c = ops b @ m" by (auto simp: prefix_def)
  with assms show ?thesis by (simp add: opsSince_def noNullJump_simps)
qed

lemma nested_noNullJump:
  "emitterCode X ctx block Node k = Inr ctx' \<Longrightarrow> codeNested inLoop Node \<Longrightarrow>
     targetsOK inLoop ctx \<Longrightarrow> k \<noteq> 0 \<Longrightarrow> noNullJump (opsSince ctx ctx')"
  "emitterCode_loop X ctx block cs = Inr (b', ctx') \<Longrightarrow> list_all (lineNested inLoop) cs \<Longrightarrow>
     targetsOK inLoop ctx \<Longrightarrow> noNullJump (opsSince ctx ctx')"
  "emitterLine X ctx block N = Inr (b', ctx') \<Longrightarrow> lineNested inLoop N \<Longrightarrow>
     targetsOK inLoop ctx \<Longrightarrow> noNullJump (opsSince ctx ctx')"
  "emitterBranch X ctx block N = Inr (b', ctx') \<Longrightarrow>
     codeNested inLoop (ast_l N) \<Longrightarrow> codeNested inLoop (ast_r N) \<Longrightarrow>
     targetsOK inLoop ctx \<Longrightarrow> noNullJump (opsSince ctx ctx')"
  "emitterLoop X ctx block N = Inr (b', ctx') \<Longrightarrow> codeNested True (loop_code N) \<Longrightarrow>
     targetsOK inLoop ctx \<Longrightarrow> noNullJump (opsSince ctx ctx')"
  "emitterIter X ctx block N = Inr (b', ctx') \<Longrightarrow> codeNested True (ast_l N) \<Longrightarrow>
     targetsOK inLoop ctx \<Longrightarrow> noNullJump (opsSince ctx ctx')"
proof (induct X ctx block Node k and X ctx block cs and X ctx block N and X ctx block N
    and X ctx block N and X ctx block N
    arbitrary: ctx' inLoop and b' ctx' inLoop and b' ctx' inLoop and b' ctx' inLoop
      and b' ctx' inLoop and b' ctx' inLoop
    rule: emitter_induct)
  case (codeNone X ctx block k)
  then show ?case by (simp add: emitterCode.simps)
next
  case (codeSome X ctx block Node k)
  from codeSome.prems(1) obtain b1 c1
    where a: "emitterCode_loop X ctx block (ast_children Node) = Inr (b1, c1)"
      and e: "ctx' = irJump c1 b1 k"
    by (rule emitterCode_Some_Inr)
  from codeSome.prems(2) have "list_all (lineNested inLoop) (ast_children Node)"
    by (simp add: codeNested.simps)
  from codeSome.hyps [OF a this codeSome.prems(3)] have n: "noNullJump (opsSince ctx c1)" .
  have o0: "ops ctx = ops ctx @ []" by simp
  have o1: "ops ctx' = ops c1 @ [IrJump b1 k]" by (simp add: e irJump_def)
  show ?case
    by (rule noNull_between [OF o0 ctx_extends_ops [OF emitterCode_frame(2) [OF a]] o1 _ n])
      (simp_all add: codeSome.prems(4) noNullJump_simps)
next
  case (loopNil X ctx block)
  then show ?case by (simp add: emitterCode_loop.simps opsSince_self noNullJump_simps)
next
  case (loopCons X ctx block Current rest)
  from loopCons.prems(1) obtain b1 c1
    where a: "emitterLine X ctx block Current = Inr (b1, c1)"
      and b: "emitterCode_loop X c1 b1 rest = Inr (b', ctx')"
    by (rule emitterCode_loop_Cons_Inr)
  note fa = emitterCode_frame(3) [OF a] and fb = emitterCode_frame(2) [OF b]
  from loopCons.prems(2) have n: "lineNested inLoop Current" "list_all (lineNested inLoop) rest"
    by simp_all
  from loopCons.hyps(1) [OF a n(1) loopCons.prems(3)]
    loopCons.hyps(2) [OF a b n(2) targetsOK_extends [OF fa loopCons.prems(3)]]
  show ?case
    by (rule noNullJump_chain [OF ctx_extends_ops [OF fa] ctx_extends_ops [OF fb]])
next
  case (line X ctx block Node)
  let ?c = "debugEnter ctx (astTagGetStr X (ast_tag Node))"
  have tc: "targetsOK inLoop ?c"
    by (rule targetsOK_extends [OF ctx_extends_debugEnter line.prems(3)])
  note unf = lineNested.simps [of inLoop Node]
  have wrap: "noNullJump (opsSince ctx (debugLeave c))" if "noNullJump (opsSince ?c c)" for c
    using that by (simp add: opsSince_def debug_fields)
  from line.prems(1) show ?case
  proof (cases rule: emitterLine_Inr_cases)
    case (branch c)
    with line.prems(2) have "codeNested inLoop (ast_l Node)" "codeNested inLoop (ast_r Node)"
      by (simp_all add: unf)
    from line.hyps(1) [OF branch(1,2) this tc] show ?thesis
      unfolding branch(3) by (rule wrap)
  next
    case (loop c)
    with line.prems(2) have "codeNested True (loop_code Node)"
      by (simp add: unf)
    from line.hyps(2) [OF loop(1,2) this tc] show ?thesis
      unfolding loop(3) by (rule wrap)
  next
    case (iter c)
    with line.prems(2) have "codeNested True (ast_l Node)"
      by (simp add: unf)
    from line.hyps(3) [OF iter(1,2) this tc] show ?thesis
      unfolding iter(3) by (rule wrap)
  next
    case (code c)
    with line.prems(2) have n: "codeNested inLoop (Some Node)"
      by (simp add: unf)
    have "targetsOK inLoop (snd (irBlockCreate ?c))"
      by (rule targetsOK_extends [OF ctx_extends_irBlockCreate tc])
    from line.hyps(4) [OF code(1,2) n this]
    have "noNullJump (opsSince (snd (irBlockCreate ?c)) c)"
      by (simp add: irBlockCreate_def)
    then have "noNullJump (opsSince ?c c)"
      by (simp add: opsSince_def irBlockCreate_def)
    then show ?thesis unfolding code(4) by (rule wrap)
  next
    case return
    have "ops ctx' = ops ctx @
            (case ast_r Node of None \<Rightarrow> [] | Some rn \<Rightarrow> return_effects X ?c rn) @
            [IrJump block (returnTo ctx)]"
      by (simp add: return(3) emitterReturn_ops irBlockCreate_def debug_fields)
    with line.prems(3) show ?thesis
      by (simp add: opsSince_def noNullJump_simps noNullJump_return_effects targetsOK_def
          split: option.split)
  next
    case break
    with line.prems(2,3) have "breakTo ctx \<noteq> 0"
      by (simp add: unf targetsOK_def split: if_splits)
    then show ?thesis
      by (simp add: break(3) opsSince_def noNullJump_simps irBlockCreate_def debug_fields
          irJump_def)
  next
    case continue
    with line.prems(2,3) have "continueTo ctx \<noteq> 0"
      by (simp add: unf targetsOK_def split: if_splits)
    then show ?thesis
      by (simp add: continue(3) opsSince_def noNullJump_simps irBlockCreate_def debug_fields
          irJump_def)
  next
    case decl
    show ?thesis
      by (simp add: decl(3) opsSince_def noNullJump_simps debug_fields emitterDecl_def
          case_prod_beta)
  next
    case val
    show ?thesis
      by (simp add: val(4) opsSince_def noNullJump_simps debug_fields emitterValue_def
          case_prod_beta)
  next
    case empty
    show ?thesis
      by (simp add: empty(4) opsSince_def noNullJump_simps debug_fields)
  qed
next
  case (branch X ctx block Node)
  from branch.prems(1) obtain c5
    where a: "emitterCode X (branch_entry X ctx block Node) (Suc (Suc (blocks ctx))) (ast_l Node)
                (Suc (blocks ctx)) = Inr c5"
      and b: "emitterCode X c5 (Suc (Suc (Suc (blocks ctx)))) (ast_r Node) (Suc (blocks ctx)) = Inr ctx'"
    by (rule emitterBranch_Inr)
  note fa = emitterCode_frame(1) [OF a] and fb = emitterCode_frame(1) [OF b]
  have t1: "targetsOK inLoop (branch_entry X ctx block Node)"
    by (rule targetsOK_extends [OF ctx_extends_branch_entry branch.prems(4)])
  have t2: "targetsOK inLoop c5"
    by (rule targetsOK_extends [OF fa t1])
  have n1: "noNullJump (opsSince (branch_entry X ctx block Node) c5)"
    by (rule branch.hyps(1) [OF a branch.prems(2) t1]) simp
  have n2: "noNullJump (opsSince c5 ctx')"
    by (rule branch.hyps(2) [OF a b branch.prems(3) t2]) simp
  from n1 n2 have n: "noNullJump (opsSince (branch_entry X ctx block Node) ctx')"
    by (rule noNullJump_chain [OF ctx_extends_ops [OF fa] ctx_extends_ops [OF fb]])
  have o: "ops ctx' = ops ctx' @ []" by simp
  show ?case
    by (rule noNull_between [OF branch_entry_ops
          prefix_order.trans [OF ctx_extends_ops [OF fa] ctx_extends_ops [OF fb]] o _ n])
      (simp_all add: noNullJump_simps)
next
  case (loop X ctx block Node)
  let ?c6 = "(loop_entry X ctx block Node)\<lparr>breakTo := Suc (blocks ctx),
               continueTo := Suc (Suc (Suc (blocks ctx)))\<rparr>"
  from loop.prems(1) obtain c7
    where l: "ast_l Node \<noteq> None"
      and a: "emitterCode X ?c6 (Suc (Suc (blocks ctx))) (loop_code Node)
                (Suc (Suc (Suc (blocks ctx)))) = Inr c7"
      and e: "ctx' = loop_exit X ctx c7 Node"
    by (rule emitterLoop_Inr)
  have t: "targetsOK True ?c6"
    by (rule targetsOK_body [OF loop.prems(3) ctx_extends_loop_entry])
  from loop.hyps [OF l a loop.prems(2) t] have n: "noNullJump (opsSince ?c6 c7)" by simp
  have o6: "ops ?c6 = ops ctx @ [if loop_isDo Node then IrJump block (Suc (Suc (blocks ctx)))
                else EmitterBranchOnValue block (loop_cond Node) (Suc (Suc (blocks ctx)))
                       (Suc (blocks ctx))]"
    by (simp add: loop_entry_ops)
  have o7: "ops ctx' = ops c7 @ [EmitterBranchOnValue (Suc (Suc (Suc (blocks ctx))))
                (loop_cond Node) (Suc (Suc (blocks ctx))) (Suc (blocks ctx))]"
    by (simp add: e loop_exit_ops)
  show ?case
    by (rule noNull_between [OF o6 ctx_extends_ops [OF emitterCode_frame(1) [OF a]] o7 _ n])
      (simp_all add: noNullJump_simps)
next
  case (iter X ctx block Node)
  from iter.prems(1) obtain init cond after c8
    where ch: "ast_children Node = init # cond # after"
      and a: "emitterCode X ((iter_entry X ctx block init cond)\<lparr>breakTo := Suc (blocks ctx),
                  continueTo := Suc (Suc (Suc (blocks ctx)))\<rparr>)
                (Suc (Suc (blocks ctx))) (ast_l Node) (Suc (Suc (Suc (blocks ctx)))) = Inr c8"
      and e: "ctx' = iter_exit X ctx c8 cond after"
    by (rule emitterIter_Inr)
  let ?c7 = "(iter_entry X ctx block init cond)\<lparr>breakTo := Suc (blocks ctx),
                  continueTo := Suc (Suc (Suc (blocks ctx)))\<rparr>"
  have t: "targetsOK True ?c7"
    by (rule targetsOK_body [OF iter.prems(3) ctx_extends_iter_entry])
  from iter.hyps [OF ch a iter.prems(2) t] have n: "noNullJump (opsSince ?c7 c8)" by simp
  have o7: "ops ?c7 = ops ctx @ [if ast_tag init = astDecl then EmitterDecl (Some block) init
                else EmitterValue (Some block) (Some init) requestVoid,
                EmitterBranchOnValue (fst (iter_init X ctx block init)) (Some cond)
                  (Suc (Suc (blocks ctx))) (Suc (blocks ctx))]"
    by (simp add: iter_entry_ops)
  note o8 = iter_exit_ops [of X ctx c8 cond after, folded e]
  show ?case
    by (rule noNull_between [OF o7 ctx_extends_ops [OF emitterCode_frame(1) [OF a]] o8 _ n])
      (simp_all add: noNullJump_simps)
qed

lemma scope_closed_form:
  "emitterScopeAssignOffsets X a S offset dbg =
     (scopeAssigned X a S offset, offset - localsSize X a S, dbg @ scopeReports X a S offset)"
  "emitterScopeAssignOffsets_loop X a cs offset dbg =
     (scopeAssigned_list X a cs offset, offset - localsSize_list X a cs,
      dbg @ scopeReports_list X a cs offset)"
  by (induct X a S offset dbg and X a cs offset dbg
      rule: emitterScopeAssignOffsets_emitterScopeAssignOffsets_loop.induct)
    (simp_all add: Let_def)

lemma localsSize_children: "localsSize X a S = localsSize_list X a (sym_children S)"
  by (cases S) simp

lemma scopeAssigned_fields:
  "sym_tag (scopeAssigned X a S offset) = sym_tag S"
  "sym_dt (scopeAssigned X a S offset) = sym_dt S"
  "sym_offset (scopeAssigned X a S offset) = sym_offset S"
  "sym_label (scopeAssigned X a S offset) = sym_label S"
  "sym_children (scopeAssigned X a S offset) = scopeAssigned_list X a (sym_children S) offset"
  by (cases S; simp)+

lemma scopeAssigned_length: "length (scopeAssigned_list X a cs offset) = length cs"
  by (induct cs arbitrary: offset) simp_all

lemma localsSize_list_append:
  "localsSize_list X a (xs @ ys) = localsSize_list X a xs + localsSize_list X a ys"
  by (induct xs) simp_all

lemma scopeAssigned_nth:
  "i < length cs \<Longrightarrow>
   scopeAssigned_list X a cs offset ! i =
     (if sym_tag (cs ! i) = symScope then
        scopeAssigned X a (cs ! i) (offset - localsSize_list X a (take i cs))
      else if sym_tag (cs ! i) = symId then
        sym_set_offset (cs ! i)
          (offset - localsSize_list X a (take i cs) - typeGetSize X a (sym_dt (cs ! i)))
      else cs ! i)"
proof (induct cs arbitrary: offset i)
  case Nil
  then show ?case by simp
next
  case (Cons c cs)
  show ?case
  proof (cases i)
    case 0
    then show ?thesis by simp
  next
    case (Suc j)
    with Cons.prems have j: "j < length cs" by simp
    show ?thesis
      using Cons.hyps [OF j] by (simp add: Suc diff_diff_eq)
  qed
qed

lemma sym_set_offset_fields:
  "sym_tag (sym_set_offset s v) = sym_tag s" "sym_dt (sym_set_offset s v) = sym_dt s"
  "sym_children (sym_set_offset s v) = sym_children s" "sym_offset (sym_set_offset s v) = v"
  "sym_label (sym_set_offset s v) = sym_label s"
  by (simp_all add: sym_set_offset_def)

lemma sint_diff_nowrap:
  fixes x y :: int32
  assumes "0 \<le> sint y" "- (2 ^ 31) \<le> sint x - sint y"
  shows "sint (x - y) = sint x - sint y"
proof -
  have "sint x < 2 ^ 31" using sint_lt [of x] by simp
  with assms have "sint x - sint y < 2 ^ 31" by simp
  with assms(2) show ?thesis
    by (simp add: sint_word_diff signed_take_bit_int_eq_self)
qed

lemma localsSizeInt_nonneg:
  "sizesNonneg X a S \<Longrightarrow> 0 \<le> localsSizeInt X a S"
  "sizesNonneg_list X a cs \<Longrightarrow> 0 \<le> localsSizeInt_list X a cs"
  by (induct X a S and X a cs rule: localsSizeInt_localsSizeInt_list.induct)
    (auto simp: word_sle_eq)

lemma scope_no_wrap:
  "sizesNonneg X a S \<Longrightarrow> - (2 ^ 31) \<le> sint offset - localsSizeInt X a S \<Longrightarrow>
   sint (offset - localsSize X a S) = sint offset - localsSizeInt X a S \<and>
   (\<forall>v \<in> set (idOffsets (scopeAssigned X a S offset)).
      sint offset - localsSizeInt X a S \<le> sint v \<and> sint v \<le> sint offset)"
  "sizesNonneg_list X a cs \<Longrightarrow> - (2 ^ 31) \<le> sint offset - localsSizeInt_list X a cs \<Longrightarrow>
   sint (offset - localsSize_list X a cs) = sint offset - localsSizeInt_list X a cs \<and>
   (\<forall>v \<in> set (idOffsets_list (scopeAssigned_list X a cs offset)).
      sint offset - localsSizeInt_list X a cs \<le> sint v \<and> sint v \<le> sint offset)"
proof (induct X a S and X a cs arbitrary: offset and offset
    rule: localsSize_localsSize_list.induct)
  case (1 X a t d cs off lbl)
  then show ?case by simp
next
  case (2 X a)
  then show ?case by simp
next
  case (3 X a Symbol rest)
  from "3.prems"(1) have r: "sizesNonneg_list X a rest" by simp
  note rn = localsSizeInt_nonneg(2) [OF r]
  show ?case
  proof (cases "sym_tag Symbol = symScope")
    case True
    from "3.prems"(1) True have s: "sizesNonneg X a Symbol" by simp
    note sn = localsSizeInt_nonneg(1) [OF s]
    from "3.prems"(2) True rn
    have b: "- (2 ^ 31) \<le> sint offset - localsSizeInt X a Symbol" by simp
    note h = "3.hyps"(1) [OF True s b]
    from "3.prems"(2) True h
    have b2: "- (2 ^ 31) \<le> sint (offset - localsSize X a Symbol) - localsSizeInt_list X a rest"
      by simp
    note h2 = "3.hyps"(2) [OF r b2]
    from h h2 sn rn True show ?thesis
      by (auto simp: diff_diff_eq scopeAssigned_fields)
  next
    case False
    note ns = this
    show ?thesis
    proof (cases "sym_tag Symbol = symId")
      case True
      let ?s = "typeGetSize X a (sym_dt Symbol)"
      from "3.prems"(1) True ns have s: "0 \<le> sint ?s" by (simp add: word_sle_eq)
      from "3.prems"(2) True ns rn
      have b: "- (2 ^ 31) \<le> sint offset - sint ?s" by simp
      note h = sint_diff_nowrap [OF s b]
      from "3.prems"(2) True ns h
      have b2: "- (2 ^ 31) \<le> sint (offset - ?s) - localsSizeInt_list X a rest" by simp
      note h2 = "3.hyps"(2) [OF r b2]
      from h h2 s rn True ns show ?thesis
        by (auto simp: diff_diff_eq sym_set_offset_fields)
    next
      case False
      from "3.prems"(2) False ns
      have b2: "- (2 ^ 31) \<le> sint offset - localsSizeInt_list X a rest" by simp
      note h2 = "3.hyps"(2) [OF r b2]
      from h2 False ns show ?thesis by (auto simp: sym_set_offset_fields)
    qed
  qed
qed

lemma params_closed_form:
  "emitterFnImpl_params X a cs start dbg = (cs', lastOffset, dbg') \<Longrightarrow>
   length cs' = length cs \<and>
   (\<forall>i < length (leadingParams cs).
      cs' ! i = sym_set_offset (cs ! i) (start + paramSizes X a (take i cs))) \<and>
   (\<forall>i. length (leadingParams cs) \<le> i \<longrightarrow> i < length cs \<longrightarrow> cs' ! i = cs ! i) \<and>
   lastOffset = start + paramSizes X a (leadingParams cs) \<and>
   dbg' = dbg @ map ReportSymbol (take (length (leadingParams cs)) cs')"
proof (induct cs arbitrary: start dbg cs' lastOffset dbg')
  case Nil
  then show ?case by (simp add: leadingParams_def paramSizes_def)
next
  case (Cons c cs)
  show ?case
  proof (cases "sym_tag c = symParam")
    case False
    with Cons.prems show ?thesis by (auto simp: leadingParams_def paramSizes_def)
  next
    case True
    obtain r l d where
      e: "emitterFnImpl_params X a cs (start + typeGetSize X a (sym_dt c))
            (dbg @ [ReportSymbol (sym_set_offset c start)]) = (r, l, d)"
      by (cases "emitterFnImpl_params X a cs (start + typeGetSize X a (sym_dt c))
            (dbg @ [ReportSymbol (sym_set_offset c start)])") auto
    from Cons.prems True e have c': "cs' = sym_set_offset c start # r" and l: "lastOffset = l"
      and d: "dbg' = d" by (simp_all add: Let_def)
    note h = Cons.hyps [OF e]
    have n: "\<And>i. i < length (leadingParams (c # cs)) \<Longrightarrow>
        cs' ! i = sym_set_offset ((c # cs) ! i) (start + paramSizes X a (take i (c # cs)))"
    proof -
      fix i assume i: "i < length (leadingParams (c # cs))"
      show "cs' ! i = sym_set_offset ((c # cs) ! i) (start + paramSizes X a (take i (c # cs)))"
      proof (cases i)
        case 0
        then show ?thesis by (simp add: c' paramSizes_def)
      next
        case (Suc j)
        with i True have "j < length (leadingParams cs)" by (simp add: leadingParams_def)
        with h have "r ! j = sym_set_offset (cs ! j)
            (start + typeGetSize X a (sym_dt c) + paramSizes X a (take j cs))" by simp
        then show ?thesis by (simp add: Suc c' paramSizes_def add.assoc)
      qed
    qed
    have m: "\<And>i. length (leadingParams (c # cs)) \<le> i \<Longrightarrow> i < length (c # cs) \<Longrightarrow>
        cs' ! i = (c # cs) ! i"
    proof -
      fix i assume i: "length (leadingParams (c # cs)) \<le> i" "i < length (c # cs)"
      from i(1) True obtain j where j: "i = Suc j" "length (leadingParams cs) \<le> j"
        by (cases i) (simp_all add: leadingParams_def)
      with i(2) h show "cs' ! i = (c # cs) ! i" by (simp add: c')
    qed
    from h True show ?thesis
      using n m by (simp add: c' l d leadingParams_def paramSizes_def add.assoc)
  qed
qed

lemma params_localsSize:
  "localsSize_list X a (fst (emitterFnImpl_params X a cs start dbg)) = localsSize_list X a cs"
  by (induct cs arbitrary: start dbg)
    (simp_all add: Let_def case_prod_beta sym_set_offset_fields)

lemma sym_set_fields:
  "sym_children (sym_set_children s cs) = cs" "sym_tag (sym_set_children s cs) = sym_tag s"
  "sym_dt (sym_set_children s cs) = sym_dt s" "sym_label (sym_set_children s cs) = sym_label s"
  "sym_offset (sym_set_children s cs) = sym_offset s"
  "sym_children (sym_set_label s l) = sym_children s" "sym_tag (sym_set_label s l) = sym_tag s"
  "sym_dt (sym_set_label s l) = sym_dt s" "sym_label (sym_set_label s l) = l"
  "sym_offset (sym_set_label s l) = sym_offset s"
  by (simp_all add: sym_set_children_def sym_set_label_def)

lemma fn_labelled_fields:
  "sym_children (fn_labelled X fn0) = sym_children fn0" "sym_dt (fn_labelled X fn0) = sym_dt fn0"
  "sym_tag (fn_labelled X fn0) = sym_tag fn0"
  by (simp_all add: fn_labelled_def sym_set_fields)

lemma fn_layout_closed_form:
  "fn_layout X a fn0 dbg0 =
     (scopeAssigned X a
        (sym_set_children (fn_labelled X fn0)
           (fst (emitterFnImpl_params X a (sym_children fn0) (paramStart X a fn0) dbg0))) 0,
      fst (snd (emitterFnImpl_params X a (sym_children fn0) (paramStart X a fn0) dbg0)),
      - localsSize X a fn0,
      snd (snd (emitterScopeAssignOffsets X a
        (sym_set_children (fn_labelled X fn0)
           (fst (emitterFnImpl_params X a (sym_children fn0) (paramStart X a fn0) dbg0))) 0
        (snd (snd (emitterFnImpl_params X a (sym_children fn0) (paramStart X a fn0) dbg0))))))"
proof -
  have s: "(if wordsize a <s typeGetSize X a (typeGetReturn X (sym_dt (fn_labelled X fn0)))
            then 2 * wordsize a + wordsize a else 2 * wordsize a) = paramStart X a fn0"
    by (simp add: paramStart_def fn_labelled_fields)
  show ?thesis
    unfolding fn_layout_def fn_labelled_def [symmetric] Let_def s
    by (simp add: case_prod_beta scope_closed_form fn_labelled_fields localsSize_children
        sym_set_fields params_localsSize)
qed

lemma localsSize_list_take_Suc:
  "i < length cs \<Longrightarrow>
   localsSize_list X a (take (Suc i) cs) =
     localsSize_list X a (take i cs) +
     (if sym_tag (cs ! i) = symScope then localsSize X a (cs ! i)
      else if sym_tag (cs ! i) = symId then typeGetSize X a (sym_dt (cs ! i))
      else 0)"
  by (simp add: take_Suc_conv_app_nth localsSize_list_append)

lemma leadingParams_tag:
  assumes "i < length (leadingParams cs)"
  shows "sym_tag (cs ! i) = symParam"
proof -
  let ?P = "\<lambda>s. sym_tag s = symParam"
  from assms have i: "i < length (takeWhile ?P cs)" by (simp add: leadingParams_def)
  then have "takeWhile ?P cs ! i \<in> set (takeWhile ?P cs)" by (rule nth_mem)
  then have "?P (takeWhile ?P cs ! i)" by (rule set_takeWhileD [THEN conjunct2])
  with takeWhile_nth [OF i] show ?thesis by simp
qed

lemma leadingParams_length: "length (leadingParams cs) \<le> length cs"
  unfolding leadingParams_def by (rule length_takeWhile_le)

declare lineCalls.simps [simp del] codeCalls.simps [simp del] codeCalls_loop.simps [simp del]

lemma callsOK_simps:
  "callsOK X inner ctx ctx' []"
  "callsOK X inner ctx ctx' (xs @ ys) \<longleftrightarrow> callsOK X inner ctx ctx' xs \<and> callsOK X inner ctx ctx' ys"
  "callsOK X inner ctx ctx' (q # qs) \<longleftrightarrow> callOK X inner ctx ctx' q \<and> callsOK X inner ctx ctx' qs"
  by (auto simp: callsOK_def)

lemma callsOK_widen:
  assumes "callsOK X inner c1 c1' qs"
    and "returnTo c1 = returnTo ctx"
    and "\<not> inner \<Longrightarrow> breakTo c1 = breakTo ctx \<and> continueTo c1 = continueTo ctx"
    and "prefix (ops ctx) (ops c1)" and "prefix (ops c1') (ops ctx')"
  shows "callsOK X inner ctx ctx' qs"
  unfolding callsOK_def callOK_def
proof (intro ballI conjI impI)
  fix q assume q: "q \<in> set qs"
  with assms(1) have h: "callOK X inner c1 c1' q" by (simp add: callsOK_def)
  from h assms(2) show "returnTo (fst q) = returnTo ctx" by (simp add: callOK_def)
  from h assms(4) show "prefix (ops ctx) (ops (fst q))"
    by (auto simp: callOK_def intro: prefix_order.trans)
  from h assms(5)
  show "\<exists>k2 c2. emitterLine X (fst q) (fst (snd q)) (snd (snd q)) = Inr (k2, c2) \<and>
              prefix (ops c2) (ops ctx')"
    by (auto simp: callOK_def intro: prefix_order.trans)
  {
    assume n: "\<not> inner"
    from h n assms(3) [OF n] show "breakTo (fst q) = breakTo ctx" by (simp add: callOK_def)
    from h n assms(3) [OF n] show "continueTo (fst q) = continueTo ctx" by (simp add: callOK_def)
  }
qed

lemma callsOK_extends:
  assumes "callsOK X inner c1 c1' qs" and "ctx_extends ctx c1" and "prefix (ops c1') (ops ctx')"
  shows "callsOK X inner ctx ctx' qs"
  using assms(1) _ _ _ assms(3)
  by (rule callsOK_widen)
    (simp_all add: ctx_extends_targets [OF assms(2)] ctx_extends_ops [OF assms(2)])

lemma calls_sound:
  "emitterCode X ctx block Node k = Inr ctx' \<Longrightarrow>
     callsOK X inner ctx ctx' (codeCalls X inner ctx block Node) \<and>
     map (\<lambda>q. snd (snd q)) (codeCalls X inner ctx block Node) = stmtsOfCode inner Node"
  "emitterCode_loop X ctx block cs = Inr (b', ctx') \<Longrightarrow>
     callsOK X inner ctx ctx' (codeCalls_loop X inner ctx block cs) \<and>
     map (\<lambda>q. snd (snd q)) (codeCalls_loop X inner ctx block cs) =
       concat (map (stmtsOfLine inner) cs)"
  "emitterLine X ctx block N = Inr (b', ctx') \<Longrightarrow>
     callsOK X inner ctx ctx' (lineCalls X inner ctx block N) \<and>
     map (\<lambda>q. snd (snd q)) (lineCalls X inner ctx block N) = stmtsOfLine inner N"
  "emitterBranch X ctx block N = Inr (b', ctx') \<Longrightarrow>
     (\<exists>ctx5. emitterCode X (branch_entry X ctx block N) (Suc (Suc (blocks ctx))) (ast_l N)
               (Suc (blocks ctx)) = Inr ctx5 \<and>
       callsOK X inner ctx ctx'
         (codeCalls X inner (branch_entry X ctx block N) (Suc (Suc (blocks ctx))) (ast_l N) @
          codeCalls X inner ctx5 (Suc (Suc (Suc (blocks ctx)))) (ast_r N)) \<and>
       map (\<lambda>q. snd (snd q))
         (codeCalls X inner (branch_entry X ctx block N) (Suc (Suc (blocks ctx))) (ast_l N) @
          codeCalls X inner ctx5 (Suc (Suc (Suc (blocks ctx)))) (ast_r N)) =
       stmtsOfCode inner (ast_l N) @ stmtsOfCode inner (ast_r N))"
  "emitterLoop X ctx block N = Inr (b', ctx') \<Longrightarrow> inner \<Longrightarrow>
     callsOK X inner ctx ctx'
       (codeCalls X inner
          ((loop_entry X ctx block N)\<lparr>breakTo := Suc (blocks ctx),
                                       continueTo := Suc (Suc (Suc (blocks ctx)))\<rparr>)
          (Suc (Suc (blocks ctx))) (loop_code N)) \<and>
     map (\<lambda>q. snd (snd q))
       (codeCalls X inner
          ((loop_entry X ctx block N)\<lparr>breakTo := Suc (blocks ctx),
                                       continueTo := Suc (Suc (Suc (blocks ctx)))\<rparr>)
          (Suc (Suc (blocks ctx))) (loop_code N)) = stmtsOfCode inner (loop_code N)"
  "emitterIter X ctx block N = Inr (b', ctx') \<Longrightarrow> inner \<Longrightarrow>
     (\<exists>init cond after. ast_children N = init # cond # after \<and>
       callsOK X inner ctx ctx'
         (codeCalls X inner
            ((iter_entry X ctx block init cond)\<lparr>breakTo := Suc (blocks ctx),
                                                  continueTo := Suc (Suc (Suc (blocks ctx)))\<rparr>)
            (Suc (Suc (blocks ctx))) (ast_l N)) \<and>
       map (\<lambda>q. snd (snd q))
         (codeCalls X inner
            ((iter_entry X ctx block init cond)\<lparr>breakTo := Suc (blocks ctx),
                                                  continueTo := Suc (Suc (Suc (blocks ctx)))\<rparr>)
            (Suc (Suc (blocks ctx))) (ast_l N)) = stmtsOfCode inner (ast_l N))"
proof (induct X ctx block Node k and X ctx block cs and X ctx block N and X ctx block N
    and X ctx block N and X ctx block N
    arbitrary: ctx' and b' ctx' and b' ctx' and b' ctx' and b' ctx' and b' ctx'
    rule: emitter_induct)
  case (codeNone X ctx block k)
  then show ?case by (simp add: emitterCode.simps)
next
  case (codeSome X ctx block Node k)
  from codeSome.prems(1) obtain b1 c1
    where a: "emitterCode_loop X ctx block (ast_children Node) = Inr (b1, c1)"
      and e: "ctx' = irJump c1 b1 k"
    by (rule emitterCode_Some_Inr)
  note h = codeSome.hyps [OF a]
  have "callsOK X inner ctx ctx' (codeCalls_loop X inner ctx block (ast_children Node))"
    by (rule callsOK_extends [OF h [THEN conjunct1] ctx_extends_refl])
      (simp add: e prefix_ops_simps)
  with h show ?case by (simp add: codeCalls.simps stmtsOfCode.simps)
next
  case (loopNil X ctx block)
  then show ?case by (simp add: codeCalls_loop.simps callsOK_simps)
next
  case (loopCons X ctx block Current rest)
  from loopCons.prems(1) obtain b1 c1
    where a: "emitterLine X ctx block Current = Inr (b1, c1)"
      and b: "emitterCode_loop X c1 b1 rest = Inr (b', ctx')"
    by (rule emitterCode_loop_Cons_Inr)
  note fa = emitterCode_frame(3) [OF a] and fb = emitterCode_frame(2) [OF b]
  note h1 = loopCons.hyps(1) [OF a] and h2 = loopCons.hyps(2) [OF a b]
  have 1: "callsOK X inner ctx ctx' (lineCalls X inner ctx block Current)"
    by (rule callsOK_extends [OF h1 [THEN conjunct1] ctx_extends_refl])
      (rule ctx_extends_ops [OF fb])
  have 2: "callsOK X inner ctx ctx' (codeCalls_loop X inner c1 b1 rest)"
    by (rule callsOK_extends [OF h2 [THEN conjunct1] fa]) simp
  from 1 2 h1 h2 show ?case
    by (simp add: codeCalls_loop.simps(2) [of X inner ctx block Current rest] a callsOK_simps)
next
  case (line X ctx block Node)
  let ?c = "debugEnter ctx (astTagGetStr X (ast_tag Node))"
  note unf = stmtsOfLine.simps [of inner Node]
  note cunf = lineCalls.simps [of X inner ctx block Node]
  have hd: "callOK X inner ctx ctx' (ctx, block, Node)"
    using line.prems(1) by (auto simp: callOK_def)
  from line.prems(1) show ?case
  proof (cases rule: emitterLine_Inr_cases)
    case (branch c)
    from line.hyps(1) [OF branch(1,2)] obtain ctx5 where
      e: "emitterCode X (branch_entry X ?c block Node) (Suc (Suc (blocks ?c))) (ast_l Node)
               (Suc (blocks ?c)) = Inr ctx5"
      and o: "callsOK X inner ?c c
         (codeCalls X inner (branch_entry X ?c block Node) (Suc (Suc (blocks ?c))) (ast_l Node) @
          codeCalls X inner ctx5 (Suc (Suc (Suc (blocks ?c)))) (ast_r Node))"
      and m: "map (\<lambda>q. snd (snd q))
         (codeCalls X inner (branch_entry X ?c block Node) (Suc (Suc (blocks ?c))) (ast_l Node) @
          codeCalls X inner ctx5 (Suc (Suc (Suc (blocks ?c)))) (ast_r Node)) =
       stmtsOfCode inner (ast_l Node) @ stmtsOfCode inner (ast_r Node)"
      by blast
    have "callsOK X inner ctx ctx'
         (codeCalls X inner (branch_entry X ?c block Node) (Suc (Suc (blocks ?c))) (ast_l Node) @
          codeCalls X inner ctx5 (Suc (Suc (Suc (blocks ?c)))) (ast_r Node))"
      by (rule callsOK_extends [OF o ctx_extends_debugEnter])
        (simp add: branch(3) prefix_ops_simps)
    with hd m branch(1) e show ?thesis
      by (simp add: cunf unf callsOK_simps Let_def)
  next
    case (loop c)
    show ?thesis
    proof (cases inner)
      case False
      with hd loop(1) show ?thesis
        by (simp add: lineCalls.simps [of X False] stmtsOfLine.simps [of False] callsOK_simps
            Let_def)
    next
      case True
      from loop(2) have l: "ast_l Node \<noteq> None" by (rule emitterLoop_Inr)
      note h = line.hyps(2) [OF loop(1,2) True]
      have "callsOK X inner ctx ctx'
       (codeCalls X inner
          ((loop_entry X ?c block Node)\<lparr>breakTo := Suc (blocks ?c),
                                       continueTo := Suc (Suc (Suc (blocks ?c)))\<rparr>)
          (Suc (Suc (blocks ?c))) (loop_code Node))"
        by (rule callsOK_extends [OF h [THEN conjunct1] ctx_extends_debugEnter])
          (simp add: loop(3) prefix_ops_simps)
      with hd h loop(1) l True show ?thesis
        by (auto simp: lineCalls.simps [of X True] stmtsOfLine.simps [of True] callsOK_simps
            Let_def)
    qed
  next
    case (iter c)
    show ?thesis
    proof (cases inner)
      case False
      with hd iter(1) show ?thesis
        by (simp add: lineCalls.simps [of X False] stmtsOfLine.simps [of False] callsOK_simps
            Let_def)
    next
      case True
      from line.hyps(3) [OF iter(1,2) True] obtain init cond after where
        ch: "ast_children Node = init # cond # after"
        and o: "callsOK X inner ?c c
         (codeCalls X inner
            ((iter_entry X ?c block init cond)\<lparr>breakTo := Suc (blocks ?c),
                                                  continueTo := Suc (Suc (Suc (blocks ?c)))\<rparr>)
            (Suc (Suc (blocks ?c))) (ast_l Node))"
        and m: "map (\<lambda>q. snd (snd q))
         (codeCalls X inner
            ((iter_entry X ?c block init cond)\<lparr>breakTo := Suc (blocks ?c),
                                                  continueTo := Suc (Suc (Suc (blocks ?c)))\<rparr>)
            (Suc (Suc (blocks ?c))) (ast_l Node)) = stmtsOfCode inner (ast_l Node)"
        by blast
      have "callsOK X inner ctx ctx'
         (codeCalls X inner
            ((iter_entry X ?c block init cond)\<lparr>breakTo := Suc (blocks ?c),
                                                  continueTo := Suc (Suc (Suc (blocks ?c)))\<rparr>)
            (Suc (Suc (blocks ?c))) (ast_l Node))"
        by (rule callsOK_extends [OF o ctx_extends_debugEnter])
          (simp add: iter(3) prefix_ops_simps)
      with hd m iter(1) ch True show ?thesis
        by (simp add: lineCalls.simps [of X True] stmtsOfLine.simps [of True] callsOK_simps
            Let_def)
    qed
  next
    case (code c)
    note h = line.hyps(4) [OF code(1,2)]
    have "ctx_extends ctx (snd (irBlockCreate ?c))"
      by (rule ctx_extends_back(5) [OF ctx_extends_debugEnter])
    then have "callsOK X inner ctx ctx' (codeCalls X inner (snd (irBlockCreate ?c)) block (Some Node))"
      by (rule callsOK_extends [OF h [THEN conjunct1]]) (simp add: code(4) prefix_ops_simps)
    with hd h code(1) show ?thesis
      by (simp add: cunf unf callsOK_simps Let_def)
  next
    case return
    with hd show ?thesis by (simp add: cunf unf callsOK_simps Let_def)
  next
    case break
    with hd show ?thesis by (simp add: cunf unf callsOK_simps Let_def)
  next
    case continue
    with hd show ?thesis by (simp add: cunf unf callsOK_simps Let_def)
  next
    case decl
    with hd show ?thesis by (simp add: cunf unf callsOK_simps Let_def)
  next
    case val
    with hd show ?thesis by (auto simp: cunf unf callsOK_simps Let_def statementTag_def)
  next
    case empty
    with hd show ?thesis by (simp add: cunf unf callsOK_simps Let_def)
  qed
next
  case (branch X ctx block Node)
  from branch.prems(1) obtain c5
    where a: "emitterCode X (branch_entry X ctx block Node) (Suc (Suc (blocks ctx))) (ast_l Node)
                (Suc (blocks ctx)) = Inr c5"
      and b: "emitterCode X c5 (Suc (Suc (Suc (blocks ctx)))) (ast_r Node) (Suc (blocks ctx)) = Inr ctx'"
    by (rule emitterBranch_Inr)
  note fa = emitterCode_frame(1) [OF a] and fb = emitterCode_frame(1) [OF b]
  note h1 = branch.hyps(1) [OF a] and h2 = branch.hyps(2) [OF a b]
  have 1: "callsOK X inner ctx ctx'
      (codeCalls X inner (branch_entry X ctx block Node) (Suc (Suc (blocks ctx))) (ast_l Node))"
    by (rule callsOK_extends [OF h1 [THEN conjunct1] ctx_extends_branch_entry])
      (rule ctx_extends_ops [OF fb])
  have 2: "callsOK X inner ctx ctx'
      (codeCalls X inner c5 (Suc (Suc (Suc (blocks ctx)))) (ast_r Node))"
    by (rule callsOK_extends [OF h2 [THEN conjunct1]
          ctx_extends_trans [OF ctx_extends_branch_entry fa]]) simp
  from 1 2 h1 h2 a show ?case by (simp add: callsOK_simps)
next
  case (loop X ctx block Node)
  from loop.prems(1) obtain c7 where l: "ast_l Node \<noteq> None"
    and a: "emitterCode X ((loop_entry X ctx block Node)\<lparr>breakTo := Suc (blocks ctx),
         continueTo := Suc (Suc (Suc (blocks ctx)))\<rparr>)
       (Suc (Suc (blocks ctx))) (loop_code Node) (Suc (Suc (Suc (blocks ctx)))) = Inr c7"
    and e: "ctx' = loop_exit X ctx c7 Node"
    by (rule emitterLoop_Inr)
  note h = loop.hyps [OF l a]
  have "callsOK X inner ctx ctx'
       (codeCalls X inner
          ((loop_entry X ctx block Node)\<lparr>breakTo := Suc (blocks ctx),
                                       continueTo := Suc (Suc (Suc (blocks ctx)))\<rparr>)
          (Suc (Suc (blocks ctx))) (loop_code Node))"
    using h [THEN conjunct1]
    by (rule callsOK_widen)
      (simp_all add: ctx_extends_targets [OF ctx_extends_loop_entry] loop.prems(2)
        prefix_ops_simps e)
  with h show ?case by simp
next
  case (iter X ctx block Node)
  from iter.prems(1) obtain init cond after c8 where
    ch: "ast_children Node = init # cond # after"
    and a: "emitterCode X ((iter_entry X ctx block init cond)\<lparr>breakTo := Suc (blocks ctx),
         continueTo := Suc (Suc (Suc (blocks ctx)))\<rparr>)
       (Suc (Suc (blocks ctx))) (ast_l Node) (Suc (Suc (Suc (blocks ctx)))) = Inr c8"
    and e: "ctx' = iter_exit X ctx c8 cond after"
    by (rule emitterIter_Inr)
  note h = iter.hyps [OF ch a]
  have "callsOK X inner ctx ctx'
       (codeCalls X inner
          ((iter_entry X ctx block init cond)\<lparr>breakTo := Suc (blocks ctx),
                                                continueTo := Suc (Suc (Suc (blocks ctx)))\<rparr>)
          (Suc (Suc (blocks ctx))) (ast_l Node))"
    using h [THEN conjunct1]
    by (rule callsOK_widen)
      (simp_all add: ctx_extends_targets [OF ctx_extends_iter_entry] iter.prems(2)
        prefix_ops_simps e)
  with h ch show ?case by simp
qed

lemma emitterLine_jump_result:
  "ast_tag N = astBreak \<Longrightarrow>
     \<exists>c'. emitterLine X c b N = Inr (Suc (blocks c), c') \<and>
          ops c' = ops c @ [IrJump b (breakTo c)]"
  "ast_tag N = astContinue \<Longrightarrow>
     \<exists>c'. emitterLine X c b N = Inr (Suc (blocks c), c') \<and>
          ops c' = ops c @ [IrJump b (continueTo c)]"
  "ast_tag N = astReturn \<Longrightarrow>
     \<exists>c'. emitterLine X c b N = Inr (blocks c', c') \<and>
          ops c' = ops c @
            (case ast_r N of None \<Rightarrow> []
             | Some rn \<Rightarrow> return_effects X (debugEnter c (astTagGetStr X astReturn)) rn) @
            [IrJump b (returnTo c)]"
  by (simp_all add: emitterLine_Break emitterLine_Continue emitterLine_Return Let_def
      irBlockCreate_def irJump_def debug_fields emitterReturn_ops)

lemma call_jump:
  assumes "callsOK X inner c0 c1 qs" and "(c, b, s) \<in> set qs"
  shows "ast_tag s = astReturn \<Longrightarrow>
     \<exists>c'. emitterLine X c b s = Inr (blocks c', c') \<and>
          ops c' = ops c @
            (case ast_r s of None \<Rightarrow> []
             | Some rn \<Rightarrow> return_effects X (debugEnter c (astTagGetStr X astReturn)) rn) @
            [IrJump b (returnTo c0)] \<and>
          prefix (ops c0) (ops c) \<and> prefix (ops c') (ops c1)"
    and "\<not> inner \<Longrightarrow> ast_tag s = astBreak \<Longrightarrow>
     \<exists>c'. emitterLine X c b s = Inr (Suc (blocks c), c') \<and>
          ops c' = ops c @ [IrJump b (breakTo c0)] \<and>
          prefix (ops c0) (ops c) \<and> prefix (ops c') (ops c1)"
    and "\<not> inner \<Longrightarrow> ast_tag s = astContinue \<Longrightarrow>
     \<exists>c'. emitterLine X c b s = Inr (Suc (blocks c), c') \<and>
          ops c' = ops c @ [IrJump b (continueTo c0)] \<and>
          prefix (ops c0) (ops c) \<and> prefix (ops c') (ops c1)"
proof -
  from assms have h: "callOK X inner c0 c1 (c, b, s)" by (simp add: callsOK_def)
  then obtain k2 c2 where e: "emitterLine X c b s = Inr (k2, c2)"
    and p: "prefix (ops c2) (ops c1)" and q: "prefix (ops c0) (ops c)"
    and r: "returnTo c = returnTo c0"
    by (auto simp: callOK_def)
  {
    assume "ast_tag s = astReturn"
    from emitterLine_jump_result(3) [OF this, of X c b] e p q r
    show "\<exists>c'. emitterLine X c b s = Inr (blocks c', c') \<and>
          ops c' = ops c @
            (case ast_r s of None \<Rightarrow> []
             | Some rn \<Rightarrow> return_effects X (debugEnter c (astTagGetStr X astReturn)) rn) @
            [IrJump b (returnTo c0)] \<and>
          prefix (ops c0) (ops c) \<and> prefix (ops c') (ops c1)"
      by auto
  }
  {
    assume n: "\<not> inner" and "ast_tag s = astBreak"
    from emitterLine_jump_result(1) [OF this(2), of X c b] e p q h n
    show "\<exists>c'. emitterLine X c b s = Inr (Suc (blocks c), c') \<and>
          ops c' = ops c @ [IrJump b (breakTo c0)] \<and>
          prefix (ops c0) (ops c) \<and> prefix (ops c') (ops c1)"
      by (auto simp: callOK_def)
  }
  {
    assume n: "\<not> inner" and "ast_tag s = astContinue"
    from emitterLine_jump_result(2) [OF this(2), of X c b] e p q h n
    show "\<exists>c'. emitterLine X c b s = Inr (Suc (blocks c), c') \<and>
          ops c' = ops c @ [IrJump b (continueTo c0)] \<and>
          prefix (ops c0) (ops c) \<and> prefix (ops c') (ops c1)"
      by (auto simp: callOK_def)
  }
qed

lemma loop_body_calls:
  assumes "emitterLoop X ctx block Node = Inr (k, ctx')"
  shows "map (\<lambda>q. snd (snd q))
        (codeCalls X False
           ((loop_entry X ctx block Node)\<lparr>breakTo := Suc (blocks ctx),
                                           continueTo := Suc (Suc (Suc (blocks ctx)))\<rparr>)
           (Suc (Suc (blocks ctx))) (loop_code Node)) = stmtsOfCode False (loop_code Node)"
    and "(c, b, s) \<in> set (codeCalls X False
           ((loop_entry X ctx block Node)\<lparr>breakTo := Suc (blocks ctx),
                                           continueTo := Suc (Suc (Suc (blocks ctx)))\<rparr>)
           (Suc (Suc (blocks ctx))) (loop_code Node)) \<Longrightarrow>
       ast_tag s = astBreak \<Longrightarrow>
         \<exists>c'. emitterLine X c b s = Inr (Suc (blocks c), c') \<and>
               ops c' = ops c @ [IrJump b k] \<and>
               prefix (ops ctx) (ops c) \<and> prefix (ops c') (ops ctx')"
    and "(c, b, s) \<in> set (codeCalls X False
           ((loop_entry X ctx block Node)\<lparr>breakTo := Suc (blocks ctx),
                                           continueTo := Suc (Suc (Suc (blocks ctx)))\<rparr>)
           (Suc (Suc (blocks ctx))) (loop_code Node)) \<Longrightarrow>
       ast_tag s = astContinue \<Longrightarrow>
         \<exists>c'. emitterLine X c b s = Inr (Suc (blocks c), c') \<and>
               ops c' = ops c @ [IrJump b (Suc (Suc (Suc (blocks ctx))))] \<and>
               prefix (ops ctx) (ops c) \<and> prefix (ops c') (ops ctx')"
proof -
  let ?c6 = "(loop_entry X ctx block Node)\<lparr>breakTo := Suc (blocks ctx),
               continueTo := Suc (Suc (Suc (blocks ctx)))\<rparr>"
  let ?calls = "codeCalls X False ?c6 (Suc (Suc (blocks ctx))) (loop_code Node)"
  from assms(1) obtain c7
    where a: "emitterCode X ?c6 (Suc (Suc (blocks ctx))) (loop_code Node)
                (Suc (Suc (Suc (blocks ctx)))) = Inr c7"
      and k: "k = Suc (blocks ctx)"
      and e: "ctx' = loop_exit X ctx c7 Node"
    by (rule emitterLoop_Inr)
  note h = calls_sound(1) [OF a, of False]
  from h show "map (\<lambda>q. snd (snd q)) ?calls = stmtsOfCode False (loop_code Node)" by simp
  have p: "prefix (ops ctx) (ops ?c6)" "prefix (ops c7) (ops ctx')"
    by (simp_all add: prefix_ops_simps e)
  {
    assume m: "(c, b, s) \<in> set ?calls" and t: "ast_tag s = astBreak"
    from call_jump(2) [OF h [THEN conjunct1] m _ t] p
    show "\<exists>c'. emitterLine X c b s = Inr (Suc (blocks c), c') \<and>
               ops c' = ops c @ [IrJump b k] \<and>
               prefix (ops ctx) (ops c) \<and> prefix (ops c') (ops ctx')"
      by (auto simp: k intro: prefix_order.trans)
  }
  {
    assume m: "(c, b, s) \<in> set ?calls" and t: "ast_tag s = astContinue"
    from call_jump(3) [OF h [THEN conjunct1] m _ t] p
    show "\<exists>c'. emitterLine X c b s = Inr (Suc (blocks c), c') \<and>
               ops c' = ops c @ [IrJump b (Suc (Suc (Suc (blocks ctx))))] \<and>
               prefix (ops ctx) (ops c) \<and> prefix (ops c') (ops ctx')"
      by (auto intro: prefix_order.trans)
  }
qed

lemma iter_body_calls:
  assumes "emitterIter X ctx block Node = Inr (k, ctx')"
  shows "(\<exists>init cond after.
         ast_children Node = init # cond # after \<and>
         map (\<lambda>q. snd (snd q))
           (codeCalls X False
              ((iter_entry X ctx block init cond)\<lparr>breakTo := Suc (blocks ctx),
                                                    continueTo := Suc (Suc (Suc (blocks ctx)))\<rparr>)
              (Suc (Suc (blocks ctx))) (ast_l Node)) = stmtsOfCode False (ast_l Node) \<and>
         ((dB, eB, rB) \<in> set (codeCalls X False
              ((iter_entry X ctx block init cond)\<lparr>breakTo := Suc (blocks ctx),
                                                    continueTo := Suc (Suc (Suc (blocks ctx)))\<rparr>)
              (Suc (Suc (blocks ctx))) (ast_l Node)) \<longrightarrow>
          ast_tag rB = astBreak \<longrightarrow>
            (\<exists>c'. emitterLine X dB eB rB = Inr (Suc (blocks dB), c') \<and>
                  ops c' = ops dB @ [IrJump eB k] \<and>
                  prefix (ops ctx) (ops dB) \<and> prefix (ops c') (ops ctx'))) \<and>
         ((dC, eC, rC) \<in> set (codeCalls X False
              ((iter_entry X ctx block init cond)\<lparr>breakTo := Suc (blocks ctx),
                                                    continueTo := Suc (Suc (Suc (blocks ctx)))\<rparr>)
              (Suc (Suc (blocks ctx))) (ast_l Node)) \<longrightarrow>
          ast_tag rC = astContinue \<longrightarrow>
            (\<exists>c'. emitterLine X dC eC rC = Inr (Suc (blocks dC), c') \<and>
                  ops c' = ops dC @ [IrJump eC (Suc (Suc (Suc (blocks ctx))))] \<and>
                  prefix (ops ctx) (ops dC) \<and> prefix (ops c') (ops ctx'))))"
proof -
  from assms(1) obtain init cond after c8
    where ch: "ast_children Node = init # cond # after"
      and a: "emitterCode X ((iter_entry X ctx block init cond)\<lparr>breakTo := Suc (blocks ctx),
                  continueTo := Suc (Suc (Suc (blocks ctx)))\<rparr>)
                (Suc (Suc (blocks ctx))) (ast_l Node) (Suc (Suc (Suc (blocks ctx)))) = Inr c8"
      and k: "k = Suc (blocks ctx)"
      and e: "ctx' = iter_exit X ctx c8 cond after"
    by (rule emitterIter_Inr)
  let ?c7 = "(iter_entry X ctx block init cond)\<lparr>breakTo := Suc (blocks ctx),
                  continueTo := Suc (Suc (Suc (blocks ctx)))\<rparr>"
  let ?calls = "codeCalls X False ?c7 (Suc (Suc (blocks ctx))) (ast_l Node)"
  note h = calls_sound(1) [OF a, of False]
  have p: "prefix (ops ctx) (ops ?c7)" "prefix (ops c8) (ops ctx')"
    by (simp_all add: prefix_ops_simps e)
  have 1: "map (\<lambda>q. snd (snd q)) ?calls = stmtsOfCode False (ast_l Node)" using h by simp
  have 2: "\<exists>c'. emitterLine X dB eB rB = Inr (Suc (blocks dB), c') \<and>
                  ops c' = ops dB @ [IrJump eB k] \<and>
                  prefix (ops ctx) (ops dB) \<and> prefix (ops c') (ops ctx')"
    if m: "(dB, eB, rB) \<in> set ?calls" and t: "ast_tag rB = astBreak"
    using call_jump(2) [OF h [THEN conjunct1] m _ t] p
    by (auto simp: k intro: prefix_order.trans)
  have 3: "\<exists>c'. emitterLine X dC eC rC = Inr (Suc (blocks dC), c') \<and>
                  ops c' = ops dC @ [IrJump eC (Suc (Suc (Suc (blocks ctx))))] \<and>
                  prefix (ops ctx) (ops dC) \<and> prefix (ops c') (ops ctx')"
    if m: "(dC, eC, rC) \<in> set ?calls" and t: "ast_tag rC = astContinue"
    using call_jump(3) [OF h [THEN conjunct1] m _ t] p
    by (auto intro: prefix_order.trans)
  from ch 1 2 3 show ?thesis by blast
qed


lemma targets_after_extends: "ctx_extends a b \<Longrightarrow> targets_after a b"
  by (simp add: targets_after_def ctx_extends_targets)





section \<open>Evaluation on the example inputs\<close>

lemma ex_extern_simps:
  "typeGetSize ex_extern = (\<lambda>a t. of_nat t)"
  "typeGetReturn ex_extern = (\<lambda>t. t div 1000)"
  "symbolMangler ex_extern = (\<lambda>s. ''_f'')"
  "astIsValueTag ex_extern = ex_isValueTag"
  "astTagGetStr ex_extern = ex_tagStr"
  "declLowering ex_extern = (\<lambda>ctx b n. (0, ex_block b))"
  "valueLowering ex_extern = (\<lambda>ctx b n r. (0, ex_block b, OperandReg (Some (regOtherIndex 1))))"
  "branchLowering ex_extern = (\<lambda>ctx b n t f. 0)"
  "regAllocated ex_extern = (\<lambda>ctx sz. Some (regOtherIndex 2))"
  "regRequested ex_extern = (\<lambda>ctx r sz. True)"
  by (simp_all add: ex_extern_def)

lemmas eval_simps = emitterCode.simps emitterCode_loop.simps emitterLine.simps
  emitterBranch.simps emitterLoop.simps emitterIter.simps ex_extern_simps
  irBlockCreate_def irJump_def debugEnter_def debugLeave_def emitterBranchOnValue_def
  emitterValue_def emitterDecl_def emitterSetBreakTo_def emitterSetContinueTo_def
  ex_block_def ex_isValueTag_def Let_def

lemma ex_while_eval: "emitterLoop ex_extern ex_ctx 1 ex_while = Inr (11, ex_while_out)"
  by (simp add: eval_simps ex_while_def ex_ctx_def ex_body_def ex_break_def ex_value_def
      ex_while_out_def)

lemma ex_for_eval: "emitterIter ex_extern ex_ctx 1 ex_for = Inr (11, ex_for_out)"
  by (simp add: eval_simps ex_for_def ex_ctx_def ex_body_def ex_break_def ex_value_def
      ex_for_out_def)

lemmas ex_nodes = ex_value_def ex_break_def ex_continue_def ex_body_def ex_body2_def
  ex_while_def ex_dowhile_def ex_for_def ex_while2_def ex_for2_def ex_return_def
  ex_return_void_def

lemmas eval_return = emitterReturn_def regAlloc_def regRequest_def regFree_def operandFree_def
  asmMove_def debugError_def operandCreateReg_def operandCreateMem_def regGet_def ex_arch_def

lemma ex_break_eval: "emitterLine ex_extern ex_ctx 1 ex_break = Inr (11, ex_break_out)"
  by (simp add: eval_simps ex_nodes ex_ctx_def ex_break_out_def)

lemma ex_continue_eval: "emitterLine ex_extern ex_ctx 1 ex_continue = Inr (11, ex_continue_out)"
  by (simp add: eval_simps ex_nodes ex_ctx_def ex_continue_out_def)

lemma ex_return_eval: "emitterLine ex_extern ex_ctx 1 ex_return = Inr (11, ex_return_out)"
  by (simp add: eval_simps eval_return ex_nodes ex_ctx_def ex_return_out_def)

lemma ex_while2_eval: "emitterLoop ex_extern ex_ctx 1 ex_while2 = Inr (11, ex_while2_out)"
  by (simp add: eval_simps ex_nodes ex_ctx_def ex_while2_out_def)

lemma ex_for2_eval: "emitterIter ex_extern ex_ctx 1 ex_for2 = Inr (11, ex_for2_out)"
  by (simp add: eval_simps ex_nodes ex_ctx_def ex_for2_out_def)

lemma ex_body2_stmts: "stmtsOfCode False (Some ex_body2) = [ex_break, ex_continue]"
  by (simp add: stmtsOfCode.simps stmtsOfLine.simps ex_nodes)

lemma ex_loop_code: "loop_code ex_while2 = Some ex_body2" "ast_l ex_for2 = Some ex_body2"
  by (simp_all add: loop_code_def loop_isDo_def ex_nodes)

lemmas ex_syms = ex_locals_def ex_fn_sym_def ex_fn_body_def ex_fn_def

lemmas eval_fn = emitterFnImpl_def sym_set_label_def sym_set_children_def sym_set_offset_def
  irFnPrologue_def irFnEpilogue_def emitterInit_def

lemma ex_fn_eval:
  "emitterFnImpl ex_extern (emitterInit ''out.s'' ex_arch) ex_fn = Inr (ex_fn_sym_out, ex_fn_out)"
  by (simp add: eval_simps eval_return eval_fn ex_nodes ex_syms ex_fn_sym_out_def ex_fn_out_def)


lemma ex_fn_bad_eval:
  "emitterFnImpl ex_extern (emitterInit ''out.s'' ex_arch) ex_fn_bad = Inr (ex_fn_sym_out, ex_fn_bad_out)"
  by (simp add: eval_simps eval_return eval_fn ex_nodes ex_syms ex_fn_sym_out_def ex_fn_out_def
      ex_fn_bad_def ex_fn_bad_out_def)

lemma ex_fn_loop_eval:
  "emitterFnImpl ex_extern (emitterInit ''out.s'' ex_arch) ex_fn_loop = Inr (ex_fn_sym_out, ex_fn_loop_out)"
  by (simp add: eval_simps eval_return eval_fn ex_nodes ex_syms ex_fn_sym_out_def ex_fn_out_def
      ex_fn_loop_def ex_fn_loop_out_def)

lemma ex_fn_bad_stmts: "stmtsOfCode False (ast_r ex_fn_bad) = [ex_break, ex_continue]"
  by (simp add: stmtsOfCode.simps stmtsOfLine.simps ex_nodes ex_fn_bad_def)

lemma ex_fn_loop_nested: "codeNested False (ast_r ex_fn_loop)"
  by (simp add: codeNested.simps lineNested.simps ex_nodes ex_fn_loop_def loop_code_def
      loop_isDo_def)

lemma ex_dowhile_eval: "emitterLoop ex_extern ex_ctx 1 ex_dowhile = Inr (11, ex_dowhile_out)"
  by (simp add: eval_simps ex_nodes ex_ctx_def ex_dowhile_out_def)


lemma ex_unhandled_eval:
  "emitterLine ex_extern ex_ctx 1 ex_unhandled = Inl (UninitialisedRead, ex_unhandled_out)"
  by (simp add: eval_simps ex_ctx_def ex_unhandled_def ex_unhandled_out_def
      debugErrorUnhandled_def)

lemma ex_module_eval:
  "emitterModule_loop ex_extern ex_ctx [ex_unhandled, Ast astEmpty [] None None None 0] =
     Inr ex_module_out"
  by (simp add: ex_extern_simps ex_ctx_def ex_unhandled_def ex_module_out_def
      debugErrorUnhandled_def debugMsg_def)

lemma ex_extern_rax_simps:
  "typeGetSize ex_extern_rax = (\<lambda>a t. of_nat t)"
  "valueLowering ex_extern_rax = (\<lambda>ctx b n r. (0, ex_block b, OperandReg (Some regRAX)))"
  "regAllocated ex_extern_rax = (\<lambda>ctx sz. Some (regOtherIndex 2))"
  "regRequested ex_extern_rax = (\<lambda>ctx r sz. False)"
  by (simp_all add: ex_extern_rax_def ex_extern_def)

lemma ex_locals_eval:
  "emitterScopeAssignOffsets ex_extern ex_arch ex_locals 0 [] =
     (ex_locals_out, - 30,
      [ReportSymbol (Sym symId 4 [] (- 4) None), ReportSymbol (Sym symId 8 [] (- 12) None),
       ReportSymbol (Sym symId 16 [] (- 28) None), ReportSymbol (Sym symId 2 [] (- 30) None)])"
  by (simp add: ex_locals_def ex_locals_out_def ex_extern_simps sym_set_offset_def Let_def)

lemma ex_locals_sizes:
  "localsSize ex_extern ex_arch ex_locals = 30"
  "localsSizeInt ex_extern ex_arch ex_locals = 30"
  "sizesNonneg ex_extern ex_arch ex_locals"
  "idOffsets ex_locals_out = [- 4, - 12, - 28, - 30]"
  by (simp_all add: ex_locals_def ex_locals_out_def ex_extern_simps word_sle_eq)

lemma ex_fn_sizes: "localsSize ex_extern ex_arch ex_fn_sym = 30"
  by (simp add: ex_fn_sym_def ex_locals_def ex_extern_simps)

lemma ex_params_eval:
  "emitterFnImpl_params ex_extern ex_arch (sym_children ex_fn_sym) 24 [] =
     ([Sym symParam 4 [] 24 None, Sym symParam 8 [] 28 None, ex_locals,
       Sym symParam 4 [] 0 None], 36,
      [ReportSymbol (Sym symParam 4 [] 24 None), ReportSymbol (Sym symParam 8 [] 28 None)])"
  by (simp add: ex_fn_sym_def ex_locals_def ex_extern_simps sym_set_offset_def Let_def)

lemma ex_params_sizes:
  "leadingParams (sym_children ex_fn_sym) = [Sym symParam 4 [] 0 None, Sym symParam 8 [] 0 None]"
  "paramStart ex_extern ex_arch ex_fn_sym = 24"
  "paramStart ex_extern ex_arch (Sym (symOtherTag 0) 4000 [] 0 None) = 16"
  "paramSizes ex_extern ex_arch (leadingParams (sym_children ex_fn_sym)) = 12"
  by (simp_all add: ex_fn_sym_def ex_locals_def ex_extern_simps leadingParams_def
      paramStart_def paramSizes_def ex_arch_def)

lemmas eval_calls = lineCalls.simps codeCalls.simps codeCalls_loop.simps loop_entry_def
  iter_entry_def iter_init_def loop_code_def loop_cond_def loop_isDo_def

lemma ex_while2_calls:
  "codeCalls ex_extern False
     ((loop_entry ex_extern ex_ctx 1 ex_while2)\<lparr>breakTo := Suc (blocks ex_ctx),
        continueTo := Suc (Suc (Suc (blocks ex_ctx)))\<rparr>)
     (Suc (Suc (blocks ex_ctx))) (loop_code ex_while2) =
   [(ex_while2_at_break, 12, ex_break), (ex_while2_at_continue, 14, ex_continue)]"
  by (simp add: eval_calls eval_simps ex_nodes ex_ctx_def ex_while2_at_break_def
      ex_while2_at_continue_def)

lemma ex_for2_calls:
  "codeCalls ex_extern False
     ((iter_entry ex_extern ex_ctx 1 ex_value ex_value)\<lparr>breakTo := Suc (blocks ex_ctx),
        continueTo := Suc (Suc (Suc (blocks ex_ctx)))\<rparr>)
     (Suc (Suc (blocks ex_ctx))) (ast_l ex_for2) =
   [(ex_for2_at_break, 12, ex_break), (ex_for2_at_continue, 14, ex_continue)]"
  by (simp add: eval_calls eval_simps ex_nodes ex_ctx_def ex_for2_at_break_def
      ex_for2_at_continue_def)



section \<open>The claims\<close>

text \<open>
  C8: the loop lowerer and the iter lowerer save the incoming \<open>breakTo\<close> and
  \<open>continueTo\<close>, lower the body with \<open>breakTo\<close> set to the continuation block (the
  block they return) and \<open>continueTo\<close> set to the re-test block (loop) or the step block
  (iter), that is the third block they create, and write the saved values back before
  the re-test is emitted: at exit both targets equal their values at entry.
\<close>

theorem C8_loop_iter_restore_targets:
  "(emitterLoop X ctx block Node = Inr (k, ctx') \<longrightarrow>
      breakTo ctx' = breakTo ctx \<and> continueTo ctx' = continueTo ctx \<and>
      (\<exists>ctx6 ctx7.
          breakTo ctx6 = k \<and> continueTo ctx6 = Suc (Suc (Suc (blocks ctx))) \<and>
          emitterCode X ctx6 (Suc (Suc (blocks ctx))) (loop_code Node) (Suc (Suc (Suc (blocks ctx)))) = Inr ctx7 \<and>
          ctx' = emitterBranchOnValue X (restoreTargets ctx ctx7) (Suc (Suc (Suc (blocks ctx))))
                   (loop_cond Node) (Suc (Suc (blocks ctx))) k)) \<and>
   (emitterIter X ctx block NodeI = Inr (kI, ctxI) \<longrightarrow>
      breakTo ctxI = breakTo ctx \<and> continueTo ctxI = continueTo ctx \<and>
      (\<exists>init cond after ctx7 ctx8 r.
          ast_children NodeI = init # cond # after \<and>
          breakTo ctx7 = kI \<and> continueTo ctx7 = Suc (Suc (Suc (blocks ctx))) \<and>
          emitterCode X ctx7 (Suc (Suc (blocks ctx))) (ast_l NodeI) (Suc (Suc (Suc (blocks ctx)))) = Inr ctx8 \<and>
          r = emitterValue X (restoreTargets ctx ctx8) (Some (Suc (Suc (Suc (blocks ctx)))))
                (iter_step after) requestVoid \<and>
          ctxI = emitterBranchOnValue X (snd (snd r)) (fst (snd r)) (Some cond)
                   (Suc (Suc (blocks ctx))) kI))"
proof (intro conjI impI)
  assume "emitterLoop X ctx block Node = Inr (k, ctx')"
  then obtain c7
    where b: "emitterCode X ((loop_entry X ctx block Node)\<lparr>breakTo := Suc (blocks ctx),
                  continueTo := Suc (Suc (Suc (blocks ctx)))\<rparr>)
                (Suc (Suc (blocks ctx))) (loop_code Node) (Suc (Suc (Suc (blocks ctx)))) = Inr c7"
      and k: "k = Suc (blocks ctx)"
      and e: "ctx' = loop_exit X ctx c7 Node"
    by (rule emitterLoop_Inr)
  show "breakTo ctx' = breakTo ctx" "continueTo ctx' = continueTo ctx"
    by (simp_all add: e loop_exit_def emitterBranchOnValue_def restoreTargets_def)
  show "\<exists>ctx6 ctx7.
          breakTo ctx6 = k \<and> continueTo ctx6 = Suc (Suc (Suc (blocks ctx))) \<and>
          emitterCode X ctx6 (Suc (Suc (blocks ctx))) (loop_code Node) (Suc (Suc (Suc (blocks ctx)))) = Inr ctx7 \<and>
          ctx' = emitterBranchOnValue X (restoreTargets ctx ctx7) (Suc (Suc (Suc (blocks ctx))))
                   (loop_cond Node) (Suc (Suc (blocks ctx))) k"
    using b e
    by (intro exI [of _ "(loop_entry X ctx block Node)\<lparr>breakTo := Suc (blocks ctx),
                  continueTo := Suc (Suc (Suc (blocks ctx)))\<rparr>"] exI [of _ c7])
      (simp add: k loop_exit_def)
next
  assume "emitterIter X ctx block NodeI = Inr (kI, ctxI)"
  then obtain init cond after c8
    where ch: "ast_children NodeI = init # cond # after"
      and b: "emitterCode X ((iter_entry X ctx block init cond)\<lparr>breakTo := Suc (blocks ctx),
                  continueTo := Suc (Suc (Suc (blocks ctx)))\<rparr>)
                (Suc (Suc (blocks ctx))) (ast_l NodeI) (Suc (Suc (Suc (blocks ctx)))) = Inr c8"
      and k: "kI = Suc (blocks ctx)"
      and e: "ctxI = iter_exit X ctx c8 cond after"
    by (rule emitterIter_Inr)
  show "breakTo ctxI = breakTo ctx" "continueTo ctxI = continueTo ctx"
    by (simp_all add: e iter_exit_def emitterBranchOnValue_def emitterValue_def restoreTargets_def
        Let_def case_prod_beta)
  show "\<exists>init cond after ctx7 ctx8 r.
          ast_children NodeI = init # cond # after \<and>
          breakTo ctx7 = kI \<and> continueTo ctx7 = Suc (Suc (Suc (blocks ctx))) \<and>
          emitterCode X ctx7 (Suc (Suc (blocks ctx))) (ast_l NodeI) (Suc (Suc (Suc (blocks ctx)))) = Inr ctx8 \<and>
          r = emitterValue X (restoreTargets ctx ctx8) (Some (Suc (Suc (Suc (blocks ctx)))))
                (iter_step after) requestVoid \<and>
          ctxI = emitterBranchOnValue X (snd (snd r)) (fst (snd r)) (Some cond)
                   (Suc (Suc (blocks ctx))) kI"
    using ch b e
    by (intro exI [of _ init] exI [of _ cond] exI [of _ after]
        exI [of _ "(iter_entry X ctx block init cond)\<lparr>breakTo := Suc (blocks ctx),
                  continueTo := Suc (Suc (Suc (blocks ctx)))\<rparr>"] exI [of _ c8]
        exI [of _ "emitterValue X (restoreTargets ctx c8) (Some (Suc (Suc (Suc (blocks ctx)))))
                (iter_step after) requestVoid"])
      (simp add: k iter_exit_def Let_def)
qed

text \<open>C8 on \<^verbatim>\<open>while (e) { break; }\<close> and \<^verbatim>\<open>for (e; e; e) { break; }\<close>.\<close>

theorem C8_loop_iter_restore_targets_witness:
  "emitterLoop ex_extern ex_ctx 1 ex_while = Inr (11, ex_while_out) \<and>
   breakTo ex_while_out = breakTo ex_ctx \<and> continueTo ex_while_out = continueTo ex_ctx \<and>
   emitterIter ex_extern ex_ctx 1 ex_for = Inr (11, ex_for_out) \<and>
   breakTo ex_for_out = breakTo ex_ctx \<and> continueTo ex_for_out = continueTo ex_ctx"
  using C8_loop_iter_restore_targets [of ex_extern ex_ctx 1 ex_while 11 ex_while_out
      ex_for 11 ex_for_out] ex_while_eval ex_for_eval
  by simp

text \<open>
  C7: for a \<^emph>\<open>break\<close>, \<^emph>\<open>continue\<close> or \<^emph>\<open>return\<close> statement the statement lowerer
  emits an unconditional jump from the current block to \<open>breakTo\<close>, \<open>continueTo\<close> or
  \<open>returnTo\<close> (for a return it is the last thing emitted) and returns a block
  created after it. When a loop or an iter is lowered, every statement of its body
  outside nested loops is lowered by one call of the statement lowerer, and
  \<open>codeCalls\<close> lists these calls. The call on a \<^emph>\<open>break\<close> emits the jump from the
  block it is called with to the block the loop lowerer returns, and the call on a
  \<^emph>\<open>continue\<close> emits the jump from the block it is called with to the third block
  the lowerer creates: for a loop the block that receives the re-test, for an iter the
  block in which the step is lowered. What each of these calls has emitted is part of
  what the loop lowerer has emitted when it returns.
\<close>

theorem C7_break_continue_return_jumps:
  "(ast_tag NodeB = astBreak \<longrightarrow>
      (\<exists>ctx'. emitterLine X ctx block NodeB = Inr (Suc (blocks ctx), ctx') \<and>
             ops ctx' = ops ctx @ [IrJump block (breakTo ctx)] \<and>
             blocks ctx' = Suc (blocks ctx))) \<and>
   (ast_tag NodeC = astContinue \<longrightarrow>
      (\<exists>ctx'. emitterLine X ctx block NodeC = Inr (Suc (blocks ctx), ctx') \<and>
             ops ctx' = ops ctx @ [IrJump block (continueTo ctx)] \<and>
             blocks ctx' = Suc (blocks ctx))) \<and>
   (ast_tag NodeR = astReturn \<longrightarrow>
      (\<exists>ctx' d. emitterLine X ctx block NodeR = Inr (blocks ctx', ctx') \<and>
             ops ctx' = ops ctx @ d @ [IrJump block (returnTo ctx)] \<and>
             blocks ctx < blocks ctx')) \<and>
   (emitterLoop X ctx block NodeL = Inr (kL, ctxL) \<longrightarrow>
      last (ops ctxL) = EmitterBranchOnValue (Suc (Suc (Suc (blocks ctx)))) (loop_cond NodeL)
                          (Suc (Suc (blocks ctx))) kL \<and>
      (sB \<in> set (stmtsOfCode False (loop_code NodeL)) \<longrightarrow> ast_tag sB = astBreak \<longrightarrow>
         jumpsTo ctx ctxL kL) \<and>
      (sC \<in> set (stmtsOfCode False (loop_code NodeL)) \<longrightarrow> ast_tag sC = astContinue \<longrightarrow>
         jumpsTo ctx ctxL (Suc (Suc (Suc (blocks ctx))))) \<and>
      map (\<lambda>q. snd (snd q))
        (codeCalls X False
           ((loop_entry X ctx block NodeL)\<lparr>breakTo := Suc (blocks ctx),
                                            continueTo := Suc (Suc (Suc (blocks ctx)))\<rparr>)
           (Suc (Suc (blocks ctx))) (loop_code NodeL)) = stmtsOfCode False (loop_code NodeL) \<and>
      ((cB, bB, qB) \<in> set (codeCalls X False
           ((loop_entry X ctx block NodeL)\<lparr>breakTo := Suc (blocks ctx),
                                            continueTo := Suc (Suc (Suc (blocks ctx)))\<rparr>)
           (Suc (Suc (blocks ctx))) (loop_code NodeL)) \<longrightarrow>
       ast_tag qB = astBreak \<longrightarrow>
         (\<exists>c'. emitterLine X cB bB qB = Inr (Suc (blocks cB), c') \<and>
               ops c' = ops cB @ [IrJump bB kL] \<and>
               prefix (ops ctx) (ops cB) \<and> prefix (ops c') (ops ctxL))) \<and>
      ((cC, bC, qC) \<in> set (codeCalls X False
           ((loop_entry X ctx block NodeL)\<lparr>breakTo := Suc (blocks ctx),
                                            continueTo := Suc (Suc (Suc (blocks ctx)))\<rparr>)
           (Suc (Suc (blocks ctx))) (loop_code NodeL)) \<longrightarrow>
       ast_tag qC = astContinue \<longrightarrow>
         (\<exists>c'. emitterLine X cC bC qC = Inr (Suc (blocks cC), c') \<and>
               ops c' = ops cC @ [IrJump bC (Suc (Suc (Suc (blocks ctx))))] \<and>
               prefix (ops ctx) (ops cC) \<and> prefix (ops c') (ops ctxL)))) \<and>
   (emitterIter X ctx block NodeI = Inr (kI, ctxI) \<longrightarrow>
      (\<exists>step. EmitterValue (Some (Suc (Suc (Suc (blocks ctx))))) step requestVoid
                 \<in> set (opsSince ctx ctxI)) \<and>
      (tB \<in> set (stmtsOfCode False (ast_l NodeI)) \<longrightarrow> ast_tag tB = astBreak \<longrightarrow>
         jumpsTo ctx ctxI kI) \<and>
      (tC \<in> set (stmtsOfCode False (ast_l NodeI)) \<longrightarrow> ast_tag tC = astContinue \<longrightarrow>
         jumpsTo ctx ctxI (Suc (Suc (Suc (blocks ctx))))) \<and>
      (\<exists>init cond after.
         ast_children NodeI = init # cond # after \<and>
         map (\<lambda>q. snd (snd q))
           (codeCalls X False
              ((iter_entry X ctx block init cond)\<lparr>breakTo := Suc (blocks ctx),
                                                    continueTo := Suc (Suc (Suc (blocks ctx)))\<rparr>)
              (Suc (Suc (blocks ctx))) (ast_l NodeI)) = stmtsOfCode False (ast_l NodeI) \<and>
         ((dB, eB, rB) \<in> set (codeCalls X False
              ((iter_entry X ctx block init cond)\<lparr>breakTo := Suc (blocks ctx),
                                                    continueTo := Suc (Suc (Suc (blocks ctx)))\<rparr>)
              (Suc (Suc (blocks ctx))) (ast_l NodeI)) \<longrightarrow>
          ast_tag rB = astBreak \<longrightarrow>
            (\<exists>c'. emitterLine X dB eB rB = Inr (Suc (blocks dB), c') \<and>
                  ops c' = ops dB @ [IrJump eB kI] \<and>
                  prefix (ops ctx) (ops dB) \<and> prefix (ops c') (ops ctxI))) \<and>
         ((dC, eC, rC) \<in> set (codeCalls X False
              ((iter_entry X ctx block init cond)\<lparr>breakTo := Suc (blocks ctx),
                                                    continueTo := Suc (Suc (Suc (blocks ctx)))\<rparr>)
              (Suc (Suc (blocks ctx))) (ast_l NodeI)) \<longrightarrow>
          ast_tag rC = astContinue \<longrightarrow>
            (\<exists>c'. emitterLine X dC eC rC = Inr (Suc (blocks dC), c') \<and>
                  ops c' = ops dC @ [IrJump eC (Suc (Suc (Suc (blocks ctx))))] \<and>
                  prefix (ops ctx) (ops dC) \<and> prefix (ops c') (ops ctxI)))))"
proof (intro conjI impI)
  assume "ast_tag NodeB = astBreak"
  then show "\<exists>ctx'. emitterLine X ctx block NodeB = Inr (Suc (blocks ctx), ctx') \<and>
             ops ctx' = ops ctx @ [IrJump block (breakTo ctx)] \<and>
             blocks ctx' = Suc (blocks ctx)"
    by (simp add: emitterLine_Break Let_def irBlockCreate_def irJump_def debug_fields
        debugLeave_def debugEnter_def)
next
  assume "ast_tag NodeC = astContinue"
  then show "\<exists>ctx'. emitterLine X ctx block NodeC = Inr (Suc (blocks ctx), ctx') \<and>
             ops ctx' = ops ctx @ [IrJump block (continueTo ctx)] \<and>
             blocks ctx' = Suc (blocks ctx)"
    by (simp add: emitterLine_Continue Let_def irBlockCreate_def irJump_def debug_fields
        debugLeave_def debugEnter_def)
next
  assume t: "ast_tag NodeR = astReturn"
  let ?c = "debugEnter ctx (astTagGetStr X (ast_tag NodeR))"
  let ?r = "emitterReturn X ?c block NodeR"
  let ?ctx' = "debugLeave (snd (irBlockCreate ?r))"
  have 1: "emitterLine X ctx block NodeR = Inr (blocks ?ctx', ?ctx')"
    using t by (simp add: emitterLine_Return Let_def irBlockCreate_def debug_fields)
  have 2: "ops ?ctx' = ops ctx @
            (case ast_r NodeR of None \<Rightarrow> [] | Some rn \<Rightarrow> return_effects X ?c rn) @
            [IrJump block (returnTo ctx)]"
    by (simp add: emitterReturn_ops irBlockCreate_def debug_fields)
  have "blocks ?c \<le> blocks ?r"
    using ctx_extends_emitterReturn [of ?c X block NodeR]
    by (simp add: ctx_extends_def ctx_grows_def)
  then have 3: "blocks ctx < blocks ?ctx'"
    by (simp add: irBlockCreate_def debug_fields)
  from 1 2 3 show "\<exists>ctx' d. emitterLine X ctx block NodeR = Inr (blocks ctx', ctx') \<and>
             ops ctx' = ops ctx @ d @ [IrJump block (returnTo ctx)] \<and>
             blocks ctx < blocks ctx'"
    by blast
next
  assume a: "emitterLoop X ctx block NodeL = Inr (kL, ctxL)"
  then show "last (ops ctxL) = EmitterBranchOnValue (Suc (Suc (Suc (blocks ctx)))) (loop_cond NodeL)
                          (Suc (Suc (blocks ctx))) kL"
    by (rule emitterLoop_Inr) (simp add: loop_exit_ops)
  {
    assume "sB \<in> set (stmtsOfCode False (loop_code NodeL))" "ast_tag sB = astBreak"
    with a show "jumpsTo ctx ctxL kL" by (rule loop_body_jumps)
  }
  {
    assume "sC \<in> set (stmtsOfCode False (loop_code NodeL))" "ast_tag sC = astContinue"
    with a show "jumpsTo ctx ctxL (Suc (Suc (Suc (blocks ctx))))" by (rule loop_body_jumps)
  }
  from a show "map (\<lambda>q. snd (snd q))
        (codeCalls X False
           ((loop_entry X ctx block NodeL)\<lparr>breakTo := Suc (blocks ctx),
                                            continueTo := Suc (Suc (Suc (blocks ctx)))\<rparr>)
           (Suc (Suc (blocks ctx))) (loop_code NodeL)) = stmtsOfCode False (loop_code NodeL)"
    by (rule loop_body_calls)
  {
    assume "(cB, bB, qB) \<in> set (codeCalls X False
           ((loop_entry X ctx block NodeL)\<lparr>breakTo := Suc (blocks ctx),
                                            continueTo := Suc (Suc (Suc (blocks ctx)))\<rparr>)
           (Suc (Suc (blocks ctx))) (loop_code NodeL))" "ast_tag qB = astBreak"
    with a show "\<exists>c'. emitterLine X cB bB qB = Inr (Suc (blocks cB), c') \<and>
               ops c' = ops cB @ [IrJump bB kL] \<and>
               prefix (ops ctx) (ops cB) \<and> prefix (ops c') (ops ctxL)"
      by (rule loop_body_calls)
  }
  {
    assume "(cC, bC, qC) \<in> set (codeCalls X False
           ((loop_entry X ctx block NodeL)\<lparr>breakTo := Suc (blocks ctx),
                                            continueTo := Suc (Suc (Suc (blocks ctx)))\<rparr>)
           (Suc (Suc (blocks ctx))) (loop_code NodeL))" "ast_tag qC = astContinue"
    with a show "\<exists>c'. emitterLine X cC bC qC = Inr (Suc (blocks cC), c') \<and>
               ops c' = ops cC @ [IrJump bC (Suc (Suc (Suc (blocks ctx))))] \<and>
               prefix (ops ctx) (ops cC) \<and> prefix (ops c') (ops ctxL)"
      by (rule loop_body_calls)
  }
next
  assume a: "emitterIter X ctx block NodeI = Inr (kI, ctxI)"
  then obtain init cond after c8
    where b: "emitterCode X ((iter_entry X ctx block init cond)\<lparr>breakTo := Suc (blocks ctx),
                  continueTo := Suc (Suc (Suc (blocks ctx)))\<rparr>)
                (Suc (Suc (blocks ctx))) (ast_l NodeI) (Suc (Suc (Suc (blocks ctx)))) = Inr c8"
      and e: "ctxI = iter_exit X ctx c8 cond after"
    by (rule emitterIter_Inr)
  from ctx_extends_ops [OF emitterCode_frame(1) [OF b]] prefix_ops_simps(7) [of ctx X block init cond]
  have "prefix (ops ctx) (ops c8)" by simp
  then obtain d where "ops c8 = ops ctx @ d" by (auto simp: prefix_def)
  then have "EmitterValue (Some (Suc (Suc (Suc (blocks ctx))))) (iter_step after) requestVoid
               \<in> set (opsSince ctx ctxI)"
    by (simp add: e iter_exit_ops opsSince_def)
  then show "\<exists>step. EmitterValue (Some (Suc (Suc (Suc (blocks ctx))))) step requestVoid
                 \<in> set (opsSince ctx ctxI)" ..
  {
    assume "tB \<in> set (stmtsOfCode False (ast_l NodeI))" "ast_tag tB = astBreak"
    with a show "jumpsTo ctx ctxI kI" by (rule iter_body_jumps)
  }
  {
    assume "tC \<in> set (stmtsOfCode False (ast_l NodeI))" "ast_tag tC = astContinue"
    with a show "jumpsTo ctx ctxI (Suc (Suc (Suc (blocks ctx))))" by (rule iter_body_jumps)
  }
  from a show "(\<exists>init cond after.
ast_children NodeI = init # cond # after \<and>
map (\<lambda>q. snd (snd q))
  (codeCalls X False
     ((iter_entry X ctx block init cond)\<lparr>breakTo := Suc (blocks ctx),
                                           continueTo := Suc (Suc (Suc (blocks ctx)))\<rparr>)
     (Suc (Suc (blocks ctx))) (ast_l NodeI)) = stmtsOfCode False (ast_l NodeI) \<and>
((dB, eB, rB) \<in> set (codeCalls X False
     ((iter_entry X ctx block init cond)\<lparr>breakTo := Suc (blocks ctx),
                                           continueTo := Suc (Suc (Suc (blocks ctx)))\<rparr>)
     (Suc (Suc (blocks ctx))) (ast_l NodeI)) \<longrightarrow>
 ast_tag rB = astBreak \<longrightarrow>
   (\<exists>c'. emitterLine X dB eB rB = Inr (Suc (blocks dB), c') \<and>
         ops c' = ops dB @ [IrJump eB kI] \<and>
         prefix (ops ctx) (ops dB) \<and> prefix (ops c') (ops ctxI))) \<and>
((dC, eC, rC) \<in> set (codeCalls X False
     ((iter_entry X ctx block init cond)\<lparr>breakTo := Suc (blocks ctx),
                                           continueTo := Suc (Suc (Suc (blocks ctx)))\<rparr>)
     (Suc (Suc (blocks ctx))) (ast_l NodeI)) \<longrightarrow>
 ast_tag rC = astContinue \<longrightarrow>
   (\<exists>c'. emitterLine X dC eC rC = Inr (Suc (blocks dC), c') \<and>
         ops c' = ops dC @ [IrJump eC (Suc (Suc (Suc (blocks ctx))))] \<and>
         prefix (ops ctx) (ops dC) \<and> prefix (ops c') (ops ctxI))))"
    by (rule iter_body_calls)
qed

text \<open>
  C7 on \<^verbatim>\<open>break;\<close>, \<^verbatim>\<open>continue;\<close>, \<^verbatim>\<open>return e;\<close> and on a \<^verbatim>\<open>while\<close> and a
  \<^verbatim>\<open>for\<close> around \<^verbatim>\<open>{ break; continue; }\<close>: the statement lowerer is called on the
  \<^verbatim>\<open>break\<close> with block 12 and on the \<^verbatim>\<open>continue\<close> with block 14, and emits the jump
  from 12 to the returned block 11 and the jump from 14 to block 13.
\<close>

theorem C7_break_continue_return_jumps_witness:
  "ast_tag ex_break = astBreak \<and> ast_tag ex_continue = astContinue \<and>
   ast_tag ex_return = astReturn \<and>
   emitterLoop ex_extern ex_ctx 1 ex_while2 = Inr (11, ex_while2_out) \<and>
   emitterIter ex_extern ex_ctx 1 ex_for2 = Inr (11, ex_for2_out) \<and>
   ex_break \<in> set (stmtsOfCode False (loop_code ex_while2)) \<and>
   ex_continue \<in> set (stmtsOfCode False (loop_code ex_while2)) \<and>
   ex_break \<in> set (stmtsOfCode False (ast_l ex_for2)) \<and>
   ex_continue \<in> set (stmtsOfCode False (ast_l ex_for2)) \<and>
   emitterLine ex_extern ex_ctx 1 ex_break = Inr (11, ex_break_out) \<and>
   emitterLine ex_extern ex_ctx 1 ex_continue = Inr (11, ex_continue_out) \<and>
   emitterLine ex_extern ex_ctx 1 ex_return = Inr (11, ex_return_out) \<and>
   jumpsTo ex_ctx ex_while2_out 11 \<and> jumpsTo ex_ctx ex_while2_out 13 \<and>
   jumpsTo ex_ctx ex_for2_out 11 \<and> jumpsTo ex_ctx ex_for2_out 13 \<and>
   codeCalls ex_extern False
     ((loop_entry ex_extern ex_ctx 1 ex_while2)\<lparr>breakTo := Suc (blocks ex_ctx),
        continueTo := Suc (Suc (Suc (blocks ex_ctx)))\<rparr>)
     (Suc (Suc (blocks ex_ctx))) (loop_code ex_while2) =
   [(ex_while2_at_break, 12, ex_break), (ex_while2_at_continue, 14, ex_continue)] \<and>
   (\<exists>c'. emitterLine ex_extern ex_while2_at_break 12 ex_break = Inr (14, c') \<and>
         ops c' = [EmitterBranchOnValue 1 (Some ex_value) 12 11, IrJump 12 11] \<and>
         prefix (ops c') (ops ex_while2_out)) \<and>
   (\<exists>c'. emitterLine ex_extern ex_while2_at_continue 14 ex_continue = Inr (15, c') \<and>
         ops c' = [EmitterBranchOnValue 1 (Some ex_value) 12 11, IrJump 12 11, IrJump 14 13] \<and>
         prefix (ops c') (ops ex_while2_out)) \<and>
   ast_children ex_for2 = [ex_value, ex_value, ex_value] \<and>
   codeCalls ex_extern False
     ((iter_entry ex_extern ex_ctx 1 ex_value ex_value)\<lparr>breakTo := Suc (blocks ex_ctx),
        continueTo := Suc (Suc (Suc (blocks ex_ctx)))\<rparr>)
     (Suc (Suc (blocks ex_ctx))) (ast_l ex_for2) =
   [(ex_for2_at_break, 12, ex_break), (ex_for2_at_continue, 14, ex_continue)] \<and>
   (\<exists>c'. emitterLine ex_extern ex_for2_at_break 12 ex_break = Inr (14, c') \<and>
         ops c' = ops ex_for2_at_break @ [IrJump 12 11] \<and>
         prefix (ops c') (ops ex_for2_out)) \<and>
   (\<exists>c'. emitterLine ex_extern ex_for2_at_continue 14 ex_continue = Inr (15, c') \<and>
         ops c' = ops ex_for2_at_continue @ [IrJump 14 13] \<and>
         prefix (ops c') (ops ex_for2_out))"
proof -
  note t = C7_break_continue_return_jumps [where NodeB = ex_break and NodeC = ex_continue
      and NodeR = ex_return and X = ex_extern and ctx = ex_ctx and block = 1
      and NodeL = ex_while2 and kL = 11 and ctxL = ex_while2_out and sB = ex_break
      and sC = ex_continue and NodeI = ex_for2 and kI = 11 and ctxI = ex_for2_out
      and tB = ex_break and tC = ex_continue
      and cB = ex_while2_at_break and bB = 12 and qB = ex_break
      and cC = ex_while2_at_continue and bC = 14 and qC = ex_continue
      and dB = ex_for2_at_break and eB = 12 and rB = ex_break
      and dC = ex_for2_at_continue and eC = 14 and rC = ex_continue]
  note L = t [THEN conjunct2, THEN conjunct2, THEN conjunct2, THEN conjunct1, rule_format,
      OF ex_while2_eval]
  note I = t [THEN conjunct2, THEN conjunct2, THEN conjunct2, THEN conjunct2, rule_format,
      OF ex_for2_eval]
  have s: "ex_break \<in> set (stmtsOfCode False (loop_code ex_while2))"
    "ex_continue \<in> set (stmtsOfCode False (loop_code ex_while2))"
    "ex_break \<in> set (stmtsOfCode False (ast_l ex_for2))"
    "ex_continue \<in> set (stmtsOfCode False (ast_l ex_for2))"
    by (simp_all add: ex_loop_code ex_body2_stmts)
  have g: "ast_tag ex_break = astBreak" "ast_tag ex_continue = astContinue"
    "ast_tag ex_return = astReturn"
    by (simp_all add: ex_nodes)
  have j: "jumpsTo ex_ctx ex_while2_out 11" "jumpsTo ex_ctx ex_while2_out 13"
    using L [THEN conjunct2, THEN conjunct1, rule_format, OF s(1) g(1)]
      L [THEN conjunct2, THEN conjunct2, THEN conjunct1, rule_format, OF s(2) g(2)]
    by (simp_all add: ex_ctx_def)
  have k: "jumpsTo ex_ctx ex_for2_out 11" "jumpsTo ex_ctx ex_for2_out 13"
    using I [THEN conjunct2, THEN conjunct1, rule_format, OF s(3) g(1)]
      I [THEN conjunct2, THEN conjunct2, THEN conjunct1, rule_format, OF s(4) g(2)]
    by (simp_all add: ex_ctx_def)
  have m: "(ex_while2_at_break, 12, ex_break) \<in> set (codeCalls ex_extern False
     ((loop_entry ex_extern ex_ctx 1 ex_while2)\<lparr>breakTo := Suc (blocks ex_ctx),
        continueTo := Suc (Suc (Suc (blocks ex_ctx)))\<rparr>)
     (Suc (Suc (blocks ex_ctx))) (loop_code ex_while2))"
    "(ex_while2_at_continue, 14, ex_continue) \<in> set (codeCalls ex_extern False
     ((loop_entry ex_extern ex_ctx 1 ex_while2)\<lparr>breakTo := Suc (blocks ex_ctx),
        continueTo := Suc (Suc (Suc (blocks ex_ctx)))\<rparr>)
     (Suc (Suc (blocks ex_ctx))) (loop_code ex_while2))"
    unfolding ex_while2_calls by simp_all
  have b: "\<exists>c'. emitterLine ex_extern ex_while2_at_break 12 ex_break = Inr (14, c') \<and>
         ops c' = [EmitterBranchOnValue 1 (Some ex_value) 12 11, IrJump 12 11] \<and>
         prefix (ops c') (ops ex_while2_out)"
    using L [THEN conjunct2, THEN conjunct2, THEN conjunct2, THEN conjunct2, THEN conjunct1,
        rule_format, OF m(1) g(1)]
    by (simp add: ex_while2_at_break_def ex_ctx_def)
  have c: "\<exists>c'. emitterLine ex_extern ex_while2_at_continue 14 ex_continue = Inr (15, c') \<and>
         ops c' = [EmitterBranchOnValue 1 (Some ex_value) 12 11, IrJump 12 11, IrJump 14 13] \<and>
         prefix (ops c') (ops ex_while2_out)"
    using L [THEN conjunct2, THEN conjunct2, THEN conjunct2, THEN conjunct2, THEN conjunct2,
        rule_format, OF m(2) g(2)]
    by (simp add: ex_while2_at_continue_def ex_ctx_def)
  from I [THEN conjunct2, THEN conjunct2, THEN conjunct2] obtain init cond after where
    ch: "ast_children ex_for2 = init # cond # after"
    and fb: "(ex_for2_at_break, 12, ex_break) \<in> set (codeCalls ex_extern False
              ((iter_entry ex_extern ex_ctx 1 init cond)\<lparr>breakTo := Suc (blocks ex_ctx),
                  continueTo := Suc (Suc (Suc (blocks ex_ctx)))\<rparr>)
              (Suc (Suc (blocks ex_ctx))) (ast_l ex_for2)) \<longrightarrow>
          ast_tag ex_break = astBreak \<longrightarrow>
            (\<exists>c'. emitterLine ex_extern ex_for2_at_break 12 ex_break =
                    Inr (Suc (blocks ex_for2_at_break), c') \<and>
                  ops c' = ops ex_for2_at_break @ [IrJump 12 11] \<and>
                  prefix (ops ex_ctx) (ops ex_for2_at_break) \<and>
                  prefix (ops c') (ops ex_for2_out))"
    and fc: "(ex_for2_at_continue, 14, ex_continue) \<in> set (codeCalls ex_extern False
              ((iter_entry ex_extern ex_ctx 1 init cond)\<lparr>breakTo := Suc (blocks ex_ctx),
                  continueTo := Suc (Suc (Suc (blocks ex_ctx)))\<rparr>)
              (Suc (Suc (blocks ex_ctx))) (ast_l ex_for2)) \<longrightarrow>
          ast_tag ex_continue = astContinue \<longrightarrow>
            (\<exists>c'. emitterLine ex_extern ex_for2_at_continue 14 ex_continue =
                    Inr (Suc (blocks ex_for2_at_continue), c') \<and>
                  ops c' = ops ex_for2_at_continue @ [IrJump 14 (Suc (Suc (Suc (blocks ex_ctx))))] \<and>
                  prefix (ops ex_ctx) (ops ex_for2_at_continue) \<and>
                  prefix (ops c') (ops ex_for2_out))"
    by blast
  from ch have i: "init = ex_value" "cond = ex_value" by (simp_all add: ex_for2_def)
  have n: "(ex_for2_at_break, 12, ex_break) \<in> set (codeCalls ex_extern False
              ((iter_entry ex_extern ex_ctx 1 init cond)\<lparr>breakTo := Suc (blocks ex_ctx),
                  continueTo := Suc (Suc (Suc (blocks ex_ctx)))\<rparr>)
              (Suc (Suc (blocks ex_ctx))) (ast_l ex_for2))"
    "(ex_for2_at_continue, 14, ex_continue) \<in> set (codeCalls ex_extern False
              ((iter_entry ex_extern ex_ctx 1 init cond)\<lparr>breakTo := Suc (blocks ex_ctx),
                  continueTo := Suc (Suc (Suc (blocks ex_ctx)))\<rparr>)
              (Suc (Suc (blocks ex_ctx))) (ast_l ex_for2))"
    unfolding i ex_for2_calls by simp_all
  have d: "\<exists>c'. emitterLine ex_extern ex_for2_at_break 12 ex_break = Inr (14, c') \<and>
         ops c' = ops ex_for2_at_break @ [IrJump 12 11] \<and>
         prefix (ops c') (ops ex_for2_out)"
    using fb [rule_format, OF n(1) g(1)] by (simp add: ex_for2_at_break_def ex_ctx_def)
  have e: "\<exists>c'. emitterLine ex_extern ex_for2_at_continue 14 ex_continue = Inr (15, c') \<and>
         ops c' = ops ex_for2_at_continue @ [IrJump 14 13] \<and>
         prefix (ops c') (ops ex_for2_out)"
    using fc [rule_format, OF n(2) g(2)] by (simp add: ex_for2_at_continue_def ex_ctx_def)
  have ch2: "ast_children ex_for2 = [ex_value, ex_value, ex_value]" by (simp add: ex_for2_def)
  show ?thesis
    by (intro conjI g s j k b c d e ch2 ex_break_eval ex_continue_eval ex_return_eval
        ex_while2_eval ex_for2_eval ex_while2_calls ex_for2_calls)
qed




text \<open>
  C10: \<open>emitterInit\<close> sets \<open>breakTo\<close> and \<open>continueTo\<close> to null. A \<^emph>\<open>break\<close> or
  \<^emph>\<open>continue\<close> lowered while the target is null emits a jump to the null block; that
  is what happens to a break or continue of a function body that is not inside a loop
  or iter when the function is entered with null targets, and the function lowerer
  leaves the targets null for the next function. If every break and continue of the
  body is inside a loop or iter body, no jump emitted for the function has a null
  target.
\<close>

theorem C10_break_continue_null_target:
  "breakTo (emitterInit outp a) = 0 \<and> continueTo (emitterInit outp a) = 0 \<and>
   (ast_tag NodeB = astBreak \<longrightarrow> breakTo ctxS = 0 \<longrightarrow>
      (\<exists>c. emitterLine X ctxS block NodeB = Inr (Suc (blocks ctxS), c) \<and>
           ops c = ops ctxS @ [IrJump block 0])) \<and>
   (ast_tag NodeC = astContinue \<longrightarrow> continueTo ctxS = 0 \<longrightarrow>
      (\<exists>c. emitterLine X ctxS block NodeC = Inr (Suc (blocks ctxS), c) \<and>
           ops c = ops ctxS @ [IrJump block 0])) \<and>
   (emitterFnImpl X ctx Node = Inr (fn', ctx') \<longrightarrow> breakTo ctx = 0 \<longrightarrow> continueTo ctx = 0 \<longrightarrow>
      (sB \<in> set (stmtsOfCode False (ast_r Node)) \<longrightarrow> ast_tag sB = astBreak \<longrightarrow>
         jumpsTo ctx ctx' 0) \<and>
      (sC \<in> set (stmtsOfCode False (ast_r Node)) \<longrightarrow> ast_tag sC = astContinue \<longrightarrow>
         jumpsTo ctx ctx' 0) \<and>
      breakTo ctx' = 0 \<and> continueTo ctx' = 0) \<and>
   (emitterFnImpl X ctxN NodeN = Inr (fnN, ctxN') \<longrightarrow> codeNested False (ast_r NodeN) \<longrightarrow>
      noNullJump (opsSince ctxN ctxN'))"
proof (intro conjI impI)
  show "breakTo (emitterInit outp a) = 0" "continueTo (emitterInit outp a) = 0"
    by (simp_all add: emitterInit_def)
next
  assume "ast_tag NodeB = astBreak" "breakTo ctxS = 0"
  then show "\<exists>c. emitterLine X ctxS block NodeB = Inr (Suc (blocks ctxS), c) \<and>
           ops c = ops ctxS @ [IrJump block 0]"
    by (simp add: emitterLine_Break Let_def irBlockCreate_def irJump_def debug_fields
        debugLeave_def debugEnter_def)
next
  assume "ast_tag NodeC = astContinue" "continueTo ctxS = 0"
  then show "\<exists>c. emitterLine X ctxS block NodeC = Inr (Suc (blocks ctxS), c) \<and>
           ops c = ops ctxS @ [IrJump block 0]"
    by (simp add: emitterLine_Continue Let_def irBlockCreate_def irJump_def debug_fields
        debugLeave_def debugEnter_def)
next
  assume r: "emitterFnImpl X ctx Node = Inr (fn', ctx')"
    and z: "breakTo ctx = 0" "continueTo ctx = 0"
  from r obtain fn0 ctx7
    where a: "emitterCode X (fn_body_ctx X ctx fn0) (Suc (blocks ctx)) (ast_r Node)
                (Suc (Suc (blocks ctx))) = Inr ctx7"
      and e: "ctx' = debugLeave (irFnEpilogue ctx7 (Suc (Suc (blocks ctx))))"
    by (rule emitterFnImpl_Inr)
  note f = emitterCode_frame(1) [OF a]
  have p: "prefix (ops ctx) (ops (fn_body_ctx X ctx fn0))"
    "prefix (ops (fn_body_ctx X ctx fn0)) (ops ctx7)" "prefix (ops ctx7) (ops ctx')"
    using ctx_extends_ops [OF f] by (simp_all add: fn_body_ctx_fields e irFnEpilogue_def debug_fields)
  show "breakTo ctx' = 0" "continueTo ctx' = 0"
    using ctx_extends_targets [OF f] z
    by (simp_all add: e irFnEpilogue_def debug_fields fn_body_ctx_fields)
  {
    assume "sB \<in> set (stmtsOfCode False (ast_r Node))" "ast_tag sB = astBreak"
    from stmt_jump(1) [OF jumpKind_simps(2) a this]
    have "jumpsTo (fn_body_ctx X ctx fn0) ctx7 0" by (simp add: fn_body_ctx_fields z)
    then show "jumpsTo ctx ctx' 0" using p by (rule jumpsTo_widen)
  }
  {
    assume "sC \<in> set (stmtsOfCode False (ast_r Node))" "ast_tag sC = astContinue"
    from stmt_jump(1) [OF jumpKind_simps(3) a this]
    have "jumpsTo (fn_body_ctx X ctx fn0) ctx7 0" by (simp add: fn_body_ctx_fields z)
    then show "jumpsTo ctx ctx' 0" using p by (rule jumpsTo_widen)
  }
next
  assume r: "emitterFnImpl X ctxN NodeN = Inr (fnN, ctxN')"
    and n: "codeNested False (ast_r NodeN)"
  from r obtain fn0 ctx7
    where a: "emitterCode X (fn_body_ctx X ctxN fn0) (Suc (blocks ctxN)) (ast_r NodeN)
                (Suc (Suc (blocks ctxN))) = Inr ctx7"
      and e: "ctxN' = debugLeave (irFnEpilogue ctx7 (Suc (Suc (blocks ctxN))))"
    by (rule emitterFnImpl_Inr)
  have t: "targetsOK False (fn_body_ctx X ctxN fn0)"
    by (simp add: targetsOK_def fn_body_ctx_fields)
  have m: "noNullJump (opsSince (fn_body_ctx X ctxN fn0) ctx7)"
    by (rule nested_noNullJump(1) [OF a n t]) simp
  have o: "ops ctxN' = ops ctx7 @ [IrFnEpilogue (Suc (Suc (blocks ctxN)))]"
    by (simp add: e irFnEpilogue_def debug_fields)
  show "noNullJump (opsSince ctxN ctxN')"
    by (rule noNull_between [OF fn_body_ctx_fields(6)
          ctx_extends_ops [OF emitterCode_frame(1) [OF a]] o _ m])
      (simp_all add: noNullJump_simps)
qed

text \<open>
  C10 on a function with the body \<^verbatim>\<open>{ break; continue; }\<close> and on one with the body
  \<^verbatim>\<open>{ while (e) { break; continue; } }\<close>, each lowered first in a module.
\<close>

theorem C10_break_continue_null_target_witness:
  "ast_tag ex_break = astBreak \<and> ast_tag ex_continue = astContinue \<and>
   breakTo (emitterInit ''out.s'' ex_arch) = 0 \<and> continueTo (emitterInit ''out.s'' ex_arch) = 0 \<and>
   emitterFnImpl ex_extern (emitterInit ''out.s'' ex_arch) ex_fn_bad = Inr (ex_fn_sym_out, ex_fn_bad_out) \<and>
   ex_break \<in> set (stmtsOfCode False (ast_r ex_fn_bad)) \<and>
   ex_continue \<in> set (stmtsOfCode False (ast_r ex_fn_bad)) \<and>
   jumpsTo (emitterInit ''out.s'' ex_arch) ex_fn_bad_out 0 \<and>
   emitterFnImpl ex_extern (emitterInit ''out.s'' ex_arch) ex_fn_loop = Inr (ex_fn_sym_out, ex_fn_loop_out) \<and>
   codeNested False (ast_r ex_fn_loop) \<and>
   noNullJump (opsSince (emitterInit ''out.s'' ex_arch) ex_fn_loop_out)"
  using C10_break_continue_null_target [where X = ex_extern and outp = "''out.s''"
      and a = ex_arch and NodeB = ex_break and NodeC = ex_continue
      and ctxS = "emitterInit ''out.s'' ex_arch" and block = 1
      and ctx = "emitterInit ''out.s'' ex_arch" and Node = ex_fn_bad and fn' = ex_fn_sym_out
      and ctx' = ex_fn_bad_out and sB = ex_break and sC = ex_continue
      and ctxN = "emitterInit ''out.s'' ex_arch" and NodeN = ex_fn_loop and fnN = ex_fn_sym_out
      and ctxN' = ex_fn_loop_out]
    ex_fn_bad_eval ex_fn_loop_eval ex_fn_loop_nested
  by (simp add: ex_fn_bad_stmts ex_break_def ex_continue_def)

text \<open>
  C5: the loop lowerer reads the tag of the node's left child: when it is \<^emph>\<open>code\<close>
  the left child is the body, the right child the condition, and the entry edge is an
  unconditional jump from the incoming block to the body block; otherwise the left
  child is the condition, the right child the body, and the entry edge is a
  branch-on-value of the condition to the body block or the continuation block. In
  both cases the body is then lowered from the body block with the re-test block as
  its continuation, the last thing emitted is a branch-on-value of the condition from
  the re-test block to the body block or the continuation block, and the continuation
  block (the first block created) is returned.
\<close>

theorem C5_loop_flavours:
  "(emitterLoop X ctx block Node = Inr (k, ctx') \<longrightarrow>
     (\<exists>lnode cond code ctx6 ctx7.
        ast_l Node = Some lnode \<and>
        (if ast_tag lnode = astCode
         then cond = ast_r Node \<and> code = ast_l Node \<and>
              ops ctx6 = ops ctx @ [IrJump block (Suc (Suc (blocks ctx)))]
         else cond = ast_l Node \<and> code = ast_r Node \<and>
              ops ctx6 = ops ctx @ [EmitterBranchOnValue block cond (Suc (Suc (blocks ctx)))
                                      (Suc (blocks ctx))]) \<and>
        emitterCode X ctx6 (Suc (Suc (blocks ctx))) code (Suc (Suc (Suc (blocks ctx)))) = Inr ctx7 \<and>
        prefix (ops ctx6) (ops ctx7) \<and>
        ops ctx' = ops ctx7 @ [EmitterBranchOnValue (Suc (Suc (Suc (blocks ctx)))) cond
                                 (Suc (Suc (blocks ctx))) (Suc (blocks ctx))] \<and>
        k = Suc (blocks ctx))) \<and>
   (ast_l Node = None \<longrightarrow>
      (\<exists>c. emitterLoop X ctx block Node = Inl (NullDereference, c))) \<and>
   (ast_l Node \<noteq> None \<longrightarrow>
      emitterCode X ((loop_entry X ctx block Node)\<lparr>breakTo := Suc (blocks ctx),
          continueTo := Suc (Suc (Suc (blocks ctx)))\<rparr>)
        (Suc (Suc (blocks ctx))) (loop_code Node) (Suc (Suc (Suc (blocks ctx)))) = Inr ctxB \<longrightarrow>
      (\<exists>c. emitterLoop X ctx block Node = Inr (Suc (blocks ctx), c)))"
proof (intro conjI impI)
  show "ast_l Node = None \<Longrightarrow> \<exists>c. emitterLoop X ctx block Node = Inl (NullDereference, c)"
    by (simp add: emitterLoop_unfold)
next
  show "ast_l Node \<noteq> None \<Longrightarrow>
      emitterCode X ((loop_entry X ctx block Node)\<lparr>breakTo := Suc (blocks ctx),
          continueTo := Suc (Suc (Suc (blocks ctx)))\<rparr>)
        (Suc (Suc (blocks ctx))) (loop_code Node) (Suc (Suc (Suc (blocks ctx)))) = Inr ctxB \<Longrightarrow>
      \<exists>c. emitterLoop X ctx block Node = Inr (Suc (blocks ctx), c)"
    by (simp add: emitterLoop_unfold)
next
  assume "emitterLoop X ctx block Node = Inr (k, ctx')"
  then obtain ctx7 where l: "ast_l Node \<noteq> None"
    and c: "emitterCode X ((loop_entry X ctx block Node)\<lparr>breakTo := Suc (blocks ctx),
         continueTo := Suc (Suc (Suc (blocks ctx)))\<rparr>)
       (Suc (Suc (blocks ctx))) (loop_code Node) (Suc (Suc (Suc (blocks ctx)))) = Inr ctx7"
    and k: "k = Suc (blocks ctx)" and e: "ctx' = loop_exit X ctx ctx7 Node"
    by (rule emitterLoop_Inr)
  from l obtain lnode where s: "ast_l Node = Some lnode" by auto
  let ?c6 = "(loop_entry X ctx block Node)\<lparr>breakTo := Suc (blocks ctx),
         continueTo := Suc (Suc (Suc (blocks ctx)))\<rparr>"
  have p: "prefix (ops ?c6) (ops ctx7)"
    using ctx_extends_ops [OF emitterCode_frame(1) [OF c]] .
  have o: "ops ctx' = ops ctx7 @ [EmitterBranchOnValue (Suc (Suc (Suc (blocks ctx))))
             (loop_cond Node) (Suc (Suc (blocks ctx))) (Suc (blocks ctx))]"
    by (simp add: e loop_exit_ops)
  have f: "if ast_tag lnode = astCode
         then loop_cond Node = ast_r Node \<and> loop_code Node = ast_l Node \<and>
              ops ?c6 = ops ctx @ [IrJump block (Suc (Suc (blocks ctx)))]
         else loop_cond Node = ast_l Node \<and> loop_code Node = ast_r Node \<and>
              ops ?c6 = ops ctx @ [EmitterBranchOnValue block (loop_cond Node)
                                     (Suc (Suc (blocks ctx))) (Suc (blocks ctx))]"
    by (simp add: loop_entry_ops loop_cond_def loop_code_def loop_isDo_def s)
  from s f c p o k show "\<exists>lnode cond code ctx6 ctx7.
        ast_l Node = Some lnode \<and>
        (if ast_tag lnode = astCode
         then cond = ast_r Node \<and> code = ast_l Node \<and>
              ops ctx6 = ops ctx @ [IrJump block (Suc (Suc (blocks ctx)))]
         else cond = ast_l Node \<and> code = ast_r Node \<and>
              ops ctx6 = ops ctx @ [EmitterBranchOnValue block cond (Suc (Suc (blocks ctx)))
                                      (Suc (blocks ctx))]) \<and>
        emitterCode X ctx6 (Suc (Suc (blocks ctx))) code (Suc (Suc (Suc (blocks ctx)))) = Inr ctx7 \<and>
        prefix (ops ctx6) (ops ctx7) \<and>
        ops ctx' = ops ctx7 @ [EmitterBranchOnValue (Suc (Suc (Suc (blocks ctx)))) cond
                                 (Suc (Suc (blocks ctx))) (Suc (blocks ctx))] \<and>
        k = Suc (blocks ctx)"
    by (intro exI [of _ lnode] exI [of _ "loop_cond Node"] exI [of _ "loop_code Node"]
        exI [of _ ?c6] exI [of _ ctx7]) simp
qed

text \<open>
  C5 on \<^verbatim>\<open>while (e) { break; }\<close>, on \<^verbatim>\<open>do { break; } while (e);\<close> and on a loop
  node without a left child.
\<close>

theorem C5_loop_flavours_witness:
  "emitterLoop ex_extern ex_ctx 1 ex_while = Inr (11, ex_while_out) \<and>
   emitterLoop ex_extern ex_ctx 1 ex_dowhile = Inr (11, ex_dowhile_out) \<and>
   (\<exists>ctx7 :: emitterCtx. prefix [EmitterBranchOnValue 1 (Some ex_value) 12 11] (ops ctx7) \<and>
      ops ex_while_out = ops ctx7 @ [EmitterBranchOnValue 13 (Some ex_value) 12 11]) \<and>
   (\<exists>ctx7 :: emitterCtx. prefix [IrJump 1 12] (ops ctx7) \<and>
      ops ex_dowhile_out = ops ctx7 @ [EmitterBranchOnValue 13 (Some ex_value) 12 11]) \<and>
   ast_l ex_loop_null = None \<and>
   (\<exists>c. emitterLoop ex_extern ex_ctx 1 ex_loop_null = Inl (NullDereference, c)) \<and>
   ast_l ex_while \<noteq> None \<and>
   emitterCode ex_extern ((loop_entry ex_extern ex_ctx 1 ex_while)\<lparr>breakTo := 11, continueTo := 13\<rparr>)
     12 (loop_code ex_while) 13 = Inr ex_while_body_out"
proof -
  from C5_loop_flavours [of ex_extern ex_ctx 1 ex_while 11 ex_while_out ex_while_body_out]
    ex_while_eval
  obtain w7 :: emitterCtx where "prefix [EmitterBranchOnValue 1 (Some ex_value) 12 11] (ops w7)"
    "ops ex_while_out = ops w7 @ [EmitterBranchOnValue 13 (Some ex_value) 12 11]"
    by (auto simp: ex_while_def ex_body_def ex_value_def ex_ctx_def)
  moreover
  from C5_loop_flavours [of ex_extern ex_ctx 1 ex_dowhile 11 ex_dowhile_out ex_while_body_out]
    ex_dowhile_eval
  obtain d7 :: emitterCtx where "prefix [IrJump 1 12] (ops d7)"
    "ops ex_dowhile_out = ops d7 @ [EmitterBranchOnValue 13 (Some ex_value) 12 11]"
    by (auto simp: ex_dowhile_def ex_body_def ex_value_def ex_ctx_def)
  moreover
  from C5_loop_flavours [of ex_extern ex_ctx 1 ex_loop_null 11 ex_ctx ex_ctx]
  have "\<exists>c. emitterLoop ex_extern ex_ctx 1 ex_loop_null = Inl (NullDereference, c)"
    by (simp add: ex_loop_null_def)
  moreover
  have "emitterCode ex_extern ((loop_entry ex_extern ex_ctx 1 ex_while)\<lparr>breakTo := 11, continueTo := 13\<rparr>)
     12 (loop_code ex_while) 13 = Inr ex_while_body_out"
    by (simp add: eval_simps ex_nodes ex_ctx_def ex_while_body_out_def loop_entry_def
        loop_code_def loop_cond_def loop_isDo_def)
  ultimately show ?thesis using ex_while_eval ex_dowhile_eval
    by (auto simp: ex_loop_null_def ex_while_def)
qed



text \<open>
  C9, as the code has it. A child of a module whose tag is none of \<^emph>\<open>using\<close>,
  \<^emph>\<open>fnImpl\<close>, \<^emph>\<open>decl\<close>, \<^emph>\<open>empty\<close> is reported to the debug sink with the string form
  of its tag, nothing else changes, and the module lowerer goes on with the next
  child. A statement whose tag the statement lowerer does not handle is reported to
  the debug sink with the string form of its tag, between the enter and leave events
  of the statement, and contributes no IR and no block; but the statement lowerer then
  returns its local \<^verbatim>\<open>continuation\<close>, which no branch has assigned: it does not
  return a block, and neither does the lowering of a code block that contains such a
  statement.
\<close>

theorem C9_unhandled_tag:
  "(ast_tag Current \<notin> {astUsing, astFnImpl, astDecl, astEmpty} \<longrightarrow>
      emitterModule_loop X ctx (Current # rest) =
        emitterModule_loop X
          (ctx\<lparr>debug := debug ctx @
              [DebugErrorUnhandled ''emitterModule'' ''AST tag'' (astTagGetStr X (ast_tag Current))]\<rparr>)
          rest) \<and>
   (ast_tag Node \<notin> {astBranch, astLoop, astIter, astCode, astReturn, astBreak, astContinue,
                       astDecl, astEmpty} \<longrightarrow>
    \<not> astIsValueTag X (ast_tag Node) \<longrightarrow>
      (\<exists>c. emitterLine X ctx block Node = Inl (UninitialisedRead, c) \<and>
           ops c = ops ctx \<and> blocks c = blocks ctx \<and>
           debug c = debug ctx @
             [DebugEnter (astTagGetStr X (ast_tag Node)),
              DebugErrorUnhandled ''emitterLine'' ''AST tag'' (astTagGetStr X (ast_tag Node)),
              DebugLeave]) \<and>
      (\<forall>k c. emitterLine X ctx block Node \<noteq> Inr (k, c)) \<and>
      (\<forall>k c. emitterCode_loop X ctx block (Node # following) \<noteq> Inr (k, c)))"
proof (intro conjI impI)
  assume "ast_tag Current \<notin> {astUsing, astFnImpl, astDecl, astEmpty}"
  then show "emitterModule_loop X ctx (Current # rest) =
        emitterModule_loop X
          (ctx\<lparr>debug := debug ctx @
              [DebugErrorUnhandled ''emitterModule'' ''AST tag'' (astTagGetStr X (ast_tag Current))]\<rparr>)
          rest"
    by (simp add: debugErrorUnhandled_def)
next
  assume t: "ast_tag Node \<notin> {astBranch, astLoop, astIter, astCode, astReturn, astBreak,
                astContinue, astDecl, astEmpty}"
    and v: "\<not> astIsValueTag X (ast_tag Node)"
  have u: "emitterLine X ctx block Node =
     Inl (UninitialisedRead,
          debugLeave (debugErrorUnhandled (debugEnter ctx (astTagGetStr X (ast_tag Node)))
            ''emitterLine'' ''AST tag'' (astTagGetStr X (ast_tag Node))))"
    using t v by (intro emitterLine_unhandled) (simp_all add: statementTag_def)
  show "\<exists>c. emitterLine X ctx block Node = Inl (UninitialisedRead, c) \<and>
           ops c = ops ctx \<and> blocks c = blocks ctx \<and>
           debug c = debug ctx @
             [DebugEnter (astTagGetStr X (ast_tag Node)),
              DebugErrorUnhandled ''emitterLine'' ''AST tag'' (astTagGetStr X (ast_tag Node)),
              DebugLeave]"
    by (simp add: u debugLeave_def debugErrorUnhandled_def debugEnter_def)
  show "\<forall>k c. emitterLine X ctx block Node \<noteq> Inr (k, c)"
    by (simp add: u)
  show "\<forall>k c. emitterCode_loop X ctx block (Node # following) \<noteq> Inr (k, c)"
    by (simp add: emitterCode_loop.simps u)
qed

text \<open>
  C9 on a node with a tag that neither dispatch handles, as a child of a module
  followed by an empty declaration, and as a statement followed by \<^verbatim>\<open>break;\<close>.
\<close>

theorem C9_unhandled_tag_witness:
  "ast_tag ex_unhandled \<notin> {astUsing, astFnImpl, astDecl, astEmpty} \<and>
   ast_tag ex_unhandled \<notin> {astBranch, astLoop, astIter, astCode, astReturn, astBreak,
                             astContinue, astDecl, astEmpty} \<and>
   \<not> astIsValueTag ex_extern (ast_tag ex_unhandled) \<and>
   emitterModule_loop ex_extern ex_ctx [ex_unhandled, Ast astEmpty [] None None None 0] =
     Inr ex_module_out \<and>
   emitterLine ex_extern ex_ctx 1 ex_unhandled = Inl (UninitialisedRead, ex_unhandled_out) \<and>
   (\<forall>k c. emitterCode_loop ex_extern ex_ctx 1 [ex_unhandled, ex_break] \<noteq> Inr (k, c))"
  using C9_unhandled_tag [of ex_unhandled ex_extern ex_ctx "[Ast astEmpty [] None None None 0]"
      ex_unhandled 1 "[ex_break]"] ex_module_eval ex_unhandled_eval
  by (simp add: ex_unhandled_def ex_extern_simps ex_isValueTag_def)

text \<open>
  The input on which the code departs from C9: the statement lowerer, called on a
  statement with an unhandled tag, reports the tag and then reads a local that was
  never assigned instead of returning a block.
\<close>

theorem C9_failing_input:
  "emitterLine ex_extern ex_ctx 1 (Ast (astOtherTag 100) [] None None None 0) =
     Inl (UninitialisedRead,
          ex_ctx\<lparr>debug := [DebugEnter ''Invalid'',
                            DebugErrorUnhandled ''emitterLine'' ''AST tag'' ''Invalid'',
                            DebugLeave]\<rparr>)"
  using ex_unhandled_eval by (simp add: ex_unhandled_def ex_unhandled_out_def)

text \<open>
  C4, as the code has it. A \<^emph>\<open>return\<close> without an expression only emits the
  unconditional jump to \<open>returnTo\<close>. A \<^emph>\<open>return\<close> with an expression lowers the
  expression; when its size exceeds the word size it allocates a word-size register,
  loads into it the hidden pointer from the memory at the frame base plus twice the word
  size, copies the value (at its own size) to the memory the register points to, frees
  the value, and goes on with the register as the returned operand; then it requests
  the return register, at the word size in the hidden-pointer case and at the size of
  the value otherwise. Only when the request is granted does it move the returned
  operand into the return register (and free the register); when the request is refused
  no move is emitted, and an internal error is reported unless the base of the returned
  operand is the return register already. Last it frees the returned operand and emits
  the unconditional jump to \<open>returnTo\<close>.
\<close>

theorem C4_return_lowering:
  "(ast_r Node = None \<longrightarrow>
      emitterReturn X ctx block Node = ctx\<lparr>ops := ops ctx @ [IrJump block (returnTo ctx)]\<rparr>) \<and>
   (ast_r Node = Some rn \<longrightarrow>
      (\<exists>val b ctx1 granted.
         emitterValue X ctx None (Some rn) requestValue = (val, b, ctx1) \<and>
         (let ws = wordsize (arch ctx);
              retSize = typeGetSize X (arch ctx) (ast_dt rn);
              retInTemp = (ws <s retSize);
              r = regAllocated X ctx1 ws;
              viaTemp =
                (if retInTemp then
                   [RegAlloc ws,
                    AsmMove (OperandReg r) (OperandMem (Some regRBP) (2 * ws) ws),
                    AsmMove (OperandMem r 0 retSize) val,
                    OperandFree val]
                 else []);
              Ret = (if retInTemp then OperandReg r else val);
              sz = (if retInTemp then ws else retSize)
          in granted = regRequested X (ctx1\<lparr>ops := ops ctx1 @ viaTemp\<rparr>) regRAX sz \<and>
             ops (emitterReturn X ctx block Node) =
               ops ctx @ [EmitterValue None (Some rn) requestValue] @ viaTemp @
               [RegRequest regRAX sz] @
               (if granted then [AsmMove (OperandReg (Some regRAX)) Ret, RegFree (Some regRAX)]
                else []) @
               [OperandFree Ret, IrJump block (returnTo ctx)] \<and>
             debug (emitterReturn X ctx block Node) =
               debug ctx @
               (if \<not> granted \<and> operand_base Ret \<noteq> Some regRAX
                then [DebugError ''emitterLine'' ''unable to allocate RAX for return'']
                else []))))"
  by (simp add: emitterReturn_def emitterValue_def regAlloc_def regRequest_def regGet_def
      asmMove_def operandFree_def regFree_def debugError_def irJump_def Let_def case_prod_beta
      operandCreateReg_def operandCreateMem_def)

text \<open>
  C4 on \<^verbatim>\<open>return;\<close>, on \<^verbatim>\<open>return e;\<close> with \<^verbatim>\<open>e\<close> of size 4 and of size 16
  (the word size is 8), and on \<^verbatim>\<open>return e;\<close> when the value of \<^verbatim>\<open>e\<close> is in the return
  register and the request for it is refused.
\<close>

theorem C4_return_lowering_witness:
  "ast_r ex_return_void = None \<and>
   emitterReturn ex_extern ex_ctx 1 ex_return_void = ex_ctx\<lparr>ops := [IrJump 1 2]\<rparr> \<and>
   ast_r ex_return = Some ex_value \<and>
   ops (emitterReturn ex_extern ex_ctx 1 ex_return) =
     [EmitterValue None (Some ex_value) requestValue, RegRequest regRAX 4,
      AsmMove (OperandReg (Some regRAX)) (OperandReg (Some (regOtherIndex 1))),
      RegFree (Some regRAX), OperandFree (OperandReg (Some (regOtherIndex 1))), IrJump 1 2] \<and>
   ast_r ex_return_big = Some ex_value_big \<and>
   ops (emitterReturn ex_extern ex_ctx 1 ex_return_big) =
     [EmitterValue None (Some ex_value_big) requestValue, RegAlloc 8,
      AsmMove (OperandReg (Some (regOtherIndex 2))) (OperandMem (Some regRBP) 16 8),
      AsmMove (OperandMem (Some (regOtherIndex 2)) 0 16) (OperandReg (Some (regOtherIndex 1))),
      OperandFree (OperandReg (Some (regOtherIndex 1))), RegRequest regRAX 8,
      AsmMove (OperandReg (Some regRAX)) (OperandReg (Some (regOtherIndex 2))),
      RegFree (Some regRAX), OperandFree (OperandReg (Some (regOtherIndex 2))), IrJump 1 2] \<and>
   ops (emitterReturn ex_extern_rax ex_ctx 1 ex_return) =
     [EmitterValue None (Some ex_value) requestValue, RegRequest regRAX 4,
      OperandFree (OperandReg (Some regRAX)), IrJump 1 2] \<and>
   debug (emitterReturn ex_extern_rax ex_ctx 1 ex_return) = []"
  using C4_return_lowering [of ex_return_void ex_extern ex_ctx 1 ex_value]
    C4_return_lowering [of ex_return ex_extern ex_ctx 1 ex_value]
    C4_return_lowering [of ex_return_big ex_extern ex_ctx 1 ex_value_big]
    C4_return_lowering [of ex_return ex_extern_rax ex_ctx 1 ex_value]
  by (auto simp: ex_return_void_def ex_return_def ex_return_big_def ex_value_def
      ex_value_big_def ex_ctx_def ex_arch_def emitterValue_def ex_extern_simps
      ex_extern_rax_simps Let_def)

text \<open>
  C4 as stated fails: the value of the returned expression is in the return register
  and the request for the return register is refused; the return lowerer emits no move
  into the return register and reports no error.
\<close>

theorem C4_counterexample:
  "ops (emitterReturn ex_extern_rax ex_ctx 1 ex_return) =
     [EmitterValue None (Some ex_value) requestValue, RegRequest regRAX 4,
      OperandFree (OperandReg (Some regRAX)), IrJump 1 2] \<and>
   debug (emitterReturn ex_extern_rax ex_ctx 1 ex_return) = []"
  by (simp add: eval_return ex_return_def ex_value_def ex_ctx_def emitterValue_def
      ex_extern_rax_simps irJump_def Let_def)

text \<open>
  C2: \<open>emitterScopeAssignOffsets\<close> returns the starting offset minus the sizes of all
  \<^emph>\<open>id\<close> symbols of the scope, those of nested scopes included, and leaves the scope
  symbol itself and the number and order of its children as they are. The running
  offset in front of the child at position \<open>i\<close> is the starting offset minus the sizes
  in the children before it. An \<^emph>\<open>id\<close> child gets the running offset minus its type
  size as its offset; a \<^emph>\<open>scope\<close> child is what the recursive call started at the
  running offset returns, and the offset that call returns is the running offset in
  front of the next child; a child with any other tag is unchanged and leaves the
  running offset as it is. The symbols reported are the \<^emph>\<open>id\<close> symbols in the order of
  the walk. When no \<^emph>\<open>id\<close> symbol has a negative size and the frame fits 32 bits, the
  offset returned is the starting offset minus the sum of the sizes as integers, and it
  is the least of all offsets assigned. The function lowerer calls the assigner on the
  function symbol with starting offset 0 and passes the negated result, that is the sum
  of the sizes, to the prologue as the stack size.
\<close>

theorem C2_scope_offsets:
  "(emitterScopeAssignOffsets X a Scope offset dbg = (Scope', offset', dbg') \<longrightarrow>
      offset' = offset - localsSize X a Scope \<and>
      sym_tag Scope' = sym_tag Scope \<and> sym_dt Scope' = sym_dt Scope \<and>
      sym_offset Scope' = sym_offset Scope \<and> sym_label Scope' = sym_label Scope \<and>
      length (sym_children Scope') = length (sym_children Scope) \<and>
      (\<forall>i < length (sym_children Scope).
         (sym_tag (sym_children Scope ! i) = symId \<longrightarrow>
            sym_children Scope' ! i =
              sym_set_offset (sym_children Scope ! i)
                (offset - localsSize_list X a (take i (sym_children Scope)) -
                 typeGetSize X a (sym_dt (sym_children Scope ! i))) \<and>
            localsSize_list X a (take (Suc i) (sym_children Scope)) =
              localsSize_list X a (take i (sym_children Scope)) +
              typeGetSize X a (sym_dt (sym_children Scope ! i))) \<and>
         (sym_tag (sym_children Scope ! i) = symScope \<longrightarrow>
            (\<exists>d d'. emitterScopeAssignOffsets X a (sym_children Scope ! i)
                      (offset - localsSize_list X a (take i (sym_children Scope))) d =
                    (sym_children Scope' ! i,
                     offset - localsSize_list X a (take (Suc i) (sym_children Scope)), d'))) \<and>
         (sym_tag (sym_children Scope ! i) \<notin> {symId, symScope} \<longrightarrow>
            sym_children Scope' ! i = sym_children Scope ! i \<and>
            localsSize_list X a (take (Suc i) (sym_children Scope)) =
              localsSize_list X a (take i (sym_children Scope)))) \<and>
      dbg' = dbg @ scopeReports X a Scope offset \<and>
      (sizesNonneg X a Scope \<longrightarrow> - (2 ^ 31) \<le> sint offset - localsSizeInt X a Scope \<longrightarrow>
         sint offset' = sint offset - localsSizeInt X a Scope \<and>
         (\<forall>v \<in> set (idOffsets Scope'). offset' \<le>s v \<and> v \<le>s offset))) \<and>
   (emitterFnImpl X ctx Node = Inr (fn', ctx') \<longrightarrow>
      (\<exists>fn0 fnP dbgP offsetF dbgF.
         ast_symbol Node = Some fn0 \<and>
         emitterScopeAssignOffsets X (arch ctx) fnP 0 dbgP = (fn', offsetF, dbgF) \<and>
         prefix (ops ctx @ [IrFnPrologue (Suc (blocks ctx)) (sym_label fn') (- offsetF)])
           (ops ctx') \<and>
         - offsetF = localsSize X (arch ctx) fn0))"
proof (intro conjI impI)
  assume "emitterScopeAssignOffsets X a Scope offset dbg = (Scope', offset', dbg')"
  then have s: "Scope' = scopeAssigned X a Scope offset"
    and o: "offset' = offset - localsSize X a Scope"
    and d: "dbg' = dbg @ scopeReports X a Scope offset"
    by (simp_all add: scope_closed_form)
  show "offset' = offset - localsSize X a Scope" by (rule o)
  show "dbg' = dbg @ scopeReports X a Scope offset" by (rule d)
  show "sym_tag Scope' = sym_tag Scope" "sym_dt Scope' = sym_dt Scope"
    "sym_offset Scope' = sym_offset Scope" "sym_label Scope' = sym_label Scope"
    "length (sym_children Scope') = length (sym_children Scope)"
    by (simp_all add: s scopeAssigned_fields scopeAssigned_length)
  show "\<forall>i < length (sym_children Scope).
         (sym_tag (sym_children Scope ! i) = symId \<longrightarrow>
            sym_children Scope' ! i =
              sym_set_offset (sym_children Scope ! i)
                (offset - localsSize_list X a (take i (sym_children Scope)) -
                 typeGetSize X a (sym_dt (sym_children Scope ! i))) \<and>
            localsSize_list X a (take (Suc i) (sym_children Scope)) =
              localsSize_list X a (take i (sym_children Scope)) +
              typeGetSize X a (sym_dt (sym_children Scope ! i))) \<and>
         (sym_tag (sym_children Scope ! i) = symScope \<longrightarrow>
            (\<exists>d d'. emitterScopeAssignOffsets X a (sym_children Scope ! i)
                      (offset - localsSize_list X a (take i (sym_children Scope))) d =
                    (sym_children Scope' ! i,
                     offset - localsSize_list X a (take (Suc i) (sym_children Scope)), d'))) \<and>
         (sym_tag (sym_children Scope ! i) \<notin> {symId, symScope} \<longrightarrow>
            sym_children Scope' ! i = sym_children Scope ! i \<and>
            localsSize_list X a (take (Suc i) (sym_children Scope)) =
              localsSize_list X a (take i (sym_children Scope)))"
    by (simp add: s scopeAssigned_fields scopeAssigned_nth localsSize_list_take_Suc
        scope_closed_form diff_diff_eq)
next
  assume e: "emitterScopeAssignOffsets X a Scope offset dbg = (Scope', offset', dbg')"
    and n: "sizesNonneg X a Scope" and b: "- (2 ^ 31) \<le> sint offset - localsSizeInt X a Scope"
  from e have s: "Scope' = scopeAssigned X a Scope offset"
    and o: "offset' = offset - localsSize X a Scope"
    by (simp_all add: scope_closed_form)
  from scope_no_wrap(1) [OF n b]
  show "sint offset' = sint offset - localsSizeInt X a Scope"
    "\<forall>v \<in> set (idOffsets Scope'). offset' \<le>s v \<and> v \<le>s offset"
    by (simp_all add: s o word_sle_eq)
next
  assume "emitterFnImpl X ctx Node = Inr (fn', ctx')"
  then obtain fn0 ctx7 where
    f: "ast_symbol Node = Some fn0"
    and c: "emitterCode X (fn_body_ctx X ctx fn0) (Suc (blocks ctx)) (ast_r Node)
       (Suc (Suc (blocks ctx))) = Inr ctx7"
    and l: "fn' = fst (fn_layout X (arch ctx) fn0 (debug ctx @ [DebugEnter ''FnImpl'']))"
    and e: "ctx' = debugLeave (irFnEpilogue ctx7 (Suc (Suc (blocks ctx))))"
    by (rule emitterFnImpl_Inr)
  let ?P = "emitterFnImpl_params X (arch ctx) (sym_children fn0) (paramStart X (arch ctx) fn0)
              (debug ctx @ [DebugEnter ''FnImpl''])"
  let ?fnP = "sym_set_children (fn_labelled X fn0) (fst ?P)"
  have lp: "localsSize X (arch ctx) ?fnP = localsSize X (arch ctx) fn0"
    by (simp add: localsSize_children sym_set_fields params_localsSize)
  have p: "prefix (ops (fn_body_ctx X ctx fn0)) (ops ctx')"
    using ctx_extends_ops [OF emitterCode_frame(1) [OF c]]
    by (simp add: e irFnEpilogue_def debug_fields)
  have "emitterScopeAssignOffsets X (arch ctx) ?fnP 0 (snd (snd ?P)) =
          (fn', - localsSize X (arch ctx) fn0,
           snd (snd ?P) @ scopeReports X (arch ctx) ?fnP 0)"
    by (simp add: scope_closed_form l fn_layout_closed_form lp)
  moreover have "prefix (ops ctx @ [IrFnPrologue (Suc (blocks ctx)) (sym_label fn')
                    (- (- localsSize X (arch ctx) fn0))]) (ops ctx')"
    using p by (simp add: fn_body_ctx_fields l fn_layout_closed_form)
  ultimately show "\<exists>fn0 fnP dbgP offsetF dbgF.
         ast_symbol Node = Some fn0 \<and>
         emitterScopeAssignOffsets X (arch ctx) fnP 0 dbgP = (fn', offsetF, dbgF) \<and>
         prefix (ops ctx @ [IrFnPrologue (Suc (blocks ctx)) (sym_label fn') (- offsetF)])
           (ops ctx') \<and>
         - offsetF = localsSize X (arch ctx) fn0"
    using f by (intro exI [of _ fn0] exI [of _ ?fnP] exI [of _ "snd (snd ?P)"]
        exI [of _ "- localsSize X (arch ctx) fn0"]
        exI [of _ "snd (snd ?P) @ scopeReports X (arch ctx) ?fnP 0"]) simp
qed

text \<open>
  C2 on a scope with an \<^emph>\<open>id\<close> of size 4, two nested scopes with an \<^emph>\<open>id\<close> of size 8
  and of size 16, a symbol with another tag and an \<^emph>\<open>id\<close> of size 2, and on a function
  that has this scope as its locals.
\<close>

theorem C2_scope_offsets_witness:
  "emitterScopeAssignOffsets ex_extern ex_arch ex_locals 0 [] =
     (ex_locals_out, - 30,
      [ReportSymbol (Sym symId 4 [] (- 4) None), ReportSymbol (Sym symId 8 [] (- 12) None),
       ReportSymbol (Sym symId 16 [] (- 28) None), ReportSymbol (Sym symId 2 [] (- 30) None)]) \<and>
   localsSize ex_extern ex_arch ex_locals = 30 \<and>
   sizesNonneg ex_extern ex_arch ex_locals \<and>
   - (2 ^ 31) \<le> sint (0 :: int32) - localsSizeInt ex_extern ex_arch ex_locals \<and>
   list_all (\<lambda>v. - 30 \<le>s v \<and> v \<le>s 0) (idOffsets ex_locals_out) \<and>
   (\<exists>d d'. emitterScopeAssignOffsets ex_extern ex_arch
              (Sym symScope 0 [Sym symId 8 [] 0 None] 0 None) (- 4) d =
            (Sym symScope 0 [Sym symId 8 [] (- 12) None] 0 None, - 12, d')) \<and>
   emitterFnImpl ex_extern (emitterInit ''out.s'' ex_arch) ex_fn = Inr (ex_fn_sym_out, ex_fn_out) \<and>
   prefix [IrInit ''out.s'', IrFnPrologue 1 (Some ''_f'') 30] (ops ex_fn_out) \<and>
   localsSize ex_extern ex_arch ex_fn_sym = 30"
proof -
  note t = C2_scope_offsets [where X = ex_extern and a = ex_arch and Scope = ex_locals
      and offset = 0 and dbg = "[]" and Scope' = ex_locals_out and offset' = "- 30"
      and dbg' = "[ReportSymbol (Sym symId 4 [] (- 4) None),
        ReportSymbol (Sym symId 8 [] (- 12) None), ReportSymbol (Sym symId 16 [] (- 28) None),
        ReportSymbol (Sym symId 2 [] (- 30) None)]"
      and ctx = "emitterInit ''out.s'' ex_arch" and Node = ex_fn and fn' = ex_fn_sym_out
      and ctx' = ex_fn_out]
  note s = t [THEN conjunct1, rule_format, OF ex_locals_eval]
  have a: "\<forall>v \<in> set (idOffsets ex_locals_out). - 30 \<le>s v \<and> v \<le>s 0"
    using s by (simp add: ex_locals_sizes)
  from t [THEN conjunct2, rule_format, OF ex_fn_eval]
  have b: "prefix [IrInit ''out.s'', IrFnPrologue 1 (Some ''_f'') 30] (ops ex_fn_out)"
    by (auto simp: ex_fn_def ex_fn_sizes emitterInit_def ex_fn_sym_out_def)
  from s have q: "\<forall>i < length (sym_children ex_locals).
      sym_tag (sym_children ex_locals ! i) = symScope \<longrightarrow>
      (\<exists>d d'. emitterScopeAssignOffsets ex_extern ex_arch (sym_children ex_locals ! i)
                (0 - localsSize_list ex_extern ex_arch (take i (sym_children ex_locals))) d =
              (sym_children ex_locals_out ! i,
               0 - localsSize_list ex_extern ex_arch (take (Suc i) (sym_children ex_locals)),
               d'))"
    by blast
  from q [rule_format, of 1]
  have c: "\<exists>d d'. emitterScopeAssignOffsets ex_extern ex_arch
              (Sym symScope 0 [Sym symId 8 [] 0 None] 0 None) (- 4) d =
            (Sym symScope 0 [Sym symId 8 [] (- 12) None] 0 None, - 12, d')"
    by (simp add: ex_locals_def ex_locals_out_def ex_extern_simps)
  from a b c ex_locals_eval ex_fn_eval show ?thesis
    by (simp add: ex_locals_sizes ex_fn_sizes list_all_iff)
qed

text \<open>
  C3: the loop over the parameters, started at an offset, gives the child at position
  \<open>i\<close> among the leading \<^emph>\<open>param\<close> children the start plus the sizes of the parameters
  before it, leaves every child from the first one that is not a \<^emph>\<open>param\<close> on as it
  is, reports the parameters it has assigned, and ends with the start plus the sizes of
  all leading parameters. The function lowerer starts the loop at twice the word size,
  plus the word size when the size of the return type exceeds the word size, and
  the offsets are those of the function symbol when the function lowerer returns; a
  \<^emph>\<open>param\<close> child that comes after a child of another kind is not assigned.
\<close>

theorem C3_parameter_offsets:
  "(emitterFnImpl_params X a cs start dbg = (cs', lastOffset, dbg') \<longrightarrow>
      length cs' = length cs \<and>
      (\<forall>i < length (leadingParams cs).
         cs' ! i = sym_set_offset (cs ! i) (start + paramSizes X a (take i cs))) \<and>
      (\<forall>i. length (leadingParams cs) \<le> i \<longrightarrow> i < length cs \<longrightarrow> cs' ! i = cs ! i) \<and>
      lastOffset = start + paramSizes X a (leadingParams cs) \<and>
      dbg' = dbg @ map ReportSymbol (take (length (leadingParams cs)) cs')) \<and>
   (emitterFnImpl X ctx Node = Inr (fn', ctx') \<longrightarrow>
      (\<exists>fn0 ps lastOffsetF dbgP.
         ast_symbol Node = Some fn0 \<and>
         emitterFnImpl_params X (arch ctx) (sym_children fn0)
           (2 * wordsize (arch ctx) +
            (if wordsize (arch ctx) <s typeGetSize X (arch ctx) (typeGetReturn X (sym_dt fn0))
             then wordsize (arch ctx) else 0))
           (debug ctx @ [DebugEnter ''FnImpl'']) = (ps, lastOffsetF, dbgP) \<and>
         paramStart X (arch ctx) fn0 =
           2 * wordsize (arch ctx) +
           (if wordsize (arch ctx) <s typeGetSize X (arch ctx) (typeGetReturn X (sym_dt fn0))
            then wordsize (arch ctx) else 0) \<and>
         lastOffsetF =
           paramStart X (arch ctx) fn0 +
           paramSizes X (arch ctx) (leadingParams (sym_children fn0)) \<and>
         length (sym_children fn') = length (sym_children fn0) \<and>
         (\<forall>i < length (leadingParams (sym_children fn0)).
            sym_tag (sym_children fn0 ! i) = symParam \<and>
            sym_children fn' ! i =
              sym_set_offset (sym_children fn0 ! i)
                (paramStart X (arch ctx) fn0 +
                 paramSizes X (arch ctx) (take i (sym_children fn0)))) \<and>
         (\<forall>i. length (leadingParams (sym_children fn0)) \<le> i \<longrightarrow>
              i < length (sym_children fn0) \<longrightarrow>
              sym_tag (sym_children fn0 ! i) = symParam \<longrightarrow>
              sym_children fn' ! i = sym_children fn0 ! i)))"
proof (rule conjI)
  show "emitterFnImpl_params X a cs start dbg = (cs', lastOffset, dbg') \<longrightarrow>
      length cs' = length cs \<and>
      (\<forall>i < length (leadingParams cs).
         cs' ! i = sym_set_offset (cs ! i) (start + paramSizes X a (take i cs))) \<and>
      (\<forall>i. length (leadingParams cs) \<le> i \<longrightarrow> i < length cs \<longrightarrow> cs' ! i = cs ! i) \<and>
      lastOffset = start + paramSizes X a (leadingParams cs) \<and>
      dbg' = dbg @ map ReportSymbol (take (length (leadingParams cs)) cs')"
    by (rule impI) (rule params_closed_form)
next
  show "emitterFnImpl X ctx Node = Inr (fn', ctx') \<longrightarrow>
      (\<exists>fn0 ps lastOffsetF dbgP.
         ast_symbol Node = Some fn0 \<and>
         emitterFnImpl_params X (arch ctx) (sym_children fn0)
           (2 * wordsize (arch ctx) +
            (if wordsize (arch ctx) <s typeGetSize X (arch ctx) (typeGetReturn X (sym_dt fn0))
             then wordsize (arch ctx) else 0))
           (debug ctx @ [DebugEnter ''FnImpl'']) = (ps, lastOffsetF, dbgP) \<and>
         paramStart X (arch ctx) fn0 =
           2 * wordsize (arch ctx) +
           (if wordsize (arch ctx) <s typeGetSize X (arch ctx) (typeGetReturn X (sym_dt fn0))
            then wordsize (arch ctx) else 0) \<and>
         lastOffsetF =
           paramStart X (arch ctx) fn0 +
           paramSizes X (arch ctx) (leadingParams (sym_children fn0)) \<and>
         length (sym_children fn') = length (sym_children fn0) \<and>
         (\<forall>i < length (leadingParams (sym_children fn0)).
            sym_tag (sym_children fn0 ! i) = symParam \<and>
            sym_children fn' ! i =
              sym_set_offset (sym_children fn0 ! i)
                (paramStart X (arch ctx) fn0 +
                 paramSizes X (arch ctx) (take i (sym_children fn0)))) \<and>
         (\<forall>i. length (leadingParams (sym_children fn0)) \<le> i \<longrightarrow>
              i < length (sym_children fn0) \<longrightarrow>
              sym_tag (sym_children fn0 ! i) = symParam \<longrightarrow>
              sym_children fn' ! i = sym_children fn0 ! i))"
  proof
  assume "emitterFnImpl X ctx Node = Inr (fn', ctx')"
  then obtain fn0 ctx7 where
    f: "ast_symbol Node = Some fn0"
    and l: "fn' = fst (fn_layout X (arch ctx) fn0 (debug ctx @ [DebugEnter ''FnImpl'']))"
    by (rule emitterFnImpl_Inr)
  let ?a = "arch ctx"
  let ?cs = "sym_children fn0"
  let ?P = "emitterFnImpl_params X ?a ?cs (paramStart X ?a fn0)
              (debug ctx @ [DebugEnter ''FnImpl''])"
  have e: "?P = (fst ?P, fst (snd ?P), snd (snd ?P))" by simp
  note h = params_closed_form [OF e]
  note h1 = h [THEN conjunct1]
  note h2 = h [THEN conjunct2, THEN conjunct1, rule_format]
  note h3 = h [THEN conjunct2, THEN conjunct2, THEN conjunct1, rule_format]
  note h4 = h [THEN conjunct2, THEN conjunct2, THEN conjunct2, THEN conjunct1]
  have c: "sym_children fn' = scopeAssigned_list X ?a (fst ?P) 0"
    by (simp add: l fn_layout_closed_form scopeAssigned_fields sym_set_fields)
  have n: "length (sym_children fn') = length ?cs"
    by (simp add: c scopeAssigned_length h1)
  have ps: "paramStart X ?a fn0 =
           2 * wordsize ?a +
           (if wordsize ?a <s typeGetSize X ?a (typeGetReturn X (sym_dt fn0))
            then wordsize ?a else 0)"
    by (simp add: paramStart_def)
  have pe: "emitterFnImpl_params X ?a ?cs
           (2 * wordsize ?a +
            (if wordsize ?a <s typeGetSize X ?a (typeGetReturn X (sym_dt fn0))
             then wordsize ?a else 0))
           (debug ctx @ [DebugEnter ''FnImpl'']) = (fst ?P, fst (snd ?P), snd (snd ?P))"
    unfolding ps [symmetric] by simp
  have lo: "fst (snd ?P) = paramStart X ?a fn0 + paramSizes X ?a (leadingParams ?cs)"
    by (rule h4)
  have lead: "\<forall>i < length (leadingParams ?cs).
            sym_tag (?cs ! i) = symParam \<and>
            sym_children fn' ! i =
              sym_set_offset (?cs ! i) (paramStart X ?a fn0 + paramSizes X ?a (take i ?cs))"
  proof (intro allI impI)
    fix i assume i: "i < length (leadingParams ?cs)"
    with leadingParams_length [of ?cs] have j: "i < length (fst ?P)" by (simp add: h1)
    from i have t: "sym_tag (?cs ! i) = symParam" by (rule leadingParams_tag)
    from i have p: "fst ?P ! i =
        sym_set_offset (?cs ! i) (paramStart X ?a fn0 + paramSizes X ?a (take i ?cs))"
      by (rule h2)
    show "sym_tag (?cs ! i) = symParam \<and>
            sym_children fn' ! i =
              sym_set_offset (?cs ! i) (paramStart X ?a fn0 + paramSizes X ?a (take i ?cs))"
      using t by (simp add: c scopeAssigned_nth [OF j] p sym_set_offset_fields)
  qed
  have later: "\<forall>i. length (leadingParams ?cs) \<le> i \<longrightarrow> i < length ?cs \<longrightarrow>
              sym_tag (?cs ! i) = symParam \<longrightarrow> sym_children fn' ! i = ?cs ! i"
  proof (intro allI impI)
    fix i assume i: "length (leadingParams ?cs) \<le> i" "i < length ?cs"
      and t: "sym_tag (?cs ! i) = symParam"
    from i have j: "i < length (fst ?P)" by (simp add: h1)
    from i have p: "fst ?P ! i = ?cs ! i" by (rule h3)
    show "sym_children fn' ! i = ?cs ! i"
      using t by (simp add: c scopeAssigned_nth [OF j] p)
  qed
  show "\<exists>fn0 ps lastOffsetF dbgP.
         ast_symbol Node = Some fn0 \<and>
         emitterFnImpl_params X (arch ctx) (sym_children fn0)
           (2 * wordsize (arch ctx) +
            (if wordsize (arch ctx) <s typeGetSize X (arch ctx) (typeGetReturn X (sym_dt fn0))
             then wordsize (arch ctx) else 0))
           (debug ctx @ [DebugEnter ''FnImpl'']) = (ps, lastOffsetF, dbgP) \<and>
         paramStart X (arch ctx) fn0 =
           2 * wordsize (arch ctx) +
           (if wordsize (arch ctx) <s typeGetSize X (arch ctx) (typeGetReturn X (sym_dt fn0))
            then wordsize (arch ctx) else 0) \<and>
         lastOffsetF =
           paramStart X (arch ctx) fn0 +
           paramSizes X (arch ctx) (leadingParams (sym_children fn0)) \<and>
         length (sym_children fn') = length (sym_children fn0) \<and>
         (\<forall>i < length (leadingParams (sym_children fn0)).
            sym_tag (sym_children fn0 ! i) = symParam \<and>
            sym_children fn' ! i =
              sym_set_offset (sym_children fn0 ! i)
                (paramStart X (arch ctx) fn0 +
                 paramSizes X (arch ctx) (take i (sym_children fn0)))) \<and>
         (\<forall>i. length (leadingParams (sym_children fn0)) \<le> i \<longrightarrow>
              i < length (sym_children fn0) \<longrightarrow>
              sym_tag (sym_children fn0 ! i) = symParam \<longrightarrow>
              sym_children fn' ! i = sym_children fn0 ! i)"
    by (intro exI [of _ fn0] exI [of _ "fst ?P"] exI [of _ "fst (snd ?P)"]
        exI [of _ "snd (snd ?P)"] conjI f pe ps lo n lead later)
  qed
qed

text \<open>
  C3 on a function symbol with a return type of size 16 (the word size is 8), two
  parameters of sizes 4 and 8, a scope of locals and one more parameter after it.
\<close>

theorem C3_parameter_offsets_witness:
  "emitterFnImpl_params ex_extern ex_arch (sym_children ex_fn_sym) 24 [] =
     ([Sym symParam 4 [] 24 None, Sym symParam 8 [] 28 None, ex_locals,
       Sym symParam 4 [] 0 None], 36,
      [ReportSymbol (Sym symParam 4 [] 24 None), ReportSymbol (Sym symParam 8 [] 28 None)]) \<and>
   leadingParams (sym_children ex_fn_sym) =
     [Sym symParam 4 [] 0 None, Sym symParam 8 [] 0 None] \<and>
   paramStart ex_extern ex_arch ex_fn_sym = 24 \<and>
   paramStart ex_extern ex_arch (Sym (symOtherTag 0) 4000 [] 0 None) = 16 \<and>
   24 + paramSizes ex_extern ex_arch (leadingParams (sym_children ex_fn_sym)) = 36 \<and>
   emitterFnImpl ex_extern (emitterInit ''out.s'' ex_arch) ex_fn = Inr (ex_fn_sym_out, ex_fn_out) \<and>
   sym_children ex_fn_sym_out ! 0 = Sym symParam 4 [] 24 None \<and>
   sym_children ex_fn_sym_out ! 1 = Sym symParam 8 [] 28 None \<and>
   sym_children ex_fn_sym_out ! 3 = Sym symParam 4 [] 0 None"
proof -
  note t = C3_parameter_offsets [where X = ex_extern and a = ex_arch
      and cs = "sym_children ex_fn_sym" and start = 24 and dbg = "[]"
      and cs' = "[Sym symParam 4 [] 24 None, Sym symParam 8 [] 28 None, ex_locals,
                  Sym symParam 4 [] 0 None]"
      and lastOffset = 36
      and dbg' = "[ReportSymbol (Sym symParam 4 [] 24 None),
                   ReportSymbol (Sym symParam 8 [] 28 None)]"
      and ctx = "emitterInit ''out.s'' ex_arch" and Node = ex_fn and fn' = ex_fn_sym_out
      and ctx' = ex_fn_out]
  from t [THEN conjunct1, rule_format, OF ex_params_eval]
  have a: "24 + paramSizes ex_extern ex_arch (leadingParams (sym_children ex_fn_sym)) = 36"
    by simp
  from t [THEN conjunct2, rule_format, OF ex_fn_eval]
  have b: "\<forall>i < length (leadingParams (sym_children ex_fn_sym)).
      sym_children ex_fn_sym_out ! i =
        sym_set_offset (sym_children ex_fn_sym ! i)
          (paramStart ex_extern ex_arch ex_fn_sym +
           paramSizes ex_extern ex_arch (take i (sym_children ex_fn_sym)))"
    by (auto simp: ex_fn_def emitterInit_def)
  from b [rule_format, of 0] b [rule_format, of 1]
  have c: "sym_children ex_fn_sym_out ! 0 = Sym symParam 4 [] 24 None"
    "sym_children ex_fn_sym_out ! 1 = Sym symParam 8 [] 28 None"
    by (simp_all add: ex_params_sizes)
      (simp_all add: ex_fn_sym_def paramSizes_def sym_set_offset_def ex_extern_simps)
  from a c ex_params_eval ex_fn_eval show ?thesis
    by (simp add: ex_params_sizes ex_fn_sym_out_def)
qed

end
